theory Spec2Isabelle
  imports Main "HOL-Library.AList" "HOL-Library.Char_ord" "HOL-Library.List_Lexorder"
begin

section \<open>Data model\<close>

text \<open>
  The collection proxies of \<^verbatim>\<open>mixer/blender_data/datablock_collection_proxy.py\<close>.
  Python objects with identity (live datablocks, live collections, \<^verbatim>\<open>DatablockProxy\<close>
  instances) are natural numbers; what an object holds is read from the state.
  Every Python exception of the model is an instance of \<^verbatim>\<open>Exception\<close>: these are the
  ones an \<^verbatim>\<open>except Exception\<close> clause catches.
\<close>

type_synonym uuid = string
type_synonym datablock = nat
type_synonym bpy_collection = nat
type_synonym addr = nat

datatype exn =
    AssertionError
  | AttributeError
  | KeyError
  | ReferenceError
  | RuntimeError
  | TypeError
  | MaxDepthExceeded
  | OtherException

datatype log_level = INFO | WARNING | ERROR

text \<open>\<^verbatim>\<open>DatablockRefProxy\<close>: the fields \<^verbatim>\<open>_datablock_uuid\<close> and \<^verbatim>\<open>_debug_name\<close>.\<close>

record datablock_ref_proxy =
  ref_datablock_uuid :: uuid
  ref_debug_name :: string

text \<open>
  \<^verbatim>\<open>DatablockProxy\<close>: what the collection proxies read of it, \<^verbatim>\<open>mixer_uuid()\<close>,
  \<^verbatim>\<open>collection_name\<close> and \<^verbatim>\<open>data("name")\<close>.
\<close>

record datablock_proxy =
  proxy_uuid :: uuid
  proxy_collection_name :: string
  proxy_name :: string

text \<open>\<^verbatim>\<open>DeltaAddition\<close>, \<^verbatim>\<open>DeltaDeletion\<close>, \<^verbatim>\<open>DeltaUpdate\<close> and their \<^verbatim>\<open>value\<close>.\<close>

datatype 'a delta = DeltaAddition 'a | DeltaDeletion 'a | DeltaUpdate 'a

fun delta_value :: "'a delta \<Rightarrow> 'a" where
  "delta_value (DeltaAddition v) = v"
| "delta_value (DeltaDeletion v) = v"
| "delta_value (DeltaUpdate v) = v"

fun is_DeltaAddition :: "'a delta \<Rightarrow> bool" where
  "is_DeltaAddition (DeltaAddition v) = True"
| "is_DeltaAddition (DeltaDeletion v) = False"
| "is_DeltaAddition (DeltaUpdate v) = False"

fun is_DeltaDeletion :: "'a delta \<Rightarrow> bool" where
  "is_DeltaDeletion (DeltaAddition v) = False"
| "is_DeltaDeletion (DeltaDeletion v) = True"
| "is_DeltaDeletion (DeltaUpdate v) = False"

fun is_DeltaUpdate :: "'a delta \<Rightarrow> bool" where
  "is_DeltaUpdate (DeltaAddition v) = False"
| "is_DeltaUpdate (DeltaDeletion v) = False"
| "is_DeltaUpdate (DeltaUpdate v) = True"

text \<open>
  The Python values a \<^verbatim>\<open>DatablockRefCollectionProxy._data\<close> dictionary can hold. The
  dictionary itself is an association list in insertion order with distinct keys:
  \<^verbatim>\<open>d[k] = v\<close> is \<^const>\<open>AList.update\<close> (replace in place, or append), \<^verbatim>\<open>del d[k]\<close> is
  \<^const>\<open>AList.delete\<close> after the check that the key is there.
\<close>

datatype pvalue =
    RefProxy datablock_ref_proxy
  | DatablockProxyValue datablock_proxy
  | RefCollectionProxy "(uuid \<times> pvalue) list"
  | Delta "pvalue delta"
  | OtherValue nat

type_synonym pdict = "(uuid \<times> pvalue) list"

fun is_proxy_value :: "pvalue \<Rightarrow> bool" where
  "is_proxy_value (RefProxy r) = True"
| "is_proxy_value (DatablockProxyValue p) = True"
| "is_proxy_value v = False"

fun is_update_delta :: "pvalue \<Rightarrow> bool" where
  "is_update_delta (Delta d) = is_DeltaUpdate d"
| "is_update_delta v = False"

text \<open>
  The state the methods work on: \<^verbatim>\<open>context.proxy_state\<close> (the registry of proxies and
  of live datablocks, and the unresolved references), the \<^verbatim>\<open>DatablockProxy\<close> objects by
  address, the Blender data \<^verbatim>\<open>bpy\<close> as an opaque world, and what the logger received.
  A registry entry can hold \<^verbatim>\<open>None\<close>, so \<^verbatim>\<open>datablocks.get(uuid)\<close> is
  \<open>registry_get\<close>.
\<close>

record 'w state =
  proxies :: "uuid \<rightharpoonup> addr"
  datablocks :: "uuid \<rightharpoonup> datablock option"
  unresolved_refs :: "uuid \<rightharpoonup> (datablock \<Rightarrow> 'w \<Rightarrow> 'w) list"
  heap :: "addr \<Rightarrow> datablock_proxy"
  next_addr :: addr
  world :: 'w
  log :: "(log_level \<times> string) list"

definition registry_get :: "(uuid \<rightharpoonup> datablock option) \<Rightarrow> uuid \<Rightarrow> datablock option" where
  "registry_get m k = (case m k of None \<Rightarrow> None | Some v \<Rightarrow> v)"

definition logger :: "log_level \<Rightarrow> string \<Rightarrow> 'w state \<Rightarrow> 'w state" where
  "logger lvl msg s = s\<lparr>log := log s @ [(lvl, msg)]\<rparr>"

type_synonym rename_changeset = "(uuid \<times> string \<times> string \<times> string) list"

text \<open>
  The code outside these classes that the methods call: the Blender API and the
  routines of \<^verbatim>\<open>attributes.py\<close>, \<^verbatim>\<open>proxy.py\<close> and \<^verbatim>\<open>datablock_proxy.py\<close>. They are
  parameters of the model. A command on the world returns the exception it raised, if
  any, and the world it left; a routine that receives \<^verbatim>\<open>context\<close> returns its result or
  its exception, and the state it left.
\<close>

record 'w externals =
  mixer_uuid :: "'w \<Rightarrow> datablock \<Rightarrow> uuid"
  read_attribute :: "'w state \<Rightarrow> datablock \<Rightarrow> uuid \<Rightarrow> exn + pvalue"
  diff_attribute :: "'w state \<Rightarrow> datablock \<Rightarrow> uuid \<Rightarrow> pvalue \<Rightarrow> exn + pvalue option"
  getattr_collection :: "'w \<Rightarrow> nat \<Rightarrow> string \<Rightarrow> bpy_collection option"
  link :: "bpy_collection \<Rightarrow> datablock \<Rightarrow> 'w \<Rightarrow> exn option \<times> 'w"
  unlink :: "bpy_collection \<Rightarrow> datablock \<Rightarrow> 'w \<Rightarrow> exn option \<times> 'w"
  bpy_data :: "'w \<Rightarrow> string \<Rightarrow> bpy_collection option"
  collection_get :: "'w \<Rightarrow> bpy_collection \<Rightarrow> string \<Rightarrow> datablock option"
  collection_len :: "'w \<Rightarrow> bpy_collection \<Rightarrow> nat"
  collection_remove :: "bpy_collection \<Rightarrow> datablock \<Rightarrow> 'w \<Rightarrow> exn option \<times> 'w"
  is_scene :: "'w \<Rightarrow> datablock \<Rightarrow> bool"
  delete_scene :: "datablock \<Rightarrow> 'w \<Rightarrow> exn option \<times> 'w"
  set_name :: "datablock \<Rightarrow> string \<Rightarrow> 'w \<Rightarrow> exn option \<times> 'w"
  ensure_uuid :: "datablock \<Rightarrow> 'w \<Rightarrow> (exn + uuid) \<times> 'w"
  load_datablock :: "datablock \<Rightarrow> string \<Rightarrow> string \<Rightarrow> 'w state \<Rightarrow> (exn + datablock_proxy) \<times> 'w state"
  create_standalone_datablock ::
    "addr \<Rightarrow> 'w state \<Rightarrow> (exn + datablock option \<times> rename_changeset option) \<times> 'w state"
  update_standalone_datablock ::
    "addr \<Rightarrow> datablock \<Rightarrow> addr delta \<Rightarrow> 'w state \<Rightarrow> (exn + datablock option) \<times> 'w state"
  str_proxy :: "datablock_proxy \<Rightarrow> string"

section \<open>DatablockRefCollectionProxy.diff\<close>

text \<open>
  \<^verbatim>\<open>blender_items = {item.mixer_uuid: item for item in collection.values()}\<close>: a later
  item with the same uuid replaces the earlier one.
\<close>

definition blender_items :: "'w externals \<Rightarrow> 'w \<Rightarrow> datablock list \<Rightarrow> (uuid \<times> datablock) list" where
  "blender_items x w vals = foldl (\<lambda>d item. AList.update (mixer_uuid x w item) item d) [] vals"

text \<open>
  One \<^verbatim>\<open>for k in keys:\<close> loop that fills \<^verbatim>\<open>diff._data\<close>. The body \<open>f k\<close> raises, or
  stores nothing, or stores a value under \<open>k\<close>.
\<close>

fun dict_build :: "(uuid \<Rightarrow> exn + pvalue option) \<Rightarrow> uuid list \<Rightarrow> pdict \<Rightarrow> exn + pdict" where
  "dict_build f [] d = Inr d"
| "dict_build f (k # ks) d =
     (case f k of
        Inl e \<Rightarrow> Inl e
      | Inr None \<Rightarrow> dict_build f ks d
      | Inr (Some v) \<Rightarrow> dict_build f ks (AList.update k v d))"

text \<open>
  The body of \<^verbatim>\<open>for k in added_keys\<close>: \<^verbatim>\<open>blender_items[k]\<close>, \<^verbatim>\<open>read_attribute\<close>, the
  assertion on the value read, \<^verbatim>\<open>diff._data[k] = DeltaAddition(value)\<close>.
\<close>

definition added_body :: "'w externals \<Rightarrow> 'w state \<Rightarrow> (uuid \<times> datablock) list \<Rightarrow> uuid \<Rightarrow> exn + pvalue option" where
  "added_body x s items k =
     (case map_of items k of
        None \<Rightarrow> Inl KeyError
      | Some item \<Rightarrow>
          (case read_attribute x s item k of
             Inl e \<Rightarrow> Inl e
           | Inr v \<Rightarrow> if is_proxy_value v then Inr (Some (Delta (DeltaAddition v))) else Inl AssertionError))"

text \<open>The body of \<^verbatim>\<open>for k in deleted_keys\<close>: \<^verbatim>\<open>diff._data[k] = DeltaDeletion(self._data[k])\<close>.\<close>

definition deleted_body :: "pdict \<Rightarrow> uuid \<Rightarrow> exn + pvalue option" where
  "deleted_body self_data k =
     (case map_of self_data k of
        None \<Rightarrow> Inl KeyError
      | Some old \<Rightarrow> Inr (Some (Delta (DeltaDeletion old))))"

text \<open>
  The body of \<^verbatim>\<open>for k in maybe_updated_keys\<close>: \<^verbatim>\<open>diff_attribute\<close> on the live item and the
  value this proxy stores under \<open>k\<close> (\<^verbatim>\<open>self.data(k)\<close>); a delta that is not \<^verbatim>\<open>None\<close> is
  asserted to be a \<^verbatim>\<open>DeltaUpdate\<close> and stored.
\<close>

definition updated_body :: "'w externals \<Rightarrow> 'w state \<Rightarrow> (uuid \<times> datablock) list \<Rightarrow> pdict \<Rightarrow> uuid \<Rightarrow> exn + pvalue option" where
  "updated_body x s items self_data k =
     (case map_of items k of
        None \<Rightarrow> Inl KeyError
      | Some item \<Rightarrow>
          (case map_of self_data k of
             None \<Rightarrow> Inl KeyError
           | Some old \<Rightarrow>
               (case diff_attribute x s item k old of
                  Inl e \<Rightarrow> Inl e
                | Inr None \<Rightarrow> Inr None
                | Inr (Some dl) \<Rightarrow> if is_update_delta dl then Inr (Some dl) else Inl AssertionError)))"

text \<open>
  \<^verbatim>\<open>added_keys = blender_keys - proxy_keys\<close>, \<^verbatim>\<open>deleted_keys = proxy_keys - blender_keys\<close>,
  \<^verbatim>\<open>maybe_updated_keys = proxy_keys & blender_keys\<close>. Python leaves the iteration order
  of a set open; the model takes the order of the dictionary the keys come from.
\<close>

definition added_keys :: "(uuid \<times> datablock) list \<Rightarrow> pdict \<Rightarrow> uuid list" where
  "added_keys items self_data = filter (\<lambda>k. k \<notin> set (map fst self_data)) (map fst items)"

definition deleted_keys :: "(uuid \<times> datablock) list \<Rightarrow> pdict \<Rightarrow> uuid list" where
  "deleted_keys items self_data = filter (\<lambda>k. k \<notin> set (map fst items)) (map fst self_data)"

definition maybe_updated_keys :: "(uuid \<times> datablock) list \<Rightarrow> pdict \<Rightarrow> uuid list" where
  "maybe_updated_keys items self_data = filter (\<lambda>k. k \<in> set (map fst items)) (map fst self_data)"

definition diff :: "'w externals \<Rightarrow> 'w state \<Rightarrow> pdict \<Rightarrow> datablock list \<Rightarrow> exn + pvalue delta option" where
  "diff x s self_data vals =
     (let items = blender_items x (world s) vals in
      case dict_build (added_body x s items) (added_keys items self_data) [] of
        Inl e \<Rightarrow> Inl e
      | Inr d1 \<Rightarrow>
          (case dict_build (deleted_body self_data) (deleted_keys items self_data) d1 of
             Inl e \<Rightarrow> Inl e
           | Inr d2 \<Rightarrow>
               (case dict_build (updated_body x s items self_data) (maybe_updated_keys items self_data) d2 of
                  Inl e \<Rightarrow> Inl e
                | Inr d3 \<Rightarrow>
                    if length d3 \<noteq> 0 then Inr (Some (DeltaUpdate (RefCollectionProxy d3)))
                    else Inr None)))"

section \<open>DatablockRefCollectionProxy.apply\<close>

text \<open>
  The \<^verbatim>\<open>if to_blender:\<close> block of the loop body: the live datablock is looked up in the
  registry by the uuid the reference holds; an addition links it, or logs a warning
  when there is none; a deletion unlinks it when there is one.
\<close>

definition link_or_unlink ::
  "'w externals \<Rightarrow> bpy_collection \<Rightarrow> pvalue delta \<Rightarrow> datablock_ref_proxy \<Rightarrow> 'w state \<Rightarrow> exn option \<times> 'w state" where
  "link_or_unlink x collection ref_delta ref_update s =
     (let uuid = ref_datablock_uuid ref_update;
          datablock = registry_get (datablocks s) uuid
      in if is_DeltaAddition ref_delta then
           (case datablock of
              Some db \<Rightarrow> (case link x collection db (world s) of (r, w') \<Rightarrow> (r, s\<lparr>world := w'\<rparr>))
            | None \<Rightarrow> (None, logger WARNING ''delta apply add: unregistered uuid'' s))
         else
           (case datablock of
              Some db \<Rightarrow> (case unlink x collection db (world s) of (r, w') \<Rightarrow> (r, s\<lparr>world := w'\<rparr>))
            | None \<Rightarrow> (None, s)))"

text \<open>
  The body of the \<^verbatim>\<open>try\<close> block for one member \<^verbatim>\<open>(k, ref_delta)\<close>. The result is the
  exception that left the block, if any, with this proxy's \<^verbatim>\<open>_data\<close> and the state as
  they are at that point. \<^verbatim>\<open>del self._data[k]\<close> raises \<^verbatim>\<open>KeyError\<close> when \<open>k\<close> is
  not a key.
\<close>

definition apply_member ::
  "'w externals \<Rightarrow> bool \<Rightarrow> bpy_collection \<Rightarrow> uuid \<Rightarrow> pvalue \<Rightarrow> pdict \<Rightarrow> 'w state \<Rightarrow> exn option \<times> pdict \<times> 'w state" where
  "apply_member x to_blender collection k ref_delta self_data s =
     (case ref_delta of
        Delta dl \<Rightarrow>
          if \<not> (is_DeltaAddition dl \<or> is_DeltaDeletion dl) then
            (None, self_data, logger WARNING ''unexpected type for delta'' s)
          else
            (case delta_value dl of
               RefProxy ref_update \<Rightarrow>
                 (case (if to_blender then link_or_unlink x collection dl ref_update s else (None, s)) of
                    (Some e, s1) \<Rightarrow> (Some e, self_data, s1)
                  | (None, s1) \<Rightarrow>
                      if is_DeltaAddition dl then
                        (None, AList.update k (RefProxy ref_update) self_data, s1)
                      else
                        (case map_of self_data k of
                           None \<Rightarrow> (Some KeyError, self_data, s1)
                         | Some old \<Rightarrow> (None, AList.delete k self_data, s1)))
             | _ \<Rightarrow> (None, self_data, logger WARNING ''unexpected type for delta_value'' s))
      | _ \<Rightarrow> (None, self_data, logger WARNING ''unexpected type for delta'' s))"

text \<open>The \<^verbatim>\<open>except Exception as e:\<close> clause: four warnings, then \<^verbatim>\<open>continue\<close>.\<close>

definition log_update_ignored :: "'w state \<Rightarrow> 'w state" where
  "log_update_ignored s =
     logger WARNING ''... Update ignored''
       (logger WARNING ''... Exception''
          (logger WARNING ''... for''
             (logger WARNING ''DatablockCollectionProxy.apply(). Processing'' s)))"

fun apply_members ::
  "'w externals \<Rightarrow> bool \<Rightarrow> bpy_collection \<Rightarrow> pdict \<Rightarrow> pdict \<Rightarrow> 'w state \<Rightarrow> pdict \<times> 'w state" where
  "apply_members x to_blender collection [] self_data s = (self_data, s)"
| "apply_members x to_blender collection ((k, ref_delta) # rest) self_data s =
     (case apply_member x to_blender collection k ref_delta self_data s of
        (None, self_data', s') \<Rightarrow> apply_members x to_blender collection rest self_data' s'
      | (Some e, self_data', s') \<Rightarrow>
          apply_members x to_blender collection rest self_data' (log_update_ignored s'))"

text \<open>
  \<^verbatim>\<open>apply\<close> (an Isar keyword, hence the name). \<^verbatim>\<open>collection_delta.value\<close> fails on
  \<^verbatim>\<open>None\<close>; the assertion wants a \<^verbatim>\<open>DatablockRefCollectionProxy\<close>; \<^verbatim>\<open>getattr(parent, key)\<close>
  fails when the parent has no such attribute. These three stand before the loop and
  outside its \<^verbatim>\<open>try\<close>. The result is this proxy's \<^verbatim>\<open>_data\<close> and the state.
\<close>

definition apply_delta ::
  "'w externals \<Rightarrow> nat \<Rightarrow> string \<Rightarrow> pvalue delta option \<Rightarrow> bool \<Rightarrow> pdict \<Rightarrow> 'w state \<Rightarrow> exn + pdict \<times> 'w state" where
  "apply_delta x parent key collection_delta to_blender self_data s =
     (case collection_delta of
        None \<Rightarrow> Inl AttributeError
      | Some cd \<Rightarrow>
          (case delta_value cd of
             RefCollectionProxy collection_update \<Rightarrow>
               (case getattr_collection x (world s) parent key of
                  None \<Rightarrow> Inl AttributeError
                | Some collection \<Rightarrow> Inr (apply_members x to_blender collection collection_update self_data s))
           | _ \<Rightarrow> Inl AssertionError))"

section \<open>DatablockCollectionProxy\<close>

text \<open>
  \<^verbatim>\<open>DatablockCollectionProxy._data\<close> maps a uuid to a \<^verbatim>\<open>DatablockProxy\<close> object. The
  methods below never iterate over it, so it is a map.
\<close>

type_synonym cdict = "uuid \<rightharpoonup> addr"

subsection \<open>create_datablock\<close>

text \<open>
  Modelled from the spec: \<^verbatim>\<open>UnresolvedRefs.resolve\<close> of \<^verbatim>\<open>proxy.py\<close>, which is not among
  the sources. The spec: "\<^verbatim>\<open>resolve(identifier, liveEntity)\<close> runs and clears every deferred
  action registered for that Identifier, in registration order"; a deferred action takes
  the live entity and performs the linking on the live graph.
\<close>

definition resolve :: "uuid \<Rightarrow> datablock \<Rightarrow> 'w state \<Rightarrow> 'w state" where
  "resolve uuid db s =
     (case unresolved_refs s uuid of
        None \<Rightarrow> s
      | Some actions \<Rightarrow>
          s\<lparr>world := foldl (\<lambda>w action. action db w) (world s) actions,
            unresolved_refs := (unresolved_refs s)(uuid := None)\<rparr>)"

text \<open>
  The block \<^verbatim>\<open>if incoming_proxy.collection_name == "scenes":\<close>. It runs before the test
  of \<^verbatim>\<open>datablock\<close>, and works on the live scenes and the log only.
\<close>

definition remove_placeholder_scene :: "'w externals \<Rightarrow> addr \<Rightarrow> 'w state \<Rightarrow> exn option \<times> 'w state" where
  "remove_placeholder_scene x incoming_proxy s =
     (if proxy_collection_name (heap s incoming_proxy) = ''scenes'' then
        (let s1 = logger WARNING ''Creating scene'' s in
         case bpy_data x (world s1) ''scenes'' of
           None \<Rightarrow> (Some AttributeError, s1)
         | Some scenes \<Rightarrow>
             if collection_len x (world s1) scenes = 2
                \<and> collection_get x (world s1) scenes ''_mixer_to_be_removed_'' \<noteq> None then
               (case collection_get x (world s1) scenes ''_mixer_to_be_removed_'' of
                  None \<Rightarrow> (Some KeyError, s1)
                | Some scene_to_remove \<Rightarrow>
                    (let s2 = logger WARNING ''... delete'' (logger WARNING ''After create scene'' s1) in
                     case delete_scene x scene_to_remove (world s2) of
                       (r, w') \<Rightarrow> (r, s2\<lparr>world := w'\<rparr>)))
             else (None, s1))
      else (None, s))"

definition create_datablock ::
  "'w externals \<Rightarrow> cdict \<Rightarrow> addr \<Rightarrow> 'w state \<Rightarrow>
     exn + (datablock option \<times> rename_changeset option) \<times> cdict \<times> 'w state" where
  "create_datablock x self_data incoming_proxy s =
     (case create_standalone_datablock x incoming_proxy s of
        (Inl e, s1) \<Rightarrow> Inl e
      | (Inr (datablock, renames), s1) \<Rightarrow>
          (case remove_placeholder_scene x incoming_proxy s1 of
             (Some e, s2) \<Rightarrow> Inl e
           | (None, s2) \<Rightarrow>
               (case datablock of
                  None \<Rightarrow> Inr ((None, None), self_data, s2)
                | Some db \<Rightarrow>
                    (let uuid = proxy_uuid (heap s2 incoming_proxy);
                         s3 = s2\<lparr>datablocks := (datablocks s2)(uuid \<mapsto> Some db),
                                 proxies := (proxies s2)(uuid \<mapsto> incoming_proxy)\<rparr>
                     in Inr ((Some db, renames), self_data(uuid \<mapsto> incoming_proxy), resolve uuid db s3)))))"

subsection \<open>update_datablock\<close>

text \<open>
  The incoming proxy is \<^verbatim>\<open>delta.value\<close>. The three guards log and return; otherwise
  the proxy's own \<^verbatim>\<open>update_standalone_datablock\<close> runs, and the registry is repointed
  when what it returns is not the datablock that was registered.
\<close>

definition update_datablock ::
  "'w externals \<Rightarrow> addr delta \<Rightarrow> 'w state \<Rightarrow> exn + datablock option \<times> 'w state" where
  "update_datablock x delta s =
     (let incoming_proxy = delta_value delta;
          uuid = proxy_uuid (heap s incoming_proxy)
      in case proxies s uuid of
           None \<Rightarrow> Inr (None, logger ERROR ''update_datablock(): Missing proxy for'' s)
         | Some proxy \<Rightarrow>
             if proxy_uuid (heap s proxy) \<noteq> proxy_uuid (heap s incoming_proxy) then
               Inr (None, logger ERROR ''update_datablock : uuid mismatch between incoming'' s)
             else
               (case registry_get (datablocks s) uuid of
                  None \<Rightarrow> Inr (None, logger WARNING ''Non existent uuid'' s)
                | Some existing_id \<Rightarrow>
                    (case update_standalone_datablock x proxy existing_id delta s of
                       (Inl e, s1) \<Rightarrow> Inl e
                     | (Inr id', s1) \<Rightarrow>
                         if Some existing_id \<noteq> id' then
                           Inr (id', (logger WARNING ''Update_datablock changes datablock'' s1)
                                       \<lparr>datablocks := (datablocks s1)(uuid \<mapsto> id')\<rparr>)
                         else Inr (id', s1))))"

subsection \<open>remove_datablock\<close>

text \<open>
  The \<^verbatim>\<open>try\<close> block: a scene goes through \<^verbatim>\<open>delete_scene\<close>, any other datablock through
  \<^verbatim>\<open>proxy.collection.remove\<close>, where \<^verbatim>\<open>proxy.collection\<close> is the \<^verbatim>\<open>bpy.data\<close> collection
  named by the proxy.
\<close>

definition remove_live :: "'w externals \<Rightarrow> addr \<Rightarrow> datablock \<Rightarrow> 'w state \<Rightarrow> exn option \<times> 'w state" where
  "remove_live x proxy datablock s =
     (if is_scene x (world s) datablock then
        (case delete_scene x datablock (world s) of (r, w') \<Rightarrow> (r, s\<lparr>world := w'\<rparr>))
      else
        (case bpy_data x (world s) (proxy_collection_name (heap s proxy)) of
           None \<Rightarrow> (Some AttributeError, s)
         | Some collection \<Rightarrow>
             (case collection_remove x collection datablock (world s) of (r, w') \<Rightarrow> (r, s\<lparr>world := w'\<rparr>))))"

text \<open>\<^verbatim>\<open>uuid = proxy.mixer_uuid()\<close>, \<^verbatim>\<open>del self._data[uuid]\<close>.\<close>

definition del_data :: "cdict \<Rightarrow> addr \<Rightarrow> 'w state \<Rightarrow> exn + cdict \<times> 'w state" where
  "del_data self_data proxy s =
     (let uuid = proxy_uuid (heap s proxy) in
      case self_data uuid of
        None \<Rightarrow> Inl KeyError
      | Some p \<Rightarrow> Inr (self_data(uuid := None), s))"

definition remove_datablock ::
  "'w externals \<Rightarrow> cdict \<Rightarrow> addr \<Rightarrow> datablock \<Rightarrow> 'w state \<Rightarrow> exn + cdict \<times> 'w state" where
  "remove_datablock x self_data proxy datablock s =
     (case remove_live x proxy datablock (logger INFO ''Perform removal for %s'' s) of
        (None, s1) \<Rightarrow> del_data self_data proxy s1
      | (Some e, s1) \<Rightarrow>
          if e = ReferenceError then
            del_data self_data proxy
              (logger WARNING ''... {e!r}'' (logger WARNING ''Exception during remove_datablock for'' s1))
          else Inl e)"

subsection \<open>rename_datablock\<close>

text \<open>
  Modelled from the spec: \<^verbatim>\<open>DatablockProxy.rename\<close> of \<^verbatim>\<open>datablock_proxy.py\<close>, which is not
  among the sources. The spec: rename "updates both the proxy's cached name field and
  the live entity's name; Identifier is unchanged"; the live entity's name is set by
  \<^verbatim>\<open>rename_datablock\<close> itself, the cached name by this method.
\<close>

definition rename :: "addr \<Rightarrow> string \<Rightarrow> 'w state \<Rightarrow> 'w state" where
  "rename proxy new_name s = s\<lparr>heap := (heap s)(proxy := (heap s proxy)\<lparr>proxy_name := new_name\<rparr>)\<rparr>"

definition rename_datablock ::
  "'w externals \<Rightarrow> addr \<Rightarrow> string \<Rightarrow> datablock \<Rightarrow> 'w state \<Rightarrow> exn + 'w state" where
  "rename_datablock x proxy new_name datablock s =
     (let s1 = rename proxy new_name (logger INFO ''rename_datablock proxy %s datablock %s into %s'' s) in
      case set_name x datablock new_name (world s1) of
        (Some e, w') \<Rightarrow> Inl e
      | (None, w') \<Rightarrow> Inr (s1\<lparr>world := w'\<rparr>))"

subsection \<open>update\<close>

text \<open>
  \<^verbatim>\<open>BpyPropCollectionDiff\<close>: \<^verbatim>\<open>items_added\<close> is a dictionary from the name of an added
  datablock to the name of its \<^verbatim>\<open>bpy.data\<close> collection, in the order of discovery;
  \<^verbatim>\<open>items_removed\<close> is a list of proxies; \<^verbatim>\<open>items_renamed\<close> a list of proxies with their
  new names. \<^verbatim>\<open>Changeset\<close>: the three lists \<^verbatim>\<open>update\<close> appends to.
\<close>

record collection_diff =
  items_added :: "(string \<times> string) list"
  items_removed :: "addr list"
  items_renamed :: "(addr \<times> string) list"

record changeset =
  creations :: "addr list"
  removals :: "(uuid \<times> string \<times> string) list"
  renames :: rename_changeset

definition empty_changeset :: changeset where
  "empty_changeset = \<lparr>creations = [], removals = [], renames = []\<rparr>"

text \<open>A proxy that \<^verbatim>\<open>load\<close> returns is a new object.\<close>

definition alloc :: "datablock_proxy \<Rightarrow> 'w state \<Rightarrow> addr \<times> 'w state" where
  "alloc p s = (next_addr s, s\<lparr>heap := (heap s)(next_addr s := p), next_addr := Suc (next_addr s)\<rparr>)"

text \<open>
  The \<^verbatim>\<open>try\<close> block of the additions loop, for one name. The result is the exception
  that left the block, if any, with \<^verbatim>\<open>self._data\<close>, the state and the changeset as they
  are at that point: the datablock is registered before \<^verbatim>\<open>load\<close> runs.
\<close>

definition add_one ::
  "'w externals \<Rightarrow> string \<Rightarrow> string \<Rightarrow> cdict \<Rightarrow> 'w state \<Rightarrow> changeset \<Rightarrow>
     exn option \<times> cdict \<times> 'w state \<times> changeset" where
  "add_one x collection_name name self_data s cs =
     (case bpy_data x (world s) collection_name of
        None \<Rightarrow> (Some AttributeError, self_data, s, cs)
      | Some collection \<Rightarrow>
          (case collection_get x (world s) collection name of
             None \<Rightarrow> (None, self_data, logger ERROR ''update/ request addition for %s[%s] : not found'' s, cs)
           | Some id' \<Rightarrow>
               (case ensure_uuid x id' (world s) of
                  (Inl e, w1) \<Rightarrow> (Some e, self_data, s\<lparr>world := w1\<rparr>, cs)
                | (Inr uuid, w1) \<Rightarrow>
                    (let s1 = s\<lparr>world := w1, datablocks := (datablocks s)(uuid \<mapsto> Some id')\<rparr> in
                     case load_datablock x id' name collection_name s1 of
                       (Inl e, s2) \<Rightarrow> (Some e, self_data, s2, cs)
                     | (Inr p, s2) \<Rightarrow>
                         (case alloc p s2 of
                            (proxy, s3) \<Rightarrow>
                              (None, self_data(uuid \<mapsto> proxy),
                               s3\<lparr>proxies := (proxies s3)(uuid \<mapsto> proxy)\<rparr>,
                               cs\<lparr>creations := creations cs @ [proxy]\<rparr>))))))"

text \<open>
  The two \<^verbatim>\<open>except\<close> clauses of the additions loop: three error lines for
  \<^verbatim>\<open>MaxDepthExceeded\<close>; for any other exception one error line and the traceback (its
  lines are one entry here).
\<close>

definition log_add_failure :: "exn \<Rightarrow> 'w state \<Rightarrow> 'w state" where
  "log_add_failure e s =
     (if e = MaxDepthExceeded then
        logger ERROR ''... {e!r}''
          (logger ERROR ''... Nested attribute depth is too large: ''
             (logger ERROR ''MaxDepthExceeded while loading'' s))
      else logger ERROR ''traceback'' (logger ERROR ''Exception while loading'' s))"

text \<open>
  \<^verbatim>\<open>for name in added_names:\<close> with \<^verbatim>\<open>collection_name = diff.items_added[name]\<close>, which
  stands outside the \<^verbatim>\<open>try\<close>.
\<close>

fun add_all ::
  "'w externals \<Rightarrow> (string \<times> string) list \<Rightarrow> string list \<Rightarrow> cdict \<Rightarrow> 'w state \<Rightarrow> changeset \<Rightarrow>
     exn + cdict \<times> 'w state \<times> changeset" where
  "add_all x added [] self_data s cs = Inr (self_data, s, cs)"
| "add_all x added (name # names) self_data s cs =
     (case map_of added name of
        None \<Rightarrow> Inl KeyError
      | Some collection_name \<Rightarrow>
          (case add_one x collection_name name self_data
                  (logger INFO ''Perform update/creation for %s[%s]'' s) cs of
             (None, self_data', s', cs') \<Rightarrow> add_all x added names self_data' s' cs'
           | (Some e, self_data', s', cs') \<Rightarrow>
               add_all x added names self_data' (log_add_failure e s') cs'))"

text \<open>
  The \<^verbatim>\<open>try\<close> block of the removals loop for one proxy: the removal is appended to the
  changeset first; each of the three \<^verbatim>\<open>del\<close> and the lookup raises \<^verbatim>\<open>KeyError\<close> on a
  missing key.
\<close>

definition remove_one ::
  "'w externals \<Rightarrow> addr \<Rightarrow> cdict \<Rightarrow> 'w state \<Rightarrow> changeset \<Rightarrow> exn option \<times> cdict \<times> 'w state \<times> changeset" where
  "remove_one x proxy self_data s cs =
     (let s1 = logger INFO ''Perform removal for %s'' s;
          uuid = proxy_uuid (heap s1 proxy);
          cs1 = cs\<lparr>removals := removals cs @
                  [(uuid, proxy_collection_name (heap s1 proxy), str_proxy x (heap s1 proxy))]\<rparr>
      in case self_data uuid of
           None \<Rightarrow> (Some KeyError, self_data, s1, cs1)
         | Some p \<Rightarrow>
             (let self_data1 = self_data(uuid := None) in
              case datablocks s1 uuid of
                None \<Rightarrow> (Some KeyError, self_data1, s1, cs1)
              | Some id' \<Rightarrow>
                  (case proxies s1 uuid of
                     None \<Rightarrow> (Some KeyError, self_data1, s1, cs1)
                   | Some q \<Rightarrow>
                       (None, self_data1,
                        s1\<lparr>proxies := (proxies s1)(uuid := None),
                           datablocks := (datablocks s1)(uuid := None)\<rparr>, cs1))))"

fun remove_all ::
  "'w externals \<Rightarrow> addr list \<Rightarrow> cdict \<Rightarrow> 'w state \<Rightarrow> changeset \<Rightarrow> cdict \<times> 'w state \<times> changeset" where
  "remove_all x [] self_data s cs = (self_data, s, cs)"
| "remove_all x (proxy # rest) self_data s cs =
     (case remove_one x proxy self_data s cs of
        (None, self_data', s', cs') \<Rightarrow> remove_all x rest self_data' s' cs'
      | (Some e, self_data', s', cs') \<Rightarrow>
          remove_all x rest self_data'
            (logger ERROR ''traceback'' (logger ERROR ''Exception during update/removed for proxy'' s')) cs')"

text \<open>
  The body of the renames loop. Nothing catches here: \<^verbatim>\<open>proxy.collection[new_name]\<close>
  and \<^verbatim>\<open>context.proxy_state.datablocks[uuid]\<close> raise on a missing name or uuid. The tuple
  is appended with the name and the text of the proxy as they are before \<^verbatim>\<open>rename\<close>.
  \<^verbatim>\<open>proxy.collection\<close> is the collection of \<^verbatim>\<open>bpy.data\<close> that the proxy names.
\<close>

definition rename_one ::
  "'w externals \<Rightarrow> addr \<Rightarrow> string \<Rightarrow> 'w state \<Rightarrow> changeset \<Rightarrow> exn + 'w state \<times> changeset" where
  "rename_one x proxy new_name s cs =
     (let uuid = proxy_uuid (heap s proxy) in
      case bpy_data x (world s) (proxy_collection_name (heap s proxy)) of
        None \<Rightarrow> Inl AttributeError
      | Some collection \<Rightarrow>
          (case collection_get x (world s) collection new_name of
             None \<Rightarrow> Inl KeyError
           | Some live \<Rightarrow>
               (case datablocks s uuid of
                  None \<Rightarrow> Inl KeyError
                | Some registered \<Rightarrow>
                    (let s1 = (if Some live \<noteq> registered then logger ERROR ''update rename : is not'' s else s);
                         old_name = proxy_name (heap s1 proxy);
                         cs1 = cs\<lparr>renames := renames cs @
                                 [(proxy_uuid (heap s1 proxy), old_name, new_name, str_proxy x (heap s1 proxy))]\<rparr>
                     in Inr (rename proxy new_name s1, cs1)))))"

fun rename_all ::
  "'w externals \<Rightarrow> (addr \<times> string) list \<Rightarrow> 'w state \<Rightarrow> changeset \<Rightarrow> exn + 'w state \<times> changeset" where
  "rename_all x [] s cs = Inr (s, cs)"
| "rename_all x ((proxy, new_name) # rest) s cs =
     (case rename_one x proxy new_name s cs of
        Inl e \<Rightarrow> Inl e
      | Inr (s', cs') \<Rightarrow> rename_all x rest s' cs')"

text \<open>\<^verbatim>\<open>added_names = sorted(diff.items_added.keys())\<close>: strings in lexicographic order.\<close>

definition added_names :: "collection_diff \<Rightarrow> string list" where
  "added_names d = sort (map fst (items_added d))"

definition update ::
  "'w externals \<Rightarrow> collection_diff \<Rightarrow> cdict \<Rightarrow> 'w state \<Rightarrow> exn + changeset \<times> cdict \<times> 'w state" where
  "update x d self_data s =
     (case add_all x (items_added d) (added_names d) self_data s empty_changeset of
        Inl e \<Rightarrow> Inl e
      | Inr (self_data1, s1, cs1) \<Rightarrow>
          (case remove_all x (items_removed d) self_data1 s1 cs1 of
             (self_data2, s2, cs2) \<Rightarrow>
               (case rename_all x (items_renamed d) s2 cs2 of
                  Inl e \<Rightarrow> Inl e
                | Inr (s3, cs3) \<Rightarrow> Inr (cs3, self_data2, s3))))"

section \<open>Auxiliary definitions\<close>

text \<open>
  What a \<^verbatim>\<open>for\<close> loop of \<^verbatim>\<open>diff\<close> appends to an empty dictionary when no body raises, and
  the entries the three loops of \<^verbatim>\<open>diff\<close> leave in \<^verbatim>\<open>diff._data\<close>.
\<close>

fun built :: "(uuid \<Rightarrow> exn + pvalue option) \<Rightarrow> uuid list \<Rightarrow> pdict" where
  "built f [] = []"
| "built f (k # ks) = (case f k of Inr (Some v) \<Rightarrow> (k, v) # built f ks | _ \<Rightarrow> built f ks)"


definition diff_entries :: "'w externals \<Rightarrow> 'w state \<Rightarrow> pdict \<Rightarrow> datablock list \<Rightarrow> pdict" where
  "diff_entries x s self_data vals =
     (let items = blender_items x (world s) vals in
      built (added_body x s items) (added_keys items self_data)
      @ built (deleted_body self_data) (deleted_keys items self_data)
      @ built (updated_body x s items self_data) (maybe_updated_keys items self_data))"


text \<open>
  The Blender collection never refuses a \<^verbatim>\<open>link\<close> or an \<^verbatim>\<open>unlink\<close>; and the tags of the
  entries of a delta, as \<^verbatim>\<open>isinstance(ref_delta, DeltaAddition)\<close> and
  \<^verbatim>\<open>isinstance(ref_delta, DeltaDeletion)\<close> read them.
\<close>

definition blender_safe :: "'w externals \<Rightarrow> bool" where
  "blender_safe x \<longleftrightarrow> (\<forall>c db w. fst (link x c db w) = None \<and> fst (unlink x c db w) = None)"


fun is_addition_member :: "uuid \<times> pvalue \<Rightarrow> bool" where
  "is_addition_member (k, Delta d) = is_DeltaAddition d"
| "is_addition_member (k, v) = False"

fun is_deletion_member :: "uuid \<times> pvalue \<Rightarrow> bool" where
  "is_deletion_member (k, Delta d) = is_DeltaDeletion d"
| "is_deletion_member (k, v) = False"




section \<open>Concrete inputs\<close>

text \<open>
  A state, a set of externals and a reference collection for the closed instances below:
  the proxy tracks \<open>a\<close> and \<open>c\<close>, the live collection holds \<open>b\<close> and \<open>c\<close>.
\<close>

definition example_state :: "unit state" where
  "example_state =
     \<lparr>proxies = Map.empty, datablocks = Map.empty, unresolved_refs = Map.empty,
      heap = (\<lambda>a. \<lparr>proxy_uuid = ''u1'', proxy_collection_name = ''objects'', proxy_name = ''Cube''\<rparr>),
      next_addr = 1, world = (), log = []\<rparr>"

definition example_externals :: "'w externals" where
  "example_externals =
     \<lparr>mixer_uuid = (\<lambda>w item. if item = 1 then ''b'' else ''c''),
      read_attribute = (\<lambda>s item k. Inr (RefProxy \<lparr>ref_datablock_uuid = k, ref_debug_name = ''new''\<rparr>)),
      diff_attribute = (\<lambda>s item k old. Inr None),
      getattr_collection = (\<lambda>w parent key. Some 0),
      link = (\<lambda>c db w. (None, w)),
      unlink = (\<lambda>c db w. (None, w)),
      bpy_data = (\<lambda>w n. Some 0),
      collection_get = (\<lambda>w c n. Some 5),
      collection_len = (\<lambda>w c. 1),
      collection_remove = (\<lambda>c db w. (Some ReferenceError, w)),
      is_scene = (\<lambda>w db. False),
      delete_scene = (\<lambda>db w. (None, w)),
      set_name = (\<lambda>db n w. (None, w)),
      ensure_uuid = (\<lambda>db w. (Inr ''u5'', w)),
      load_datablock = (\<lambda>db n c s. (Inl MaxDepthExceeded, s)),
      create_standalone_datablock = (\<lambda>a s. (Inr (None, None), s)),
      update_standalone_datablock = (\<lambda>a db dl s. (Inr (Some db), s)),
      str_proxy = (\<lambda>p. proxy_name p)\<rparr>"

definition example_proxy :: pdict where
  "example_proxy =
     [(''a'', RefProxy \<lparr>ref_datablock_uuid = ''a'', ref_debug_name = ''A''\<rparr>),
      (''c'', RefProxy \<lparr>ref_datablock_uuid = ''c'', ref_debug_name = ''C''\<rparr>)]"

definition example_delta :: pdict where
  "example_delta =
     [(''b'', Delta (DeltaAddition (RefProxy \<lparr>ref_datablock_uuid = ''b'', ref_debug_name = ''new''\<rparr>))),
      (''a'', Delta (DeltaDeletion (RefProxy \<lparr>ref_datablock_uuid = ''a'', ref_debug_name = ''A''\<rparr>)))]"


definition ref_b :: datablock_ref_proxy where
  "ref_b = \<lparr>ref_datablock_uuid = ''b'', ref_debug_name = ''new''\<rparr>"

definition ref_d :: datablock_ref_proxy where
  "ref_d = \<lparr>ref_datablock_uuid = ''d'', ref_debug_name = ''D''\<rparr>"


text \<open>
  A state that tracks the proxy at address 0 under the uuid \<open>u1\<close> with the live datablock
  5; a state with two pending references to \<open>u1\<close>, whose world lists the datablocks
  linked so far; externals whose update routine morphs the datablock, whose creation
  succeeds, whose \<^verbatim>\<open>load\<close> exceeds the depth for the name \<open>Ball\<close>, and whose \<^verbatim>\<open>load\<close>
  succeeds; and two external diffs.
\<close>

definition tracked_state :: "unit state" where
  "tracked_state = example_state\<lparr>proxies := [''u1'' \<mapsto> 0], datablocks := [''u1'' \<mapsto> Some 5]\<rparr>"


definition morph_externals :: "'w externals" where
  "morph_externals = example_externals\<lparr>update_standalone_datablock := (\<lambda>a db dl s. (Inr (Some 9), s))\<rparr>"


definition creating_externals :: "'w externals" where
  "creating_externals = example_externals\<lparr>create_standalone_datablock := (\<lambda>a s. (Inr (Some 7, Some []), s))\<rparr>"

definition pending_state :: "nat list state" where
  "pending_state =
     \<lparr>proxies = Map.empty, datablocks = Map.empty,
      unresolved_refs = [''u1'' \<mapsto> [(\<lambda>db w. w @ [db]), (\<lambda>db w. w @ [db + 1])]],
      heap = (\<lambda>a. \<lparr>proxy_uuid = ''u1'', proxy_collection_name = ''objects'', proxy_name = ''Cube''\<rparr>),
      next_addr = 1, world = [], log = []\<rparr>"


definition deep_externals :: "'w externals" where
  "deep_externals = example_externals\<lparr>load_datablock :=
     (\<lambda>db n c s. if n = ''Ball'' then (Inl MaxDepthExceeded, s)
                  else (Inr \<lparr>proxy_uuid = ''u5'', proxy_collection_name = c, proxy_name = n\<rparr>, s))\<rparr>"

definition two_added :: collection_diff where
  "two_added = \<lparr>items_added = [(''Cube'', ''objects''), (''Ball'', ''objects'')],
                items_removed = [], items_renamed = []\<rparr>"





text \<open>
  A proxy that tracks the two uuids of the live collection; a state whose registry holds
  live datablocks for \<open>a\<close> and \<open>b\<close>, and externals whose collection refuses every \<^verbatim>\<open>link\<close>
  and every \<^verbatim>\<open>unlink\<close>; externals for which every datablock is a scene whose deletion
  finds it gone; externals without the \<^verbatim>\<open>bpy.data\<close> collection \<open>nowhere\<close>, whose
  \<^verbatim>\<open>ensure_uuid\<close> fails for the datablock named \<open>Ball\<close> and whose \<^verbatim>\<open>load\<close> fails for the
  one named \<open>Cone\<close>; and two more external diffs.
\<close>

definition synced_proxy :: pdict where
  "synced_proxy =
     [(''b'', RefProxy \<lparr>ref_datablock_uuid = ''b'', ref_debug_name = ''B''\<rparr>),
      (''c'', RefProxy \<lparr>ref_datablock_uuid = ''c'', ref_debug_name = ''C''\<rparr>)]"

definition ref_a :: datablock_ref_proxy where
  "ref_a = \<lparr>ref_datablock_uuid = ''a'', ref_debug_name = ''A''\<rparr>"

definition refusing_externals :: "'w externals" where
  "refusing_externals = example_externals\<lparr>
     link := (\<lambda>c db w. (Some RuntimeError, w)),
     unlink := (\<lambda>c db w. (Some ReferenceError, w))\<rparr>"

definition registered_state :: "unit state" where
  "registered_state = example_state\<lparr>datablocks := [''b'' \<mapsto> Some 1, ''a'' \<mapsto> Some 3]\<rparr>"

definition scene_externals :: "'w externals" where
  "scene_externals = example_externals\<lparr>
     is_scene := (\<lambda>w db. True),
     delete_scene := (\<lambda>db w. (Some ReferenceError, w))\<rparr>"

definition brittle_externals :: "'w externals" where
  "brittle_externals = example_externals\<lparr>
     bpy_data := (\<lambda>w n. if n = ''objects'' then Some 0 else None),
     collection_get := (\<lambda>w c n. if n = ''Ball'' then Some 6 else if n = ''Cone'' then Some 7 else Some 5),
     ensure_uuid := (\<lambda>db w. if db = 6 then (Inl TypeError, w) else (Inr (if db = 7 then ''u7'' else ''u5''), w)),
     load_datablock := (\<lambda>db n c s.
        if db = 7 then (Inl RuntimeError, s)
        else (Inr \<lparr>proxy_uuid = ''u5'', proxy_collection_name = c, proxy_name = n\<rparr>, s))\<rparr>"

definition cone_added :: collection_diff where
  "cone_added = \<lparr>items_added = [(''Cube'', ''objects''), (''Cone'', ''objects'')],
                 items_removed = [], items_renamed = []\<rparr>"

definition arc_added :: collection_diff where
  "arc_added = \<lparr>items_added = [(''Cube'', ''objects''), (''Arc'', ''nowhere'')],
                items_removed = [], items_renamed = []\<rparr>"


section \<open>Dictionaries\<close>

lemma update_fresh: "k \<notin> fst ` set d \<Longrightarrow> AList.update k v d = d @ [(k, v)]"
  by (induction d) auto

lemma built_keys: "fst ` set (built f ks) \<subseteq> set ks"
  by (induction ks) (auto split: sum.splits option.splits)

lemma built_distinct: "distinct ks \<Longrightarrow> distinct (map fst (built f ks))"
proof (induction ks)
  case Nil
  then show ?case by simp
next
  case (Cons k ks)
  have "k \<notin> fst ` set (built f ks)" using Cons.prems built_keys [of f ks] by auto
  with Cons show ?case by (auto split: sum.splits option.splits)
qed

lemma built_map_of:
  "map_of (built f ks) k = (if k \<in> set ks then (case f k of Inr r \<Rightarrow> r | Inl e \<Rightarrow> None) else None)"
proof (induction ks)
  case Nil
  then show ?case by simp
next
  case (Cons a ks)
  then show ?case by (cases "f a") (auto split: option.splits sum.splits)
qed

lemma dict_build_Inr:
  "dict_build f ks d = Inr d' \<Longrightarrow> distinct ks \<Longrightarrow> set ks \<inter> fst ` set d = {} \<Longrightarrow>
     d' = d @ built f ks \<and> (\<forall>k\<in>set ks. \<exists>r. f k = Inr r)"
proof (induction ks arbitrary: d)
  case Nil
  then show ?case by simp
next
  case (Cons k ks)
  show ?case
  proof (cases "f k")
    case (Inl e)
    with Cons.prems show ?thesis by simp
  next
    case (Inr r)
    show ?thesis
    proof (cases r)
      case None
      with Inr Cons.prems have "dict_build f ks d = Inr d'" by simp
      moreover have "distinct ks" "set ks \<inter> fst ` set d = {}" using Cons.prems by auto
      ultimately have "d' = d @ built f ks \<and> (\<forall>k\<in>set ks. \<exists>r. f k = Inr r)"
        by (rule Cons.IH)
      with Inr None show ?thesis by simp
    next
      case (Some v)
      have fresh: "k \<notin> fst ` set d" using Cons.prems by auto
      with Inr Some Cons.prems have "dict_build f ks (d @ [(k, v)]) = Inr d'"
        by (simp add: update_fresh)
      moreover have "distinct ks" "set ks \<inter> fst ` set (d @ [(k, v)]) = {}" using Cons.prems by auto
      ultimately have "d' = (d @ [(k, v)]) @ built f ks \<and> (\<forall>k\<in>set ks. \<exists>r. f k = Inr r)"
        by (rule Cons.IH)
      with Inr Some show ?thesis by simp
    qed
  qed
qed

lemma dict_build_total:
  "(\<forall>k\<in>set ks. \<exists>r. f k = Inr r) \<Longrightarrow> \<exists>d'. dict_build f ks d = Inr d'"
proof (induction ks arbitrary: d)
  case Nil
  then show ?case by simp
next
  case (Cons k ks)
  then obtain r where "f k = Inr r" by auto
  with Cons show ?case by (cases r) auto
qed

lemma foldl_update_keys:
  "fst ` set (foldl (\<lambda>d item. AList.update (u item) item d) d0 vals) = fst ` set d0 \<union> u ` set vals"
  by (induction vals arbitrary: d0) (auto simp: dom_update)

lemma foldl_update_distinct:
  "distinct (map fst d0) \<Longrightarrow> distinct (map fst (foldl (\<lambda>d item. AList.update (u item) item d) d0 vals))"
  by (induction vals arbitrary: d0) (auto simp: distinct_update)

lemma blender_items_keys: "fst ` set (blender_items x w vals) = mixer_uuid x w ` set vals"
  by (simp add: blender_items_def foldl_update_keys)

lemma blender_items_distinct: "distinct (map fst (blender_items x w vals))"
  by (simp add: blender_items_def foldl_update_distinct)

section \<open>The delta of diff\<close>

lemma added_keys_set: "set (added_keys items self_data) = fst ` set items - fst ` set self_data"
  by (auto simp: added_keys_def)

lemma deleted_keys_set: "set (deleted_keys items self_data) = fst ` set self_data - fst ` set items"
  by (auto simp: deleted_keys_def)

lemma maybe_updated_keys_set: "set (maybe_updated_keys items self_data) = fst ` set self_data \<inter> fst ` set items"
  by (auto simp: maybe_updated_keys_def)

lemma added_keys_distinct: "distinct (map fst items) \<Longrightarrow> distinct (added_keys items self_data)"
  by (simp add: added_keys_def)

lemma deleted_keys_distinct: "distinct (map fst self_data) \<Longrightarrow> distinct (deleted_keys items self_data)"
  by (simp add: deleted_keys_def)

lemma maybe_updated_keys_distinct: "distinct (map fst self_data) \<Longrightarrow> distinct (maybe_updated_keys items self_data)"
  by (simp add: maybe_updated_keys_def)

lemma diff_Inr_entries:
  assumes dist: "distinct (map fst self_data)"
    and res: "diff x s self_data vals = Inr res"
  shows "res = (if diff_entries x s self_data vals = [] then None
                else Some (DeltaUpdate (RefCollectionProxy (diff_entries x s self_data vals))))
       \<and> (\<forall>k\<in>set (added_keys (blender_items x (world s) vals) self_data).
             \<exists>r. added_body x s (blender_items x (world s) vals) k = Inr r)
       \<and> (\<forall>k\<in>set (maybe_updated_keys (blender_items x (world s) vals) self_data).
             \<exists>r. updated_body x s (blender_items x (world s) vals) self_data k = Inr r)"
proof -
  define items where "items = blender_items x (world s) vals"
  define A where "A = added_keys items self_data"
  define D where "D = deleted_keys items self_data"
  define U where "U = maybe_updated_keys items self_data"
  have di: "distinct (map fst items)" by (simp add: items_def blender_items_distinct)
  have dA: "distinct A" and dD: "distinct D" and dU: "distinct U"
    using di dist by (simp_all add: A_def D_def U_def added_keys_distinct deleted_keys_distinct maybe_updated_keys_distinct)
  have sA: "set A = fst ` set items - fst ` set self_data"
    and sD: "set D = fst ` set self_data - fst ` set items"
    and sU: "set U = fst ` set self_data \<inter> fst ` set items"
    by (simp_all add: A_def D_def U_def added_keys_set deleted_keys_set maybe_updated_keys_set)
  from res obtain d1 where b1: "dict_build (added_body x s items) A [] = Inr d1"
    by (auto simp: diff_def Let_def items_def A_def split: sum.splits)
  from res b1 obtain d2 where b2: "dict_build (deleted_body self_data) D d1 = Inr d2"
    by (auto simp: diff_def Let_def items_def A_def D_def split: sum.splits)
  from res b1 b2 obtain d3 where b3: "dict_build (updated_body x s items self_data) U d2 = Inr d3"
    by (auto simp: diff_def Let_def items_def A_def D_def U_def split: sum.splits)
  from res b1 b2 b3 have r3: "res = (if d3 = [] then None else Some (DeltaUpdate (RefCollectionProxy d3)))"
    by (auto simp: diff_def Let_def items_def A_def D_def U_def split: sum.splits if_splits)
  have e1: "d1 = [] @ built (added_body x s items) A \<and> (\<forall>k\<in>set A. \<exists>r. added_body x s items k = Inr r)"
    using b1 dA by (rule dict_build_Inr) simp
  have k1: "fst ` set d1 \<subseteq> set A" using e1 built_keys [of "added_body x s items" A] by simp
  have "set D \<inter> fst ` set d1 = {}" using k1 sA sD by auto
  with b2 dD have e2: "d2 = d1 @ built (deleted_body self_data) D \<and> (\<forall>k\<in>set D. \<exists>r. deleted_body self_data k = Inr r)"
    by (rule dict_build_Inr)
  have k2: "fst ` set d2 \<subseteq> set A \<union> set D"
    using e2 k1 built_keys [of "deleted_body self_data" D] by auto
  have "set U \<inter> fst ` set d2 = {}" using k2 sA sD sU by auto
  with b3 dU have e3: "d3 = d2 @ built (updated_body x s items self_data) U
      \<and> (\<forall>k\<in>set U. \<exists>r. updated_body x s items self_data k = Inr r)"
    by (rule dict_build_Inr)
  have "d3 = diff_entries x s self_data vals"
    using e1 e2 e3 by (simp add: diff_entries_def Let_def items_def A_def D_def U_def)
  with r3 e1 e3 show ?thesis by (simp add: items_def A_def U_def)
qed

lemma diff_entries_distinct:
  assumes "distinct (map fst self_data)"
  shows "distinct (map fst (diff_entries x s self_data vals))"
proof -
  define items where "items = blender_items x (world s) vals"
  have di: "distinct (map fst items)" by (simp add: items_def blender_items_distinct)
  have a: "fst ` set (built (added_body x s items) (added_keys items self_data)) \<subseteq> fst ` set items - fst ` set self_data"
    using built_keys [of "added_body x s items" "added_keys items self_data"] by (simp add: added_keys_set)
  have b: "fst ` set (built (deleted_body self_data) (deleted_keys items self_data)) \<subseteq> fst ` set self_data - fst ` set items"
    using built_keys [of "deleted_body self_data" "deleted_keys items self_data"] by (simp add: deleted_keys_set)
  have c: "fst ` set (built (updated_body x s items self_data) (maybe_updated_keys items self_data)) \<subseteq> fst ` set self_data \<inter> fst ` set items"
    using built_keys [of "updated_body x s items self_data" "maybe_updated_keys items self_data"] by (simp add: maybe_updated_keys_set)
  have "distinct (map fst (built (added_body x s items) (added_keys items self_data)))"
    "distinct (map fst (built (deleted_body self_data) (deleted_keys items self_data)))"
    "distinct (map fst (built (updated_body x s items self_data) (maybe_updated_keys items self_data)))"
    using di assms by (simp_all add: built_distinct added_keys_distinct deleted_keys_distinct maybe_updated_keys_distinct)
  moreover have "fst ` set (built (added_body x s items) (added_keys items self_data)) \<inter>
     fst ` set (built (deleted_body self_data) (deleted_keys items self_data)) = {}" using a b by blast
  moreover have "fst ` set (built (added_body x s items) (added_keys items self_data)) \<inter>
     fst ` set (built (updated_body x s items self_data) (maybe_updated_keys items self_data)) = {}" using a c by blast
  moreover have "fst ` set (built (deleted_body self_data) (deleted_keys items self_data)) \<inter>
     fst ` set (built (updated_body x s items self_data) (maybe_updated_keys items self_data)) = {}" using b c by blast
  ultimately show ?thesis
    by (simp add: diff_entries_def Let_def items_def [symmetric] Int_Un_distrib)
qed

lemma diff_entries_map_of:
  "map_of (diff_entries x s self_data vals) k =
     (let items = blender_items x (world s) vals in
      if k \<in> fst ` set items \<and> k \<notin> fst ` set self_data then
        (case added_body x s items k of Inr r \<Rightarrow> r | Inl e \<Rightarrow> None)
      else if k \<in> fst ` set self_data \<and> k \<notin> fst ` set items then
        (case deleted_body self_data k of Inr r \<Rightarrow> r | Inl e \<Rightarrow> None)
      else if k \<in> fst ` set self_data \<and> k \<in> fst ` set items then
        (case updated_body x s items self_data k of Inr r \<Rightarrow> r | Inl e \<Rightarrow> None)
      else None)"
  by (auto simp: diff_entries_def Let_def map_add_def built_map_of added_keys_set deleted_keys_set
      maybe_updated_keys_set split: option.splits)

lemma map_of_None_iff: "map_of d k = None \<longleftrightarrow> k \<notin> fst ` set d"
  by (simp add: map_of_eq_None_iff)

lemma added_body_Inr:
  "added_body x s items k = Inr r \<Longrightarrow>
     \<exists>item v. map_of items k = Some item \<and> read_attribute x s item k = Inr v \<and> r = Some (Delta (DeltaAddition v))"
  by (auto simp: added_body_def split: option.splits sum.splits if_splits)

lemma deleted_body_Some: "map_of self_data k = Some old \<Longrightarrow> deleted_body self_data k = Inr (Some (Delta (DeltaDeletion old)))"
  by (simp add: deleted_body_def)

lemma updated_body_Inr:
  "updated_body x s items self_data k = Inr r \<Longrightarrow> map_of items k = Some item \<Longrightarrow> map_of self_data k = Some old \<Longrightarrow>
     diff_attribute x s item k old = Inr r \<and> (r = None \<or> (\<exists>v. r = Some (Delta (DeltaUpdate v))))"
proof -
  assume a: "updated_body x s items self_data k = Inr r" "map_of items k = Some item" "map_of self_data k = Some old"
  then have d: "diff_attribute x s item k old = Inr r"
    by (auto simp: updated_body_def split: sum.splits option.splits if_splits)
  show ?thesis
  proof (cases r)
    case None
    with d show ?thesis by simp
  next
    case (Some dl)
    with a d have "is_update_delta dl" by (auto simp: updated_body_def split: if_splits)
    then obtain v where "dl = Delta (DeltaUpdate v)"
      by (cases dl rule: is_update_delta.cases; simp) (rename_tac u; case_tac u; simp)
    with d Some show ?thesis by simp
  qed
qed

lemma map_of_all_None: "(\<forall>k. map_of d k = None) \<longleftrightarrow> d = []"
  by (cases d) auto

text \<open>\<^verbatim>\<open>diff\<close> returns when its two external routines return what its assertions expect.\<close>

lemma diff_returns:
  assumes dist: "distinct (map fst self_data)"
    and reads: "\<forall>k item. map_of (blender_items x (world s) vals) k = Some item \<and> map_of self_data k = None \<longrightarrow>
              (\<exists>v. read_attribute x s item k = Inr v \<and> is_proxy_value v)"
    and diffs: "\<forall>k item old. map_of (blender_items x (world s) vals) k = Some item \<and> map_of self_data k = Some old \<longrightarrow>
              diff_attribute x s item k old = Inr None
              \<or> (\<exists>dl. diff_attribute x s item k old = Inr (Some dl) \<and> is_update_delta dl)"
  shows "\<exists>res. diff x s self_data vals = Inr res"
proof -
  let ?items = "blender_items x (world s) vals"
  have A: "\<forall>k\<in>set (added_keys ?items self_data). \<exists>r. added_body x s ?items k = Inr r"
  proof
    fix k assume "k \<in> set (added_keys ?items self_data)"
    then have "k \<in> fst ` set ?items" "k \<notin> fst ` set self_data" by (simp_all add: added_keys_set)
    then obtain item where i: "map_of ?items k = Some item" and n: "map_of self_data k = None"
      by (cases "map_of ?items k") (auto simp: map_of_None_iff)
    with reads obtain v where "read_attribute x s item k = Inr v" "is_proxy_value v" by blast
    with i show "\<exists>r. added_body x s ?items k = Inr r" by (simp add: added_body_def)
  qed
  have D: "\<forall>k\<in>set (deleted_keys ?items self_data). \<exists>r. deleted_body self_data k = Inr r"
  proof
    fix k assume "k \<in> set (deleted_keys ?items self_data)"
    then have "k \<in> fst ` set self_data" by (simp add: deleted_keys_set)
    then obtain old where "map_of self_data k = Some old"
      by (cases "map_of self_data k") (auto simp: map_of_None_iff)
    then show "\<exists>r. deleted_body self_data k = Inr r" by (simp add: deleted_body_Some)
  qed
  have U: "\<forall>k\<in>set (maybe_updated_keys ?items self_data). \<exists>r. updated_body x s ?items self_data k = Inr r"
  proof
    fix k assume "k \<in> set (maybe_updated_keys ?items self_data)"
    then have "k \<in> fst ` set ?items" "k \<in> fst ` set self_data" by (simp_all add: maybe_updated_keys_set)
    then obtain item old where i: "map_of ?items k = Some item" and o: "map_of self_data k = Some old"
      by (cases "map_of ?items k"; cases "map_of self_data k") (auto simp: map_of_None_iff)
    with diffs have "diff_attribute x s item k old = Inr None
              \<or> (\<exists>dl. diff_attribute x s item k old = Inr (Some dl) \<and> is_update_delta dl)" by blast
    with i o show "\<exists>r. updated_body x s ?items self_data k = Inr r"
      by (auto simp: updated_body_def)
  qed
  from dict_build_total [OF A] obtain d1 where
    b1: "dict_build (added_body x s ?items) (added_keys ?items self_data) [] = Inr d1" by blast
  from dict_build_total [OF D] obtain d2 where
    b2: "dict_build (deleted_body self_data) (deleted_keys ?items self_data) d1 = Inr d2" by blast
  from dict_build_total [OF U] obtain d3 where
    b3: "dict_build (updated_body x s ?items self_data) (maybe_updated_keys ?items self_data) d2 = Inr d3" by blast
  show ?thesis using b1 b2 b3 by (simp add: diff_def Let_def)
qed

lemma no_change_iff:
  fixes d :: pdict
  assumes c4: "\<forall>k. k \<in> L \<and> map_of self_data k = None \<longrightarrow>
              (\<exists>item v. items k = Some item \<and> rd item k = Inr v \<and> map_of d k = Some (Delta (DeltaAddition v)))"
    and c6: "\<forall>k old. k \<notin> L \<and> map_of self_data k = Some old \<longrightarrow> map_of d k = Some (Delta (DeltaDeletion old))"
    and c7: "\<forall>k item old. items k = Some item \<and> map_of self_data k = Some old \<longrightarrow>
              df item k old = Inr (map_of d k)"
    and c8: "\<forall>k. k \<notin> L \<and> map_of self_data k = None \<longrightarrow> map_of d k = None"
    and ik: "\<forall>k. items k = None \<longleftrightarrow> k \<notin> L"
  shows "d = [] \<longleftrightarrow> (L = fst ` set self_data
            \<and> (\<forall>k item old. items k = Some item \<and> map_of self_data k = Some old \<longrightarrow> df item k old = Inr None))"
proof
  assume "d = []"
  then have e: "\<And>k. map_of d k = None" by simp
  have "k \<in> L \<longleftrightarrow> k \<in> fst ` set self_data" for k
  proof (cases "map_of self_data k")
    case None
    have "k \<notin> L"
    proof
      assume "k \<in> L"
      with c4 None obtain v where "map_of d k = Some (Delta (DeltaAddition v))" by blast
      with e [of k] show False by simp
    qed
    with None show ?thesis by (simp add: map_of_None_iff)
  next
    case (Some old)
    have "k \<in> L"
    proof (rule ccontr)
      assume "k \<notin> L"
      with c6 Some have "map_of d k = Some (Delta (DeltaDeletion old))" by blast
      with e [of k] show False by simp
    qed
    moreover have "k \<in> fst ` set self_data" using Some map_of_None_iff [of self_data k] by auto
    ultimately show ?thesis by simp
  qed
  then have "L = fst ` set self_data" by blast
  moreover have "\<forall>k item old. items k = Some item \<and> map_of self_data k = Some old \<longrightarrow> df item k old = Inr None"
    using c7 e by simp
  ultimately show "L = fst ` set self_data
            \<and> (\<forall>k item old. items k = Some item \<and> map_of self_data k = Some old \<longrightarrow> df item k old = Inr None)"
    by simp
next
  assume a: "L = fst ` set self_data
            \<and> (\<forall>k item old. items k = Some item \<and> map_of self_data k = Some old \<longrightarrow> df item k old = Inr None)"
  have "map_of d k = None" for k
  proof (cases "map_of self_data k")
    case None
    then have "k \<notin> L" using a by (simp add: map_of_None_iff)
    with None c8 show ?thesis by simp
  next
    case (Some old)
    have "k \<in> fst ` set self_data" using Some map_of_None_iff [of self_data k] by auto
    then have "k \<in> L" using a by simp
    then obtain item where i: "items k = Some item" using ik by (cases "items k") auto
    from c7 i Some have "df item k old = Inr (map_of d k)" by blast
    moreover from a i Some have "df item k old = Inr None" by blast
    ultimately show ?thesis by simp
  qed
  then show "d = []" using map_of_all_None [of d] by simp
qed

text \<open>What \<^verbatim>\<open>diff\<close> returns, whenever it returns.\<close>

lemma diff_Inr_member_deltas:
  assumes dist: "distinct (map fst self_data)"
    and res: "diff x s self_data vals = Inr res"
  shows "\<exists>d. distinct (map fst d)
      \<and> res = (if d = [] then None else Some (DeltaUpdate (RefCollectionProxy d)))
      \<and> (\<forall>k. (\<exists>v. map_of d k = Some (Delta (DeltaAddition v)))
              \<longleftrightarrow> (k \<in> mixer_uuid x (world s) ` set vals \<and> map_of self_data k = None))
      \<and> (\<forall>k. k \<in> mixer_uuid x (world s) ` set vals \<and> map_of self_data k = None \<longrightarrow>
              (\<exists>item v. map_of (blender_items x (world s) vals) k = Some item
                 \<and> read_attribute x s item k = Inr v \<and> map_of d k = Some (Delta (DeltaAddition v))))
      \<and> (\<forall>k. (\<exists>v. map_of d k = Some (Delta (DeltaDeletion v)))
              \<longleftrightarrow> (k \<notin> mixer_uuid x (world s) ` set vals \<and> map_of self_data k \<noteq> None))
      \<and> (\<forall>k old. k \<notin> mixer_uuid x (world s) ` set vals \<and> map_of self_data k = Some old \<longrightarrow>
              map_of d k = Some (Delta (DeltaDeletion old)))
      \<and> (\<forall>k item old. map_of (blender_items x (world s) vals) k = Some item \<and> map_of self_data k = Some old \<longrightarrow>
              diff_attribute x s item k old = Inr (map_of d k)
              \<and> (map_of d k = None \<or> (\<exists>v. map_of d k = Some (Delta (DeltaUpdate v)))))
      \<and> (\<forall>k. k \<notin> mixer_uuid x (world s) ` set vals \<and> map_of self_data k = None \<longrightarrow> map_of d k = None)
      \<and> (res = None \<longleftrightarrow>
            (mixer_uuid x (world s) ` set vals = fst ` set self_data
             \<and> (\<forall>k item old. map_of (blender_items x (world s) vals) k = Some item \<and> map_of self_data k = Some old \<longrightarrow>
                    diff_attribute x s item k old = Inr None)))"
proof -
  let ?items = "blender_items x (world s) vals"
  let ?live = "mixer_uuid x (world s) ` set vals"
  define d where "d = diff_entries x s self_data vals"
  have live: "fst ` set ?items = ?live" by (simp add: blender_items_keys)
  have ik: "\<And>k. map_of ?items k = None \<longleftrightarrow> k \<notin> ?live" using live by (simp add: map_of_None_iff)
  have pk: "\<And>k. map_of self_data k = None \<longleftrightarrow> k \<notin> fst ` set self_data" by (simp add: map_of_None_iff)
  from diff_Inr_entries [OF dist res]
  have r: "res = (if d = [] then None else Some (DeltaUpdate (RefCollectionProxy d)))"
    and okA: "\<And>k. k \<in> set (added_keys ?items self_data) \<Longrightarrow> \<exists>r. added_body x s ?items k = Inr r"
    and okU: "\<And>k. k \<in> set (maybe_updated_keys ?items self_data) \<Longrightarrow> \<exists>r. updated_body x s ?items self_data k = Inr r"
    by (auto simp: d_def)
  have dd: "distinct (map fst d)" using dist by (simp add: d_def diff_entries_distinct)
  have added: "\<exists>item v. map_of ?items k = Some item \<and> read_attribute x s item k = Inr v
                  \<and> map_of d k = Some (Delta (DeltaAddition v))"
    if "k \<in> ?live" "map_of self_data k = None" for k
  proof -
    have m: "k \<in> fst ` set ?items" "k \<notin> fst ` set self_data" using that live pk by auto
    then have "k \<in> set (added_keys ?items self_data)" by (simp add: added_keys_set)
    then obtain r where b: "added_body x s ?items k = Inr r" using okA by blast
    from added_body_Inr [OF b] obtain item v where
      "map_of ?items k = Some item" "read_attribute x s item k = Inr v" "r = Some (Delta (DeltaAddition v))" by blast
    moreover have "map_of d k = r" using m b
      by (simp add: d_def diff_entries_map_of Let_def)
    ultimately show ?thesis by blast
  qed
  have deleted: "map_of d k = Some (Delta (DeltaDeletion old))"
    if "k \<notin> ?live" "map_of self_data k = Some old" for k old
  proof -
    have m: "k \<notin> fst ` set ?items" "k \<in> fst ` set self_data" using that live pk [of k] by auto
    then show ?thesis using that
      by (simp add: d_def diff_entries_map_of Let_def deleted_body_Some)
  qed
  have common: "diff_attribute x s item k old = Inr (map_of d k)
                  \<and> (map_of d k = None \<or> (\<exists>v. map_of d k = Some (Delta (DeltaUpdate v))))"
    if "map_of ?items k = Some item" "map_of self_data k = Some old" for k item old
  proof -
    have m: "k \<in> fst ` set ?items" "k \<in> fst ` set self_data" using that ik [of k] live pk [of k] by auto
    then have "k \<in> set (maybe_updated_keys ?items self_data)" by (simp add: maybe_updated_keys_set)
    then obtain r where b: "updated_body x s ?items self_data k = Inr r" using okU by blast
    have "map_of d k = r" using m b
      by (simp add: d_def diff_entries_map_of Let_def)
    with updated_body_Inr [OF b that] show ?thesis by simp
  qed
  have neither: "map_of d k = None" if "k \<notin> ?live" "map_of self_data k = None" for k
  proof -
    have "k \<notin> fst ` set ?items" "k \<notin> fst ` set self_data" using that live pk by auto
    then show ?thesis by (simp add: d_def diff_entries_map_of Let_def)
  qed
  have tags: "((\<exists>v. map_of d k = Some (Delta (DeltaAddition v))) \<longleftrightarrow> (k \<in> ?live \<and> map_of self_data k = None))
      \<and> ((\<exists>v. map_of d k = Some (Delta (DeltaDeletion v))) \<longleftrightarrow> (k \<notin> ?live \<and> map_of self_data k \<noteq> None))" for k
  proof (cases "map_of self_data k")
    case None
    show ?thesis
    proof (cases "k \<in> ?live")
      case True
      from added [OF True None] None True show ?thesis by auto
    next
      case False
      from neither [OF False None] None False show ?thesis by auto
    qed
  next
    case (Some old)
    show ?thesis
    proof (cases "map_of ?items k")
      case None
      then have nl: "k \<notin> ?live" using ik [of k] by simp
      from deleted [OF nl Some] Some nl show ?thesis by auto
    next
      case (Some item)
      then have l: "k \<in> ?live" using ik [of k] by auto
      from common [OF Some \<open>map_of self_data k = Some old\<close>] l \<open>map_of self_data k = Some old\<close>
      show ?thesis by auto
    qed
  qed
  have c3: "\<forall>k. (\<exists>v. map_of d k = Some (Delta (DeltaAddition v))) \<longleftrightarrow> (k \<in> ?live \<and> map_of self_data k = None)"
    using tags by blast
  have c4: "\<forall>k. k \<in> ?live \<and> map_of self_data k = None \<longrightarrow>
              (\<exists>item v. map_of ?items k = Some item
                 \<and> read_attribute x s item k = Inr v \<and> map_of d k = Some (Delta (DeltaAddition v)))"
    using added by blast
  have c5: "\<forall>k. (\<exists>v. map_of d k = Some (Delta (DeltaDeletion v))) \<longleftrightarrow> (k \<notin> ?live \<and> map_of self_data k \<noteq> None)"
    using tags by blast
  have c6: "\<forall>k old. k \<notin> ?live \<and> map_of self_data k = Some old \<longrightarrow> map_of d k = Some (Delta (DeltaDeletion old))"
    using deleted by blast
  have c7: "\<forall>k item old. map_of ?items k = Some item \<and> map_of self_data k = Some old \<longrightarrow>
              diff_attribute x s item k old = Inr (map_of d k)
              \<and> (map_of d k = None \<or> (\<exists>v. map_of d k = Some (Delta (DeltaUpdate v))))"
    using common by blast
  have c8: "\<forall>k. k \<notin> ?live \<and> map_of self_data k = None \<longrightarrow> map_of d k = None"
    using neither by blast
  have c7': "\<forall>k item old. map_of ?items k = Some item \<and> map_of self_data k = Some old \<longrightarrow>
              diff_attribute x s item k old = Inr (map_of d k)"
    using common by blast
  have ik': "\<forall>k. map_of ?items k = None \<longleftrightarrow> k \<notin> ?live" using ik by blast
  have "res = None \<longleftrightarrow> d = []" using r by simp
  also have "\<dots> \<longleftrightarrow> (?live = fst ` set self_data
             \<and> (\<forall>k item old. map_of ?items k = Some item \<and> map_of self_data k = Some old \<longrightarrow>
                    diff_attribute x s item k old = Inr None))"
    using c4 c6 c7' c8 ik'
    by (rule no_change_iff [of ?live self_data "map_of ?items" "read_attribute x s" d "diff_attribute x s"])
  finally have c9: "res = None \<longleftrightarrow> (?live = fst ` set self_data
             \<and> (\<forall>k item old. map_of ?items k = Some item \<and> map_of self_data k = Some old \<longrightarrow>
                    diff_attribute x s item k old = Inr None))" .
  from dd r c3 c4 c5 c6 c7 c8 c9 show ?thesis by (intro exI [of _ d] conjI)
qed

lemma example_diff:
  "diff example_externals example_state example_proxy [1, 2] = Inr (Some (DeltaUpdate (RefCollectionProxy example_delta)))"
  by (simp add: diff_def blender_items_def added_keys_def deleted_keys_def maybe_updated_keys_def
      added_body_def deleted_body_def updated_body_def example_externals_def example_state_def
      example_proxy_def example_delta_def)


lemma added_body_Inr_proxy:
  "added_body x s items k = Inr r \<Longrightarrow> map_of items k = Some item \<Longrightarrow>
     \<exists>v. read_attribute x s item k = Inr v \<and> is_proxy_value v"
  by (auto simp: added_body_def split: option.splits sum.splits if_splits)

lemma updated_body_Inr_update:
  "updated_body x s items self_data k = Inr r \<Longrightarrow> map_of items k = Some item \<Longrightarrow> map_of self_data k = Some old \<Longrightarrow>
     diff_attribute x s item k old = Inr None
     \<or> (\<exists>dl. diff_attribute x s item k old = Inr (Some dl) \<and> is_update_delta dl)"
  by (auto simp: updated_body_def split: option.splits sum.splits if_splits)

lemma diff_Inr_externals:
  assumes dist: "distinct (map fst self_data)"
    and res: "diff x s self_data vals = Inr res"
  shows "(\<forall>k item. map_of (blender_items x (world s) vals) k = Some item \<and> map_of self_data k = None \<longrightarrow>
              (\<exists>v. read_attribute x s item k = Inr v \<and> is_proxy_value v))
       \<and> (\<forall>k item old. map_of (blender_items x (world s) vals) k = Some item \<and> map_of self_data k = Some old \<longrightarrow>
              diff_attribute x s item k old = Inr None
              \<or> (\<exists>dl. diff_attribute x s item k old = Inr (Some dl) \<and> is_update_delta dl))"
proof -
  let ?items = "blender_items x (world s) vals"
  from diff_Inr_entries [OF dist res]
  have okA: "\<And>k. k \<in> set (added_keys ?items self_data) \<Longrightarrow> \<exists>r. added_body x s ?items k = Inr r"
    and okU: "\<And>k. k \<in> set (maybe_updated_keys ?items self_data) \<Longrightarrow> \<exists>r. updated_body x s ?items self_data k = Inr r"
    by auto
  have a: "\<exists>v. read_attribute x s item k = Inr v \<and> is_proxy_value v"
    if i: "map_of ?items k = Some item" and n: "map_of self_data k = None" for k item
  proof -
    have "k \<in> fst ` set ?items" using i map_of_None_iff [of ?items k] by auto
    moreover have "k \<notin> fst ` set self_data" using n by (simp add: map_of_None_iff)
    ultimately have "k \<in> set (added_keys ?items self_data)" by (simp add: added_keys_set)
    from okA [OF this] obtain r where "added_body x s ?items k = Inr r" by blast
    from added_body_Inr_proxy [OF this i] show ?thesis .
  qed
  have u: "diff_attribute x s item k old = Inr None
              \<or> (\<exists>dl. diff_attribute x s item k old = Inr (Some dl) \<and> is_update_delta dl)"
    if i: "map_of ?items k = Some item" and o: "map_of self_data k = Some old" for k item old
  proof -
    have "k \<in> fst ` set ?items" using i map_of_None_iff [of ?items k] by auto
    moreover have "k \<in> fst ` set self_data" using o map_of_None_iff [of self_data k] by auto
    ultimately have "k \<in> set (maybe_updated_keys ?items self_data)" by (simp add: maybe_updated_keys_set)
    from okU [OF this] obtain r where "updated_body x s ?items self_data k = Inr r" by blast
    from updated_body_Inr_update [OF this i o] show ?thesis .
  qed
  from a u show ?thesis by blast
qed

lemma diff_no_change:
  assumes dist: "distinct (map fst self_data)"
    and same: "mixer_uuid x (world s) ` set vals = fst ` set self_data"
    and none: "\<forall>k item old. map_of (blender_items x (world s) vals) k = Some item \<and> map_of self_data k = Some old \<longrightarrow>
                  diff_attribute x s item k old = Inr None"
  shows "diff x s self_data vals = Inr None"
proof -
  let ?items = "blender_items x (world s) vals"
  have live: "fst ` set ?items = fst ` set self_data" using same by (simp add: blender_items_keys)
  have reads: "\<forall>k item. map_of ?items k = Some item \<and> map_of self_data k = None \<longrightarrow>
              (\<exists>v. read_attribute x s item k = Inr v \<and> is_proxy_value v)"
  proof (intro allI impI)
    fix k item assume a: "map_of ?items k = Some item \<and> map_of self_data k = None"
    then have "k \<in> fst ` set ?items" using map_of_None_iff [of ?items k] by auto
    moreover from a have "k \<notin> fst ` set self_data" by (simp add: map_of_None_iff)
    ultimately show "\<exists>v. read_attribute x s item k = Inr v \<and> is_proxy_value v" using live by simp
  qed
  have diffs: "\<forall>k item old. map_of ?items k = Some item \<and> map_of self_data k = Some old \<longrightarrow>
              diff_attribute x s item k old = Inr None
              \<or> (\<exists>dl. diff_attribute x s item k old = Inr (Some dl) \<and> is_update_delta dl)"
    using none by blast
  from diff_returns [OF dist reads diffs] obtain res where r: "diff x s self_data vals = Inr res" by blast
  from diff_Inr_member_deltas [OF dist r]
  have "res = None \<longleftrightarrow>
            (mixer_uuid x (world s) ` set vals = fst ` set self_data
             \<and> (\<forall>k item old. map_of ?items k = Some item \<and> map_of self_data k = Some old \<longrightarrow>
                    diff_attribute x s item k old = Inr None))"
    by (elim exE conjE)
  with same none have "res = None" by blast
  with r show ?thesis by simp
qed

text \<open>
  Claim C1. For a proxy with distinct keys, \<^verbatim>\<open>DatablockRefCollectionProxy.diff\<close> returns
  exactly when \<^verbatim>\<open>read_attribute\<close> returns a proxy for every live item the proxy does not
  have, and \<^verbatim>\<open>diff_attribute\<close> returns \<^verbatim>\<open>None\<close> or a \<^verbatim>\<open>DeltaUpdate\<close> for every member of
  both (otherwise the exception of the routine, or the \<^verbatim>\<open>AssertionError\<close>, leaves \<^verbatim>\<open>diff\<close>).
  When the live collection and the proxy have the same uuids and \<^verbatim>\<open>diff_attribute\<close> returns
  \<^verbatim>\<open>None\<close> for every member, \<^verbatim>\<open>diff\<close> returns \<^verbatim>\<open>None\<close>. Whenever \<^verbatim>\<open>diff\<close> returns, its
  result is \<^verbatim>\<open>None\<close> when no entry was stored and otherwise a \<^verbatim>\<open>DeltaUpdate\<close> of a collection
  whose member map \<open>d\<close> holds a \<^verbatim>\<open>DeltaAddition\<close> exactly under the uuids of the live
  collection that the proxy does not have (of the value \<^verbatim>\<open>read_attribute\<close> gave for the live
  item), a \<^verbatim>\<open>DeltaDeletion\<close> exactly under the uuids of the proxy that the live collection
  does not have (of the value the proxy stored), under a uuid of both what \<^verbatim>\<open>diff_attribute\<close>
  returned (nothing when it returned \<^verbatim>\<open>None\<close>, else a \<^verbatim>\<open>DeltaUpdate\<close>), and nothing under
  any other uuid; and the result is \<^verbatim>\<open>None\<close> exactly when the live collection and the proxy
  have the same uuids and no common member has a delta.
\<close>

theorem diff_member_deltas:
  assumes dist: "distinct (map fst self_data)"
  shows "((\<exists>res. diff x s self_data vals = Inr res) \<longleftrightarrow>
            ((\<forall>k item. map_of (blender_items x (world s) vals) k = Some item \<and> map_of self_data k = None \<longrightarrow>
                 (\<exists>v. read_attribute x s item k = Inr v \<and> is_proxy_value v))
           \<and> (\<forall>k item old. map_of (blender_items x (world s) vals) k = Some item \<and> map_of self_data k = Some old \<longrightarrow>
                 diff_attribute x s item k old = Inr None
                 \<or> (\<exists>dl. diff_attribute x s item k old = Inr (Some dl) \<and> is_update_delta dl))))
    \<and> ((mixer_uuid x (world s) ` set vals = fst ` set self_data
         \<and> (\<forall>k item old. map_of (blender_items x (world s) vals) k = Some item \<and> map_of self_data k = Some old \<longrightarrow>
                diff_attribute x s item k old = Inr None))
        \<longrightarrow> diff x s self_data vals = Inr None)
    \<and> (\<forall>res. diff x s self_data vals = Inr res \<longrightarrow>
         (\<exists>d. distinct (map fst d)
      \<and> res = (if d = [] then None else Some (DeltaUpdate (RefCollectionProxy d)))
      \<and> (\<forall>k. (\<exists>v. map_of d k = Some (Delta (DeltaAddition v)))
              \<longleftrightarrow> (k \<in> mixer_uuid x (world s) ` set vals \<and> map_of self_data k = None))
      \<and> (\<forall>k. k \<in> mixer_uuid x (world s) ` set vals \<and> map_of self_data k = None \<longrightarrow>
              (\<exists>item v. map_of (blender_items x (world s) vals) k = Some item
                 \<and> read_attribute x s item k = Inr v \<and> map_of d k = Some (Delta (DeltaAddition v))))
      \<and> (\<forall>k. (\<exists>v. map_of d k = Some (Delta (DeltaDeletion v)))
              \<longleftrightarrow> (k \<notin> mixer_uuid x (world s) ` set vals \<and> map_of self_data k \<noteq> None))
      \<and> (\<forall>k old. k \<notin> mixer_uuid x (world s) ` set vals \<and> map_of self_data k = Some old \<longrightarrow>
              map_of d k = Some (Delta (DeltaDeletion old)))
      \<and> (\<forall>k item old. map_of (blender_items x (world s) vals) k = Some item \<and> map_of self_data k = Some old \<longrightarrow>
              diff_attribute x s item k old = Inr (map_of d k)
              \<and> (map_of d k = None \<or> (\<exists>v. map_of d k = Some (Delta (DeltaUpdate v)))))
      \<and> (\<forall>k. k \<notin> mixer_uuid x (world s) ` set vals \<and> map_of self_data k = None \<longrightarrow> map_of d k = None)
      \<and> (res = None \<longleftrightarrow>
            (mixer_uuid x (world s) ` set vals = fst ` set self_data
             \<and> (\<forall>k item old. map_of (blender_items x (world s) vals) k = Some item \<and> map_of self_data k = Some old \<longrightarrow>
                    diff_attribute x s item k old = Inr None)))))"
proof (intro conjI)
  show "(\<exists>res. diff x s self_data vals = Inr res) \<longleftrightarrow>
            ((\<forall>k item. map_of (blender_items x (world s) vals) k = Some item \<and> map_of self_data k = None \<longrightarrow>
                 (\<exists>v. read_attribute x s item k = Inr v \<and> is_proxy_value v))
           \<and> (\<forall>k item old. map_of (blender_items x (world s) vals) k = Some item \<and> map_of self_data k = Some old \<longrightarrow>
                 diff_attribute x s item k old = Inr None
                 \<or> (\<exists>dl. diff_attribute x s item k old = Inr (Some dl) \<and> is_update_delta dl)))"
  proof
    assume "\<exists>res. diff x s self_data vals = Inr res"
    then obtain res where "diff x s self_data vals = Inr res" ..
    from diff_Inr_externals [OF dist this]
    show "(\<forall>k item. map_of (blender_items x (world s) vals) k = Some item \<and> map_of self_data k = None \<longrightarrow>
                 (\<exists>v. read_attribute x s item k = Inr v \<and> is_proxy_value v))
           \<and> (\<forall>k item old. map_of (blender_items x (world s) vals) k = Some item \<and> map_of self_data k = Some old \<longrightarrow>
                 diff_attribute x s item k old = Inr None
                 \<or> (\<exists>dl. diff_attribute x s item k old = Inr (Some dl) \<and> is_update_delta dl))" .
  next
    assume a: "(\<forall>k item. map_of (blender_items x (world s) vals) k = Some item \<and> map_of self_data k = None \<longrightarrow>
                 (\<exists>v. read_attribute x s item k = Inr v \<and> is_proxy_value v))
           \<and> (\<forall>k item old. map_of (blender_items x (world s) vals) k = Some item \<and> map_of self_data k = Some old \<longrightarrow>
                 diff_attribute x s item k old = Inr None
                 \<or> (\<exists>dl. diff_attribute x s item k old = Inr (Some dl) \<and> is_update_delta dl))"
    show "\<exists>res. diff x s self_data vals = Inr res"
      by (rule diff_returns [OF dist conjunct1 [OF a] conjunct2 [OF a]])
  qed
next
  show "(mixer_uuid x (world s) ` set vals = fst ` set self_data
         \<and> (\<forall>k item old. map_of (blender_items x (world s) vals) k = Some item \<and> map_of self_data k = Some old \<longrightarrow>
                diff_attribute x s item k old = Inr None))
        \<longrightarrow> diff x s self_data vals = Inr None"
  proof
    assume a: "mixer_uuid x (world s) ` set vals = fst ` set self_data
         \<and> (\<forall>k item old. map_of (blender_items x (world s) vals) k = Some item \<and> map_of self_data k = Some old \<longrightarrow>
                diff_attribute x s item k old = Inr None)"
    show "diff x s self_data vals = Inr None"
      by (rule diff_no_change [OF dist conjunct1 [OF a] conjunct2 [OF a]])
  qed
next
  show "\<forall>res. diff x s self_data vals = Inr res \<longrightarrow>
         (\<exists>d. distinct (map fst d)
      \<and> res = (if d = [] then None else Some (DeltaUpdate (RefCollectionProxy d)))
      \<and> (\<forall>k. (\<exists>v. map_of d k = Some (Delta (DeltaAddition v)))
              \<longleftrightarrow> (k \<in> mixer_uuid x (world s) ` set vals \<and> map_of self_data k = None))
      \<and> (\<forall>k. k \<in> mixer_uuid x (world s) ` set vals \<and> map_of self_data k = None \<longrightarrow>
              (\<exists>item v. map_of (blender_items x (world s) vals) k = Some item
                 \<and> read_attribute x s item k = Inr v \<and> map_of d k = Some (Delta (DeltaAddition v))))
      \<and> (\<forall>k. (\<exists>v. map_of d k = Some (Delta (DeltaDeletion v)))
              \<longleftrightarrow> (k \<notin> mixer_uuid x (world s) ` set vals \<and> map_of self_data k \<noteq> None))
      \<and> (\<forall>k old. k \<notin> mixer_uuid x (world s) ` set vals \<and> map_of self_data k = Some old \<longrightarrow>
              map_of d k = Some (Delta (DeltaDeletion old)))
      \<and> (\<forall>k item old. map_of (blender_items x (world s) vals) k = Some item \<and> map_of self_data k = Some old \<longrightarrow>
              diff_attribute x s item k old = Inr (map_of d k)
              \<and> (map_of d k = None \<or> (\<exists>v. map_of d k = Some (Delta (DeltaUpdate v)))))
      \<and> (\<forall>k. k \<notin> mixer_uuid x (world s) ` set vals \<and> map_of self_data k = None \<longrightarrow> map_of d k = None)
      \<and> (res = None \<longleftrightarrow>
            (mixer_uuid x (world s) ` set vals = fst ` set self_data
             \<and> (\<forall>k item old. map_of (blender_items x (world s) vals) k = Some item \<and> map_of self_data k = Some old \<longrightarrow>
                    diff_attribute x s item k old = Inr None))))"
    by (intro allI impI) (rule diff_Inr_member_deltas [OF dist])
qed

lemma synced_keys: "mixer_uuid example_externals (world example_state) ` set [1, 2] = fst ` set synced_proxy"
  by (auto simp: example_externals_def synced_proxy_def)

theorem diff_member_deltas_witness:
  "distinct (map fst example_proxy)
   \<and> diff example_externals example_state example_proxy [1, 2]
       = Inr (Some (DeltaUpdate (RefCollectionProxy example_delta)))
   \<and> (\<exists>d. distinct (map fst d)
          \<and> Some (DeltaUpdate (RefCollectionProxy example_delta))
              = (if d = [] then None else Some (DeltaUpdate (RefCollectionProxy d)))
          \<and> (\<exists>v. map_of d ''b'' = Some (Delta (DeltaAddition v)))
          \<and> map_of d ''a'' = Some (Delta (DeltaDeletion (RefProxy \<lparr>ref_datablock_uuid = ''a'', ref_debug_name = ''A''\<rparr>)))
          \<and> map_of d ''c'' = None)
   \<and> distinct (map fst synced_proxy)
   \<and> mixer_uuid example_externals (world example_state) ` set [1, 2] = fst ` set synced_proxy
   \<and> diff example_externals example_state synced_proxy [1, 2] = Inr None"
proof -
  have h1: "distinct (map fst example_proxy)" by (simp add: example_proxy_def)
  have h2: "diff example_externals example_state example_proxy [1, 2]
       = Inr (Some (DeltaUpdate (RefCollectionProxy example_delta)))" by (rule example_diff)
  from diff_member_deltas [OF h1, THEN conjunct2, THEN conjunct2, THEN spec, THEN mp, OF h2]
  have "\<exists>d. distinct (map fst d)
      \<and> Some (DeltaUpdate (RefCollectionProxy example_delta))
          = (if d = [] then None else Some (DeltaUpdate (RefCollectionProxy d)))"
    apply (elim exE conjE)
    apply (rule exI)
    apply (rule conjI)
     apply assumption
    apply assumption
    done
  then obtain d where d1: "distinct (map fst d)"
    and d2: "Some (DeltaUpdate (RefCollectionProxy example_delta))
       = (if d = [] then None else Some (DeltaUpdate (RefCollectionProxy d)))"
    by blast
  have e: "d = example_delta" using d2 by (cases "d = []") simp_all
  have m: "(\<exists>v. map_of example_delta ''b'' = Some (Delta (DeltaAddition v)))
          \<and> map_of example_delta ''a'' = Some (Delta (DeltaDeletion (RefProxy \<lparr>ref_datablock_uuid = ''a'', ref_debug_name = ''A''\<rparr>)))
          \<and> map_of example_delta ''c'' = None"
    by (simp add: example_delta_def)
  have body: "distinct (map fst d)
          \<and> Some (DeltaUpdate (RefCollectionProxy example_delta))
              = (if d = [] then None else Some (DeltaUpdate (RefCollectionProxy d)))
          \<and> (\<exists>v. map_of d ''b'' = Some (Delta (DeltaAddition v)))
          \<and> map_of d ''a'' = Some (Delta (DeltaDeletion (RefProxy \<lparr>ref_datablock_uuid = ''a'', ref_debug_name = ''A''\<rparr>)))
          \<and> map_of d ''c'' = None"
    using d1 d2 m unfolding e by blast
  have ex: "\<exists>d. distinct (map fst d)
          \<and> Some (DeltaUpdate (RefCollectionProxy example_delta))
              = (if d = [] then None else Some (DeltaUpdate (RefCollectionProxy d)))
          \<and> (\<exists>v. map_of d ''b'' = Some (Delta (DeltaAddition v)))
          \<and> map_of d ''a'' = Some (Delta (DeltaDeletion (RefProxy \<lparr>ref_datablock_uuid = ''a'', ref_debug_name = ''A''\<rparr>)))
          \<and> map_of d ''c'' = None"
    by (rule exI [of _ d]) (rule body)
  have g1: "distinct (map fst synced_proxy)" by (simp add: synced_proxy_def)
  have g2: "mixer_uuid example_externals (world example_state) ` set [1, 2] = fst ` set synced_proxy"
    by (rule synced_keys)
  have g3: "\<forall>k item old. map_of (blender_items example_externals (world example_state) [1, 2]) k = Some item
                \<and> map_of synced_proxy k = Some old \<longrightarrow>
              diff_attribute example_externals example_state item k old = Inr None"
    by (simp add: example_externals_def)
  have g4: "diff example_externals example_state synced_proxy [1, 2] = Inr None"
    by (rule diff_member_deltas [OF g1, THEN conjunct2, THEN conjunct1, THEN mp, OF conjI [OF g2 g3]])
  show ?thesis
    apply (rule conjI)
     apply (rule h1)
    apply (rule conjI)
     apply (rule h2)
    apply (rule conjI)
     apply (rule ex)
    apply (rule conjI)
     apply (rule g1)
    apply (rule conjI)
     apply (rule g2)
    apply (rule g4)
    done
qed

section \<open>Applying a delta\<close>

lemma apply_members_append:
  "apply_members x tb c (xs @ ys) sd s =
     (case apply_members x tb c xs sd s of (sd1, s1) \<Rightarrow> apply_members x tb c ys sd1 s1)"
proof (induction xs arbitrary: sd s)
  case Nil
  then show ?case by simp
next
  case (Cons m xs)
  obtain k rd where m: "m = (k, rd)" by (cases m)
  obtain r sd' s' where a: "apply_member x tb c k rd sd s = (r, sd', s')"
    by (cases "apply_member x tb c k rd sd s") auto
  show ?case using Cons.IH m a by (cases r) simp_all
qed

lemma link_or_unlink_datablocks:
  "link_or_unlink x c dl r s = (e, s') \<Longrightarrow> datablocks s' = datablocks s"
  by (auto simp: link_or_unlink_def Let_def logger_def split: if_splits option.splits prod.splits)

lemma apply_member_raises_keeps_data:
  "apply_member x tb c k rd sd s = (Some e, sd', s') \<Longrightarrow> sd' = sd"
  by (auto simp: apply_member_def split: pvalue.splits if_splits option.splits prod.splits)

lemma apply_member_datablocks:
  "apply_member x tb c k rd sd s = (r, sd', s') \<Longrightarrow> datablocks s' = datablocks s"
  by (auto simp: apply_member_def logger_def split: pvalue.splits if_splits option.splits prod.splits
      dest: link_or_unlink_datablocks)

lemma log_update_ignored_datablocks: "datablocks (log_update_ignored s) = datablocks s"
  by (simp add: log_update_ignored_def logger_def)

lemma apply_members_datablocks:
  "apply_members x tb c ms sd s = (sd', s') \<Longrightarrow> datablocks s' = datablocks s"
proof (induction ms arbitrary: sd s)
  case Nil
  then show ?case by simp
next
  case (Cons m ms)
  obtain k rd where m: "m = (k, rd)" by (cases m)
  obtain r sd1 s1 where a: "apply_member x tb c k rd sd s = (r, sd1, s1)"
    by (cases "apply_member x tb c k rd sd s") auto
  have d1: "datablocks s1 = datablocks s" using a by (rule apply_member_datablocks)
  show ?case
  proof (cases r)
    case None
    with Cons.prems m a have "apply_members x tb c ms sd1 s1 = (sd', s')" by simp
    from Cons.IH [OF this] d1 show ?thesis by simp
  next
    case (Some e)
    with Cons.prems m a have "apply_members x tb c ms sd1 (log_update_ignored s1) = (sd', s')" by simp
    from Cons.IH [OF this] d1 show ?thesis by (simp add: log_update_ignored_datablocks)
  qed
qed

lemma apply_member_other_key:
  "apply_member x tb c k rd sd s = (r, sd', s') \<Longrightarrow> k' \<noteq> k \<Longrightarrow> map_of sd' k' = map_of sd k'"
  by (auto simp: apply_member_def update_conv' delete_conv' split: pvalue.splits if_splits option.splits prod.splits)

lemma apply_members_other_key:
  "apply_members x tb c ms sd s = (sd', s') \<Longrightarrow> k' \<notin> fst ` set ms \<Longrightarrow> map_of sd' k' = map_of sd k'"
proof (induction ms arbitrary: sd s)
  case Nil
  then show ?case by simp
next
  case (Cons m ms)
  obtain k rd where m: "m = (k, rd)" by (cases m)
  obtain r sd1 s1 where a: "apply_member x tb c k rd sd s = (r, sd1, s1)"
    by (cases "apply_member x tb c k rd sd s") auto
  have ne: "k' \<noteq> k" and nin: "k' \<notin> fst ` set ms" using Cons.prems m by auto
  have d1: "map_of sd1 k' = map_of sd k'" using a ne by (rule apply_member_other_key)
  show ?case
  proof (cases r)
    case None
    with Cons.prems m a have "apply_members x tb c ms sd1 s1 = (sd', s')" by simp
    from Cons.IH [OF this nin] d1 show ?thesis by simp
  next
    case (Some e)
    with Cons.prems m a have "apply_members x tb c ms sd1 (log_update_ignored s1) = (sd', s')" by simp
    from Cons.IH [OF this nin] d1 show ?thesis by simp
  qed
qed

lemma apply_delta_members:
  "getattr_collection x (world s) parent key = Some c \<Longrightarrow>
   apply_delta x parent key (Some (DeltaUpdate (RefCollectionProxy ms))) tb sd s
     = Inr (apply_members x tb c ms sd s)"
  by (simp add: apply_delta_def)

lemma apply_member_link_raises:
  assumes "to_blender"
    and "registry_get (datablocks s1) (ref_datablock_uuid r) = Some db"
    and "link x c db (world s1) = (Some e, w')"
  shows "apply_member x to_blender c k (Delta (DeltaAddition (RefProxy r))) sd1 s1 = (Some e, sd1, s1\<lparr>world := w'\<rparr>)"
  using assms by (simp add: apply_member_def link_or_unlink_def Let_def)

lemma apply_member_unlink_raises:
  assumes "to_blender"
    and "registry_get (datablocks s1) (ref_datablock_uuid r) = Some db"
    and "unlink x c db (world s1) = (Some e, w')"
  shows "apply_member x to_blender c k (Delta (DeltaDeletion (RefProxy r))) sd1 s1 = (Some e, sd1, s1\<lparr>world := w'\<rparr>)"
  using assms by (simp add: apply_member_def link_or_unlink_def Let_def)

lemma apply_member_del_raises:
  assumes "map_of sd1 k = None"
    and "\<not> to_blender \<or> registry_get (datablocks s1) (ref_datablock_uuid r) = None"
  shows "apply_member x to_blender c k (Delta (DeltaDeletion (RefProxy r))) sd1 s1 = (Some KeyError, sd1, s1)"
  using assms by (auto simp: apply_member_def link_or_unlink_def Let_def)

lemma apply_member_del_raises_unlinked:
  assumes "map_of sd1 k = None"
    and "to_blender"
    and "registry_get (datablocks s1) (ref_datablock_uuid r) = Some db"
    and "unlink x c db (world s1) = (None, w')"
  shows "apply_member x to_blender c k (Delta (DeltaDeletion (RefProxy r))) sd1 s1
           = (Some KeyError, sd1, s1\<lparr>world := w'\<rparr>)"
  using assms by (simp add: apply_member_def link_or_unlink_def Let_def)

lemma apply_delta_skips:
  assumes coll: "getattr_collection x (world s) parent key = Some c"
    and pre: "apply_members x to_blender c pre self_data s = (sd1, s1)"
    and raised: "apply_member x to_blender c k ref_delta sd1 s1 = (Some e, sd2, s2)"
  shows "sd2 = sd1
    \<and> apply_delta x parent key (Some (DeltaUpdate (RefCollectionProxy (pre @ (k, ref_delta) # post))))
          to_blender self_data s
        = Inr (apply_members x to_blender c post sd1 (log_update_ignored s2))"
proof -
  have a: "sd2 = sd1" using raised by (rule apply_member_raises_keeps_data)
  have "apply_members x to_blender c (pre @ (k, ref_delta) # post) self_data s
          = apply_members x to_blender c ((k, ref_delta) # post) sd1 s1"
    using pre by (simp add: apply_members_append)
  also have "\<dots> = apply_members x to_blender c post sd1 (log_update_ignored s2)"
    using raised a by simp
  finally have c: "apply_delta x parent key (Some (DeltaUpdate (RefCollectionProxy (pre @ (k, ref_delta) # post))))
          to_blender self_data s
        = Inr (apply_members x to_blender c post sd1 (log_update_ignored s2))"
    using coll by (simp add: apply_delta_members)
  from a c show ?thesis by (intro conjI)
qed

lemma log_update_ignored_log:
  "log (log_update_ignored s) = log s @
          [(WARNING, ''DatablockCollectionProxy.apply(). Processing''), (WARNING, ''... for''),
           (WARNING, ''... Exception''), (WARNING, ''... Update ignored'')]"
  by (simp add: log_update_ignored_def logger_def)

lemma apply_member_raises_cause:
  assumes "apply_member x to_blender c k ref_delta sd1 s1 = (Some e, sd2, s2)"
  shows "\<exists>r. (ref_delta = Delta (DeltaAddition (RefProxy r)) \<and> to_blender
               \<and> (\<exists>db w'. registry_get (datablocks s1) (ref_datablock_uuid r) = Some db
                     \<and> link x c db (world s1) = (Some e, w')))
           \<or> (ref_delta = Delta (DeltaDeletion (RefProxy r))
               \<and> ((to_blender \<and> (\<exists>db w'. registry_get (datablocks s1) (ref_datablock_uuid r) = Some db
                     \<and> unlink x c db (world s1) = (Some e, w')))
                  \<or> (e = KeyError \<and> map_of sd1 k = None)))"
proof (cases ref_delta)
  case (Delta dl)
  show ?thesis
  proof (cases dl)
    case (DeltaAddition v)
    with assms Delta show ?thesis
      by (cases v) (auto simp: apply_member_def link_or_unlink_def Let_def split: if_splits option.splits prod.splits)
  next
    case (DeltaDeletion v)
    with assms Delta show ?thesis
      by (cases v) (auto simp: apply_member_def link_or_unlink_def Let_def split: if_splits option.splits prod.splits)
  next
    case (DeltaUpdate v)
    with assms Delta show ?thesis by (simp add: apply_member_def)
  qed
qed (use assms in \<open>simp_all add: apply_member_def\<close>)

text \<open>
  Claim C4. In \<^verbatim>\<open>DatablockRefCollectionProxy.apply\<close>, in the state the members before it
  have left, a member is skipped and the batch goes on whenever its processing raises:
  when \<^verbatim>\<open>collection.link\<close> raises for an addition, when \<^verbatim>\<open>collection.unlink\<close> raises for a
  deletion, and when \<^verbatim>\<open>del self._data[k]\<close> finds no key \<open>k\<close> (with \<^verbatim>\<open>to_blender\<close> off, with
  no registered datablock, or after an \<^verbatim>\<open>unlink\<close> that succeeded). In each case \<^verbatim>\<open>apply\<close>
  returns what the members after it make of the snapshot as it was before the member, in
  the state the failing call left with four warnings logged. The same holds for whatever
  exception leaves the \<^verbatim>\<open>try\<close> block, and such an exception comes from one of these three
  calls. \<^verbatim>\<open>apply\<close> returns normally on every batch.
\<close>

theorem apply_member_exception_is_skipped:
  assumes coll: "getattr_collection x (world s) parent key = Some c"
    and pre: "apply_members x to_blender c pre self_data s = (sd1, s1)"
  shows
   "(to_blender \<and> registry_get (datablocks s1) (ref_datablock_uuid r) = Some db
       \<and> link x c db (world s1) = (Some e, w') \<longrightarrow>
       apply_delta x parent key
           (Some (DeltaUpdate (RefCollectionProxy (pre @ (k, Delta (DeltaAddition (RefProxy r))) # post))))
           to_blender self_data s
         = Inr (apply_members x to_blender c post sd1 (log_update_ignored (s1\<lparr>world := w'\<rparr>))))
    \<and> (to_blender \<and> registry_get (datablocks s1) (ref_datablock_uuid r) = Some db
       \<and> unlink x c db (world s1) = (Some e, w') \<longrightarrow>
       apply_delta x parent key
           (Some (DeltaUpdate (RefCollectionProxy (pre @ (k, Delta (DeltaDeletion (RefProxy r))) # post))))
           to_blender self_data s
         = Inr (apply_members x to_blender c post sd1 (log_update_ignored (s1\<lparr>world := w'\<rparr>))))
    \<and> (map_of sd1 k = None
       \<and> (\<not> to_blender \<or> registry_get (datablocks s1) (ref_datablock_uuid r) = None) \<longrightarrow>
       apply_delta x parent key
           (Some (DeltaUpdate (RefCollectionProxy (pre @ (k, Delta (DeltaDeletion (RefProxy r))) # post))))
           to_blender self_data s
         = Inr (apply_members x to_blender c post sd1 (log_update_ignored s1)))
    \<and> (map_of sd1 k = None \<and> to_blender
       \<and> registry_get (datablocks s1) (ref_datablock_uuid r) = Some db
       \<and> unlink x c db (world s1) = (None, w') \<longrightarrow>
       apply_delta x parent key
           (Some (DeltaUpdate (RefCollectionProxy (pre @ (k, Delta (DeltaDeletion (RefProxy r))) # post))))
           to_blender self_data s
         = Inr (apply_members x to_blender c post sd1 (log_update_ignored (s1\<lparr>world := w'\<rparr>))))
    \<and> (apply_member x to_blender c k ref_delta sd1 s1 = (Some e, sd2, s2) \<longrightarrow>
       sd2 = sd1
       \<and> apply_delta x parent key (Some (DeltaUpdate (RefCollectionProxy (pre @ (k, ref_delta) # post))))
           to_blender self_data s
         = Inr (apply_members x to_blender c post sd1 (log_update_ignored s2))
       \<and> (\<exists>r'. (ref_delta = Delta (DeltaAddition (RefProxy r')) \<and> to_blender
                  \<and> (\<exists>db' w. registry_get (datablocks s1) (ref_datablock_uuid r') = Some db'
                        \<and> link x c db' (world s1) = (Some e, w)))
               \<or> (ref_delta = Delta (DeltaDeletion (RefProxy r'))
                  \<and> ((to_blender \<and> (\<exists>db' w. registry_get (datablocks s1) (ref_datablock_uuid r') = Some db'
                        \<and> unlink x c db' (world s1) = (Some e, w)))
                     \<or> (e = KeyError \<and> map_of sd1 k = None)))))
    \<and> log (log_update_ignored s3) = log s3 @
          [(WARNING, ''DatablockCollectionProxy.apply(). Processing''), (WARNING, ''... for''),
           (WARNING, ''... Exception''), (WARNING, ''... Update ignored'')]
    \<and> (\<exists>res. apply_delta x parent key (Some (DeltaUpdate (RefCollectionProxy members)))
                 to_blender self_data s = Inr res)"
proof -
  have c1: "to_blender \<and> registry_get (datablocks s1) (ref_datablock_uuid r) = Some db
       \<and> link x c db (world s1) = (Some e, w') \<longrightarrow>
       apply_delta x parent key
           (Some (DeltaUpdate (RefCollectionProxy (pre @ (k, Delta (DeltaAddition (RefProxy r))) # post))))
           to_blender self_data s
         = Inr (apply_members x to_blender c post sd1 (log_update_ignored (s1\<lparr>world := w'\<rparr>)))"
  proof
    assume a: "to_blender \<and> registry_get (datablocks s1) (ref_datablock_uuid r) = Some db
       \<and> link x c db (world s1) = (Some e, w')"
    then have "apply_member x to_blender c k (Delta (DeltaAddition (RefProxy r))) sd1 s1
                 = (Some e, sd1, s1\<lparr>world := w'\<rparr>)"
      by (simp add: apply_member_link_raises)
    from apply_delta_skips [OF coll pre this]
    show "apply_delta x parent key
           (Some (DeltaUpdate (RefCollectionProxy (pre @ (k, Delta (DeltaAddition (RefProxy r))) # post))))
           to_blender self_data s
         = Inr (apply_members x to_blender c post sd1 (log_update_ignored (s1\<lparr>world := w'\<rparr>)))"
      by (rule conjunct2)
  qed
  have c2: "to_blender \<and> registry_get (datablocks s1) (ref_datablock_uuid r) = Some db
       \<and> unlink x c db (world s1) = (Some e, w') \<longrightarrow>
       apply_delta x parent key
           (Some (DeltaUpdate (RefCollectionProxy (pre @ (k, Delta (DeltaDeletion (RefProxy r))) # post))))
           to_blender self_data s
         = Inr (apply_members x to_blender c post sd1 (log_update_ignored (s1\<lparr>world := w'\<rparr>)))"
  proof
    assume a: "to_blender \<and> registry_get (datablocks s1) (ref_datablock_uuid r) = Some db
       \<and> unlink x c db (world s1) = (Some e, w')"
    then have "apply_member x to_blender c k (Delta (DeltaDeletion (RefProxy r))) sd1 s1
                 = (Some e, sd1, s1\<lparr>world := w'\<rparr>)"
      by (simp add: apply_member_unlink_raises)
    from apply_delta_skips [OF coll pre this]
    show "apply_delta x parent key
           (Some (DeltaUpdate (RefCollectionProxy (pre @ (k, Delta (DeltaDeletion (RefProxy r))) # post))))
           to_blender self_data s
         = Inr (apply_members x to_blender c post sd1 (log_update_ignored (s1\<lparr>world := w'\<rparr>)))"
      by (rule conjunct2)
  qed
  have c3: "map_of sd1 k = None
       \<and> (\<not> to_blender \<or> registry_get (datablocks s1) (ref_datablock_uuid r) = None) \<longrightarrow>
       apply_delta x parent key
           (Some (DeltaUpdate (RefCollectionProxy (pre @ (k, Delta (DeltaDeletion (RefProxy r))) # post))))
           to_blender self_data s
         = Inr (apply_members x to_blender c post sd1 (log_update_ignored s1))"
  proof
    assume a: "map_of sd1 k = None
       \<and> (\<not> to_blender \<or> registry_get (datablocks s1) (ref_datablock_uuid r) = None)"
    have "apply_member x to_blender c k (Delta (DeltaDeletion (RefProxy r))) sd1 s1 = (Some KeyError, sd1, s1)"
      by (rule apply_member_del_raises [OF conjunct1 [OF a] conjunct2 [OF a]])
    from apply_delta_skips [OF coll pre this]
    show "apply_delta x parent key
           (Some (DeltaUpdate (RefCollectionProxy (pre @ (k, Delta (DeltaDeletion (RefProxy r))) # post))))
           to_blender self_data s
         = Inr (apply_members x to_blender c post sd1 (log_update_ignored s1))"
      by (rule conjunct2)
  qed
  have c4: "map_of sd1 k = None \<and> to_blender
       \<and> registry_get (datablocks s1) (ref_datablock_uuid r) = Some db
       \<and> unlink x c db (world s1) = (None, w') \<longrightarrow>
       apply_delta x parent key
           (Some (DeltaUpdate (RefCollectionProxy (pre @ (k, Delta (DeltaDeletion (RefProxy r))) # post))))
           to_blender self_data s
         = Inr (apply_members x to_blender c post sd1 (log_update_ignored (s1\<lparr>world := w'\<rparr>)))"
  proof
    assume a: "map_of sd1 k = None \<and> to_blender
       \<and> registry_get (datablocks s1) (ref_datablock_uuid r) = Some db
       \<and> unlink x c db (world s1) = (None, w')"
    then have "apply_member x to_blender c k (Delta (DeltaDeletion (RefProxy r))) sd1 s1
                 = (Some KeyError, sd1, s1\<lparr>world := w'\<rparr>)"
      by (simp add: apply_member_del_raises_unlinked)
    from apply_delta_skips [OF coll pre this]
    show "apply_delta x parent key
           (Some (DeltaUpdate (RefCollectionProxy (pre @ (k, Delta (DeltaDeletion (RefProxy r))) # post))))
           to_blender self_data s
         = Inr (apply_members x to_blender c post sd1 (log_update_ignored (s1\<lparr>world := w'\<rparr>)))"
      by (rule conjunct2)
  qed
  have c5: "apply_member x to_blender c k ref_delta sd1 s1 = (Some e, sd2, s2) \<longrightarrow>
       sd2 = sd1
       \<and> apply_delta x parent key (Some (DeltaUpdate (RefCollectionProxy (pre @ (k, ref_delta) # post))))
           to_blender self_data s
         = Inr (apply_members x to_blender c post sd1 (log_update_ignored s2))
       \<and> (\<exists>r'. (ref_delta = Delta (DeltaAddition (RefProxy r')) \<and> to_blender
                  \<and> (\<exists>db' w. registry_get (datablocks s1) (ref_datablock_uuid r') = Some db'
                        \<and> link x c db' (world s1) = (Some e, w)))
               \<or> (ref_delta = Delta (DeltaDeletion (RefProxy r'))
                  \<and> ((to_blender \<and> (\<exists>db' w. registry_get (datablocks s1) (ref_datablock_uuid r') = Some db'
                        \<and> unlink x c db' (world s1) = (Some e, w)))
                     \<or> (e = KeyError \<and> map_of sd1 k = None))))"
  proof
    assume f: "apply_member x to_blender c k ref_delta sd1 s1 = (Some e, sd2, s2)"
    from apply_delta_skips [OF coll pre f]
    have p: "sd2 = sd1"
      and q: "apply_delta x parent key (Some (DeltaUpdate (RefCollectionProxy (pre @ (k, ref_delta) # post))))
           to_blender self_data s
         = Inr (apply_members x to_blender c post sd1 (log_update_ignored s2))" by simp_all
    from p q apply_member_raises_cause [OF f]
    show "sd2 = sd1
       \<and> apply_delta x parent key (Some (DeltaUpdate (RefCollectionProxy (pre @ (k, ref_delta) # post))))
           to_blender self_data s
         = Inr (apply_members x to_blender c post sd1 (log_update_ignored s2))
       \<and> (\<exists>r'. (ref_delta = Delta (DeltaAddition (RefProxy r')) \<and> to_blender
                  \<and> (\<exists>db' w. registry_get (datablocks s1) (ref_datablock_uuid r') = Some db'
                        \<and> link x c db' (world s1) = (Some e, w)))
               \<or> (ref_delta = Delta (DeltaDeletion (RefProxy r'))
                  \<and> ((to_blender \<and> (\<exists>db' w. registry_get (datablocks s1) (ref_datablock_uuid r') = Some db'
                        \<and> unlink x c db' (world s1) = (Some e, w)))
                     \<or> (e = KeyError \<and> map_of sd1 k = None))))"
      by (intro conjI)
  qed
  have c6: "log (log_update_ignored s3) = log s3 @
          [(WARNING, ''DatablockCollectionProxy.apply(). Processing''), (WARNING, ''... for''),
           (WARNING, ''... Exception''), (WARNING, ''... Update ignored'')]"
    by (rule log_update_ignored_log)
  have c7: "\<exists>res. apply_delta x parent key (Some (DeltaUpdate (RefCollectionProxy members)))
                 to_blender self_data s = Inr res"
    using coll by (simp add: apply_delta_members)
  from c1 c2 c3 c4 c5 c6 c7 show ?thesis by (intro conjI)
qed

text \<open>
  Claim C10. With \<^verbatim>\<open>to_blender\<close>, a \<^verbatim>\<open>DeltaAddition\<close> of a reference whose uuid has no live
  datablock in the registry logs a warning and calls neither \<^verbatim>\<open>link\<close> nor \<^verbatim>\<open>unlink\<close> (the
  world is unchanged), and stores the reference in the snapshot under the key of the
  member: when \<^verbatim>\<open>apply\<close> returns, the snapshot holds it there.
\<close>

theorem apply_addition_of_unregistered_uuid:
  assumes coll: "getattr_collection x (world s) parent key = Some c"
    and dist: "distinct (map fst (pre @ (k, Delta (DeltaAddition (RefProxy r))) # post))"
    and unreg: "registry_get (datablocks s) (ref_datablock_uuid r) = None"
    and pre: "apply_members x True c pre self_data s = (sd1, s1)"
    and res: "apply_delta x parent key
                (Some (DeltaUpdate (RefCollectionProxy (pre @ (k, Delta (DeltaAddition (RefProxy r))) # post))))
                True self_data s = Inr (sd', s')"
  shows "apply_member x True c k (Delta (DeltaAddition (RefProxy r))) sd1 s1
           = (None, AList.update k (RefProxy r) sd1, logger WARNING ''delta apply add: unregistered uuid'' s1)
    \<and> world (logger WARNING ''delta apply add: unregistered uuid'' s1) = world s1
    \<and> map_of sd' k = Some (RefProxy r)"
proof -
  let ?s2 = "logger WARNING ''delta apply add: unregistered uuid'' s1"
  have "datablocks s1 = datablocks s" using pre by (rule apply_members_datablocks)
  with unreg have u1: "registry_get (datablocks s1) (ref_datablock_uuid r) = None" by simp
  have step: "apply_member x True c k (Delta (DeltaAddition (RefProxy r))) sd1 s1
           = (None, AList.update k (RefProxy r) sd1, ?s2)"
    using u1 by (simp add: apply_member_def link_or_unlink_def Let_def)
  have w: "world ?s2 = world s1" by (simp add: logger_def)
  have "apply_members x True c (pre @ (k, Delta (DeltaAddition (RefProxy r))) # post) self_data s
          = apply_members x True c post (AList.update k (RefProxy r) sd1) ?s2"
    using pre step by (simp add: apply_members_append)
  with res coll have post: "apply_members x True c post (AList.update k (RefProxy r) sd1) ?s2 = (sd', s')"
    by (simp add: apply_delta_members)
  have "k \<notin> fst ` set post" using dist by auto
  with post have "map_of sd' k = map_of (AList.update k (RefProxy r) sd1) k"
    by (rule apply_members_other_key)
  then have m: "map_of sd' k = Some (RefProxy r)" by (simp add: update_conv')
  from step w m show ?thesis by (intro conjI)
qed

theorem apply_member_exception_is_skipped_witness:
  "getattr_collection refusing_externals (world registered_state) 0 ''objects'' = Some 0
   \<and> registry_get (datablocks registered_state) (ref_datablock_uuid ref_b) = Some 1
   \<and> link refusing_externals 0 1 (world registered_state) = (Some RuntimeError, ())
   \<and> apply_delta refusing_externals 0 ''objects''
         (Some (DeltaUpdate (RefCollectionProxy
            [(''b'', Delta (DeltaAddition (RefProxy ref_b))),
             (''d'', Delta (DeltaAddition (RefProxy ref_d)))])))
         True example_proxy registered_state
       = Inr (example_proxy @ [(''d'', RefProxy ref_d)],
              logger WARNING ''delta apply add: unregistered uuid'' (log_update_ignored registered_state))
   \<and> registry_get (datablocks registered_state) (ref_datablock_uuid ref_a) = Some 3
   \<and> unlink refusing_externals 0 3 (world registered_state) = (Some ReferenceError, ())
   \<and> apply_delta refusing_externals 0 ''objects''
         (Some (DeltaUpdate (RefCollectionProxy
            [(''a'', Delta (DeltaDeletion (RefProxy ref_a))),
             (''d'', Delta (DeltaAddition (RefProxy ref_d)))])))
         True example_proxy registered_state
       = Inr (example_proxy @ [(''d'', RefProxy ref_d)],
              logger WARNING ''delta apply add: unregistered uuid'' (log_update_ignored registered_state))
   \<and> apply_members example_externals False 0 [(''b'', Delta (DeltaAddition (RefProxy ref_b)))]
         example_proxy example_state
       = (example_proxy @ [(''b'', RefProxy ref_b)], example_state)
   \<and> map_of (example_proxy @ [(''b'', RefProxy ref_b)]) ''zz'' = None
   \<and> apply_delta example_externals 0 ''objects''
         (Some (DeltaUpdate (RefCollectionProxy
            [(''b'', Delta (DeltaAddition (RefProxy ref_b))),
             (''zz'', Delta (DeltaDeletion (RefProxy ref_d))),
             (''d'', Delta (DeltaAddition (RefProxy ref_d)))])))
         False example_proxy example_state
       = Inr (example_proxy @ [(''b'', RefProxy ref_b), (''d'', RefProxy ref_d)],
              log_update_ignored example_state)"
proof -
  have w: "registered_state\<lparr>world := ()\<rparr> = registered_state" by simp
  have h1: "getattr_collection refusing_externals (world registered_state) 0 ''objects'' = Some 0"
    by (simp add: refusing_externals_def example_externals_def)
  have h2: "apply_members refusing_externals True 0 [] example_proxy registered_state
              = (example_proxy, registered_state)" by simp
  have l1: "registry_get (datablocks registered_state) (ref_datablock_uuid ref_b) = Some 1"
    by (simp add: registry_get_def registered_state_def ref_b_def)
  have l2: "link refusing_externals 0 1 (world registered_state) = (Some RuntimeError, ())"
    by (simp add: refusing_externals_def)
  have post: "apply_members refusing_externals True 0 [(''d'', Delta (DeltaAddition (RefProxy ref_d)))]
         example_proxy (log_update_ignored registered_state)
       = (example_proxy @ [(''d'', RefProxy ref_d)],
          logger WARNING ''delta apply add: unregistered uuid'' (log_update_ignored registered_state))"
    by (simp add: apply_member_def link_or_unlink_def registry_get_def Let_def example_proxy_def
        registered_state_def example_state_def ref_d_def log_update_ignored_def logger_def)
  have a: "apply_delta refusing_externals 0 ''objects''
         (Some (DeltaUpdate (RefCollectionProxy
            [(''b'', Delta (DeltaAddition (RefProxy ref_b))),
             (''d'', Delta (DeltaAddition (RefProxy ref_d)))])))
         True example_proxy registered_state
       = Inr (apply_members refusing_externals True 0 [(''d'', Delta (DeltaAddition (RefProxy ref_d)))]
         example_proxy (log_update_ignored registered_state))"
    using apply_member_exception_is_skipped [OF h1 h2, THEN conjunct1, THEN mp,
        of ref_b 1 RuntimeError "()" "''b''" "[(''d'', Delta (DeltaAddition (RefProxy ref_d)))]"] l1 l2
    by (simp only: append_Cons append_Nil w simp_thms)
  have r1: "apply_delta refusing_externals 0 ''objects''
         (Some (DeltaUpdate (RefCollectionProxy
            [(''b'', Delta (DeltaAddition (RefProxy ref_b))),
             (''d'', Delta (DeltaAddition (RefProxy ref_d)))])))
         True example_proxy registered_state
       = Inr (example_proxy @ [(''d'', RefProxy ref_d)],
              logger WARNING ''delta apply add: unregistered uuid'' (log_update_ignored registered_state))"
    by (simp only: a post)
  have u1: "registry_get (datablocks registered_state) (ref_datablock_uuid ref_a) = Some 3"
    by (simp add: registry_get_def registered_state_def ref_a_def)
  have u2: "unlink refusing_externals 0 3 (world registered_state) = (Some ReferenceError, ())"
    by (simp add: refusing_externals_def)
  have b: "apply_delta refusing_externals 0 ''objects''
         (Some (DeltaUpdate (RefCollectionProxy
            [(''a'', Delta (DeltaDeletion (RefProxy ref_a))),
             (''d'', Delta (DeltaAddition (RefProxy ref_d)))])))
         True example_proxy registered_state
       = Inr (apply_members refusing_externals True 0 [(''d'', Delta (DeltaAddition (RefProxy ref_d)))]
         example_proxy (log_update_ignored registered_state))"
    using apply_member_exception_is_skipped [OF h1 h2, THEN conjunct2, THEN conjunct1, THEN mp,
        of ref_a 3 ReferenceError "()" "''a''" "[(''d'', Delta (DeltaAddition (RefProxy ref_d)))]"] u1 u2
    by (simp only: append_Cons append_Nil w simp_thms)
  have r2: "apply_delta refusing_externals 0 ''objects''
         (Some (DeltaUpdate (RefCollectionProxy
            [(''a'', Delta (DeltaDeletion (RefProxy ref_a))),
             (''d'', Delta (DeltaAddition (RefProxy ref_d)))])))
         True example_proxy registered_state
       = Inr (example_proxy @ [(''d'', RefProxy ref_d)],
              logger WARNING ''delta apply add: unregistered uuid'' (log_update_ignored registered_state))"
    by (simp only: b post)
  have k1: "getattr_collection example_externals (world example_state) 0 ''objects'' = Some 0"
    by (simp add: example_externals_def)
  have k2: "apply_members example_externals False 0 [(''b'', Delta (DeltaAddition (RefProxy ref_b)))]
         example_proxy example_state
       = (example_proxy @ [(''b'', RefProxy ref_b)], example_state)"
    by (simp add: apply_member_def example_proxy_def)
  have k3: "map_of (example_proxy @ [(''b'', RefProxy ref_b)]) ''zz'' = None"
    by (simp add: example_proxy_def)
  have post3: "apply_members example_externals False 0 [(''d'', Delta (DeltaAddition (RefProxy ref_d)))]
         (example_proxy @ [(''b'', RefProxy ref_b)]) (log_update_ignored example_state)
       = (example_proxy @ [(''b'', RefProxy ref_b), (''d'', RefProxy ref_d)], log_update_ignored example_state)"
    by (simp add: apply_member_def example_proxy_def)
  have c: "apply_delta example_externals 0 ''objects''
         (Some (DeltaUpdate (RefCollectionProxy
            [(''b'', Delta (DeltaAddition (RefProxy ref_b))),
             (''zz'', Delta (DeltaDeletion (RefProxy ref_d))),
             (''d'', Delta (DeltaAddition (RefProxy ref_d)))])))
         False example_proxy example_state
       = Inr (apply_members example_externals False 0 [(''d'', Delta (DeltaAddition (RefProxy ref_d)))]
         (example_proxy @ [(''b'', RefProxy ref_b)]) (log_update_ignored example_state))"
    using apply_member_exception_is_skipped [OF k1 k2, THEN conjunct2, THEN conjunct2, THEN conjunct1, THEN mp,
        of "''zz''" ref_d "[(''d'', Delta (DeltaAddition (RefProxy ref_d)))]"] k3
    by (simp only: append_Cons append_Nil simp_thms)
  have r3: "apply_delta example_externals 0 ''objects''
         (Some (DeltaUpdate (RefCollectionProxy
            [(''b'', Delta (DeltaAddition (RefProxy ref_b))),
             (''zz'', Delta (DeltaDeletion (RefProxy ref_d))),
             (''d'', Delta (DeltaAddition (RefProxy ref_d)))])))
         False example_proxy example_state
       = Inr (example_proxy @ [(''b'', RefProxy ref_b), (''d'', RefProxy ref_d)],
              log_update_ignored example_state)"
    by (simp only: c post3)
  from h1 l1 l2 r1 u1 u2 r2 k2 k3 r3 show ?thesis by (intro conjI)
qed

theorem apply_addition_of_unregistered_uuid_witness:
  "getattr_collection example_externals (world example_state) 0 ''objects'' = Some 0
   \<and> distinct (map fst ([] @ (''b'', Delta (DeltaAddition (RefProxy ref_b)))
                  # [(''a'', Delta (DeltaDeletion (RefProxy ref_d)))]))
   \<and> registry_get (datablocks example_state) (ref_datablock_uuid ref_b) = None
   \<and> apply_member example_externals True 0 ''b'' (Delta (DeltaAddition (RefProxy ref_b)))
         example_proxy example_state
       = (None, AList.update ''b'' (RefProxy ref_b) example_proxy,
          logger WARNING ''delta apply add: unregistered uuid'' example_state)
   \<and> map_of (fst (apply_members example_externals True 0
                 [(''b'', Delta (DeltaAddition (RefProxy ref_b))),
                  (''a'', Delta (DeltaDeletion (RefProxy ref_d)))] example_proxy example_state)) ''b''
       = Some (RefProxy ref_b)"
proof -
  have h1: "getattr_collection example_externals (world example_state) 0 ''objects'' = Some 0"
    by (simp add: example_externals_def)
  have h2: "distinct (map fst ([] @ (''b'', Delta (DeltaAddition (RefProxy ref_b)))
                  # [(''a'', Delta (DeltaDeletion (RefProxy ref_d)))]))"
    by simp
  have h3: "registry_get (datablocks example_state) (ref_datablock_uuid ref_b) = None"
    by (simp add: registry_get_def example_state_def)
  have h4: "apply_members example_externals True 0 [] example_proxy example_state = (example_proxy, example_state)"
    by simp
  obtain sd' s' where r: "apply_members example_externals True 0
                 ([] @ (''b'', Delta (DeltaAddition (RefProxy ref_b)))
                  # [(''a'', Delta (DeltaDeletion (RefProxy ref_d)))]) example_proxy example_state = (sd', s')"
    by (cases "apply_members example_externals True 0
                 ([] @ (''b'', Delta (DeltaAddition (RefProxy ref_b)))
                  # [(''a'', Delta (DeltaDeletion (RefProxy ref_d)))]) example_proxy example_state") auto
  have h5: "apply_delta example_externals 0 ''objects''
                (Some (DeltaUpdate (RefCollectionProxy ([] @ (''b'', Delta (DeltaAddition (RefProxy ref_b)))
                  # [(''a'', Delta (DeltaDeletion (RefProxy ref_d)))]))))
                True example_proxy example_state = Inr (sd', s')"
    using r h1 by (simp only: apply_delta_members)
  from apply_addition_of_unregistered_uuid [OF h1 h2 h3 h4 h5] r h1 h2 h3
  show ?thesis by simp
qed

section \<open>Convergence of diff and apply\<close>

lemma link_or_unlink_safe:
  "blender_safe x \<Longrightarrow> fst (link_or_unlink x c dl r s) = None"
  by (auto simp: link_or_unlink_def Let_def blender_safe_def split: option.splits prod.splits)
    (metis fst_conv)+

lemma to_blender_no_raise:
  assumes "to_blender \<longrightarrow> blender_safe x"
  shows "\<exists>s1. (if to_blender then link_or_unlink x c dl r s else (None, s)) = (None, s1)"
proof (cases to_blender)
  case True
  with assms have "fst (link_or_unlink x c dl r s) = None" by (simp add: link_or_unlink_safe)
  then show ?thesis using True by (cases "link_or_unlink x c dl r s") auto
next
  case False
  then show ?thesis by simp
qed

lemma apply_member_addition_keys:
  assumes "to_blender \<longrightarrow> blender_safe x"
  shows "fst ` set (fst (snd (apply_member x to_blender c k (Delta (DeltaAddition (RefProxy r))) sd s)))
           = insert k (fst ` set sd)"
proof -
  from to_blender_no_raise [OF assms] obtain s1 where
    "(if to_blender then link_or_unlink x c (DeltaAddition (RefProxy r)) r s else (None, s)) = (None, s1)"
    by blast
  then show ?thesis by (simp add: apply_member_def dom_update)
qed

lemma apply_member_deletion_keys:
  assumes "to_blender \<longrightarrow> blender_safe x"
  shows "fst ` set (fst (snd (apply_member x to_blender c k (Delta (DeltaDeletion (RefProxy r))) sd s)))
           = fst ` set sd - {k}"
proof -
  from to_blender_no_raise [OF assms] obtain s1 where
    a: "(if to_blender then link_or_unlink x c (DeltaDeletion (RefProxy r)) r s else (None, s)) = (None, s1)"
    by blast
  show ?thesis
  proof (cases "map_of sd k")
    case None
    then have "k \<notin> fst ` set sd" by (simp add: map_of_None_iff)
    with a None show ?thesis by (simp add: apply_member_def)
  next
    case (Some old)
    have "fst ` set (AList.delete k sd) = fst ` set sd - {k}"
      by (auto simp: AList.delete_eq)
    with a Some show ?thesis by (simp add: apply_member_def)
  qed
qed

lemma apply_member_update_ignored:
  "fst (snd (apply_member x to_blender c k (Delta (DeltaUpdate v)) sd s)) = sd"
  by (simp add: apply_member_def)

lemma apply_members_Cons_keys:
  "fst (apply_members x tb c ((k, rd) # ms) sd s)
     = fst (apply_members x tb c ms (fst (snd (apply_member x tb c k rd sd s)))
              (case apply_member x tb c k rd sd s of (None, sd', s') \<Rightarrow> s' | (Some e, sd', s') \<Rightarrow> log_update_ignored s'))"
  by (cases "apply_member x tb c k rd sd s") (auto split: option.splits)

lemma apply_members_additions_keys:
  assumes safe: "to_blender \<longrightarrow> blender_safe x"
    and adds: "\<forall>m\<in>set ms. \<exists>r. snd m = Delta (DeltaAddition (RefProxy r))"
  shows "fst ` set (fst (apply_members x to_blender c ms sd s)) = fst ` set sd \<union> fst ` set ms"
  using adds
proof (induction ms arbitrary: sd s)
  case Nil
  then show ?case by simp
next
  case (Cons m ms)
  obtain k rd where m: "m = (k, rd)" by (cases m)
  from Cons.prems m obtain r where rd: "rd = Delta (DeltaAddition (RefProxy r))" by auto
  have rest: "\<forall>m\<in>set ms. \<exists>r. snd m = Delta (DeltaAddition (RefProxy r))" using Cons.prems by simp
  show ?case
    unfolding m apply_members_Cons_keys Cons.IH [OF rest]
    using apply_member_addition_keys [OF safe, of c k r sd s] rd by auto
qed

lemma apply_members_deletions_keys:
  assumes safe: "to_blender \<longrightarrow> blender_safe x"
    and dels: "\<forall>m\<in>set ms. \<exists>r. snd m = Delta (DeltaDeletion (RefProxy r))"
  shows "fst ` set (fst (apply_members x to_blender c ms sd s)) = fst ` set sd - fst ` set ms"
  using dels
proof (induction ms arbitrary: sd s)
  case Nil
  then show ?case by simp
next
  case (Cons m ms)
  obtain k rd where m: "m = (k, rd)" by (cases m)
  from Cons.prems m obtain r where rd: "rd = Delta (DeltaDeletion (RefProxy r))" by auto
  have rest: "\<forall>m\<in>set ms. \<exists>r. snd m = Delta (DeltaDeletion (RefProxy r))" using Cons.prems by simp
  show ?case
    unfolding m apply_members_Cons_keys Cons.IH [OF rest]
    using apply_member_deletion_keys [OF safe, of c k r sd s] rd by auto
qed

lemma apply_members_updates_ignored:
  assumes "\<forall>m\<in>set ms. \<exists>v. snd m = Delta (DeltaUpdate v)"
  shows "fst (apply_members x to_blender c ms sd s) = sd"
  using assms
proof (induction ms arbitrary: sd s)
  case Nil
  then show ?case by simp
next
  case (Cons m ms)
  obtain k rd where m: "m = (k, rd)" by (cases m)
  from Cons.prems m obtain v where rd: "rd = Delta (DeltaUpdate v)" by auto
  have rest: "\<forall>m\<in>set ms. \<exists>v. snd m = Delta (DeltaUpdate v)" using Cons.prems by simp
  show ?case
    unfolding m apply_members_Cons_keys Cons.IH [OF rest]
    using rd by (simp add: apply_member_update_ignored)
qed

lemma apply_members_append_fst:
  "fst (apply_members x tb c (xs @ ys) sd s)
     = fst (apply_members x tb c ys (fst (apply_members x tb c xs sd s)) (snd (apply_members x tb c xs sd s)))"
  by (simp add: apply_members_append split: prod.splits)

lemma built_entries: "(k, v) \<in> set (built f ks) \<Longrightarrow> k \<in> set ks \<and> f k = Inr (Some v)"
  by (induction ks) (auto split: sum.splits option.splits)

lemma built_all_keys: "(\<forall>k\<in>set ks. \<exists>v. f k = Inr (Some v)) \<Longrightarrow> map fst (built f ks) = ks"
  by (induction ks) auto

lemma built_no_keys: "(\<forall>k\<in>set ks. f k = Inr None) \<Longrightarrow> built f ks = []"
  by (induction ks) auto

lemma filter_none: "(\<forall>m\<in>set xs. \<not> P m) \<Longrightarrow> filter P xs = []"
  by (induction xs) auto

lemma filter_all: "(\<forall>m\<in>set xs. P m) \<Longrightarrow> filter P xs = xs"
  by (induction xs) auto

lemma added_entries:
  assumes "m \<in> set (built (added_body x s items) ks)"
  shows "\<exists>item v. map_of items (fst m) = Some item \<and> read_attribute x s item (fst m) = Inr v
            \<and> snd m = Delta (DeltaAddition v)"
proof -
  obtain k v where m: "m = (k, v)" by (cases m)
  with assms have "added_body x s items k = Inr (Some v)" by (auto dest: built_entries)
  from added_body_Inr [OF this] m show ?thesis by auto
qed

lemma deleted_entries:
  assumes "m \<in> set (built (deleted_body self_data) ks)"
  shows "\<exists>old. map_of self_data (fst m) = Some old \<and> snd m = Delta (DeltaDeletion old)"
proof -
  obtain k v where m: "m = (k, v)" by (cases m)
  with assms have "deleted_body self_data k = Inr (Some v)" by (auto dest: built_entries)
  with m show ?thesis by (auto simp: deleted_body_def split: option.splits)
qed

lemma updated_entries:
  assumes "m \<in> set (built (updated_body x s items self_data) ks)"
  shows "\<exists>v. snd m = Delta (DeltaUpdate v)"
proof -
  obtain k v where m: "m = (k, v)" by (cases m)
  with assms have b: "updated_body x s items self_data k = Inr (Some v)" by (auto dest: built_entries)
  then obtain item old where "map_of items k = Some item" "map_of self_data k = Some old"
    by (auto simp: updated_body_def split: option.splits)
  from updated_body_Inr [OF b this] m show ?thesis by auto
qed

text \<open>
  Claim C2, amended. Let the proxy hold reference proxies under distinct keys, let the
  live collection have exactly one uuid the proxy does not have and the proxy exactly one
  uuid the live collection does not have, let \<^verbatim>\<open>read_attribute\<close> give reference proxies, and
  let \<^verbatim>\<open>diff\<close> return a delta. Then the delta has exactly one entry tagged
  \<^verbatim>\<open>DeltaAddition\<close> and exactly one tagged \<^verbatim>\<open>DeltaDeletion\<close>, and exactly two entries when
  no common member has a delta of its own. Applied to the proxy it was computed against
  (without \<^verbatim>\<open>to_blender\<close>, or with a collection that refuses no \<^verbatim>\<open>link\<close> or \<^verbatim>\<open>unlink\<close>), it
  yields a proxy whose keys are the uuids of the live collection. Applied to an empty
  proxy, it yields the uuids of the live collection that the proxy did not have: the
  deletion raises \<^verbatim>\<open>KeyError\<close> and is skipped, and the common members are not in the
  delta.
\<close>

theorem diff_then_apply:
  assumes dist: "distinct (map fst self_data)"
    and refsP: "\<forall>m\<in>set self_data. \<exists>r. snd m = RefProxy r"
    and refsL: "\<forall>item k v. read_attribute x s item k = Inr v \<longrightarrow> (\<exists>r. v = RefProxy r)"
    and one_added: "card (mixer_uuid x (world s) ` set vals - fst ` set self_data) = 1"
    and one_removed: "card (fst ` set self_data - mixer_uuid x (world s) ` set vals) = 1"
    and res: "diff x s self_data vals = Inr (Some delta)"
    and coll: "getattr_collection x (world s') parent key = Some c"
    and safe: "to_blender \<longrightarrow> blender_safe x"
  shows "\<exists>d. delta = DeltaUpdate (RefCollectionProxy d)
      \<and> length (filter is_addition_member d) = 1
      \<and> length (filter is_deletion_member d) = 1
      \<and> ((\<forall>k item old. map_of (blender_items x (world s) vals) k = Some item \<and> map_of self_data k = Some old
              \<longrightarrow> diff_attribute x s item k old = Inr None) \<longrightarrow> length d = 2)
      \<and> (\<exists>sd1 s1. apply_delta x parent key (Some delta) to_blender self_data s' = Inr (sd1, s1)
              \<and> fst ` set sd1 = mixer_uuid x (world s) ` set vals)
      \<and> (\<exists>sd0 s0. apply_delta x parent key (Some delta) to_blender [] s' = Inr (sd0, s0)
              \<and> fst ` set sd0 = mixer_uuid x (world s) ` set vals - fst ` set self_data)"
proof -
  let ?items = "blender_items x (world s) vals"
  let ?live = "mixer_uuid x (world s) ` set vals"
  let ?P = "fst ` set self_data"
  let ?A = "added_keys ?items self_data"
  let ?D = "deleted_keys ?items self_data"
  let ?U = "maybe_updated_keys ?items self_data"
  define dA where "dA = built (added_body x s ?items) ?A"
  define dD where "dD = built (deleted_body self_data) ?D"
  define dU where "dU = built (updated_body x s ?items self_data) ?U"
  define d where "d = diff_entries x s self_data vals"
  have d_eq: "d = dA @ dD @ dU" by (simp add: d_def diff_entries_def Let_def dA_def dD_def dU_def)
  have live: "fst ` set ?items = ?live" by (simp add: blender_items_keys)
  have di: "distinct (map fst ?items)" by (simp add: blender_items_distinct)
  from diff_Inr_entries [OF dist res]
  have r: "Some delta = (if d = [] then None else Some (DeltaUpdate (RefCollectionProxy d)))"
    and okA: "\<And>k. k \<in> set ?A \<Longrightarrow> \<exists>r. added_body x s ?items k = Inr r"
    and okU: "\<And>k. k \<in> set ?U \<Longrightarrow> \<exists>r. updated_body x s ?items self_data k = Inr r"
    by (auto simp: d_def)
  have delta: "delta = DeltaUpdate (RefCollectionProxy d)" using r by (cases "d = []") simp_all
  \<comment> \<open>the entries of the three loops\<close>
  have A_some: "\<forall>k\<in>set ?A. \<exists>v. added_body x s ?items k = Inr (Some v)"
  proof
    fix k assume "k \<in> set ?A"
    from okA [OF this] obtain r where b: "added_body x s ?items k = Inr r" by blast
    from added_body_Inr [OF b] b show "\<exists>v. added_body x s ?items k = Inr (Some v)" by auto
  qed
  have D_some: "\<forall>k\<in>set ?D. \<exists>v. deleted_body self_data k = Inr (Some v)"
  proof
    fix k assume "k \<in> set ?D"
    then have "k \<in> ?P" by (simp add: deleted_keys_set)
    then obtain old where "map_of self_data k = Some old"
      using map_of_None_iff [of self_data k] by (cases "map_of self_data k") auto
    then show "\<exists>v. deleted_body self_data k = Inr (Some v)" by (simp add: deleted_body_Some)
  qed
  have kA: "map fst dA = ?A" unfolding dA_def using A_some by (rule built_all_keys)
  have kD: "map fst dD = ?D" unfolding dD_def using D_some by (rule built_all_keys)
  have sA: "fst ` set dA = ?live - ?P" using kA live added_keys_set [of ?items self_data]
    by (metis list.set_map)
  have sD: "fst ` set dD = ?P - ?live" using kD live deleted_keys_set [of ?items self_data]
    by (metis list.set_map)
  have eA: "\<forall>m\<in>set dA. \<exists>r. snd m = Delta (DeltaAddition (RefProxy r))"
  proof
    fix m assume "m \<in> set dA"
    from added_entries [OF this [unfolded dA_def]] refsL
    show "\<exists>r. snd m = Delta (DeltaAddition (RefProxy r))" by metis
  qed
  have eD: "\<forall>m\<in>set dD. \<exists>r. snd m = Delta (DeltaDeletion (RefProxy r))"
  proof
    fix m assume "m \<in> set dD"
    from deleted_entries [OF this [unfolded dD_def]] obtain old where
      o: "map_of self_data (fst m) = Some old" "snd m = Delta (DeltaDeletion old)" by blast
    from o(1) have "(fst m, old) \<in> set self_data" by (rule map_of_SomeD)
    with refsP obtain r where "old = RefProxy r" by fastforce
    with o show "\<exists>r. snd m = Delta (DeltaDeletion (RefProxy r))" by simp
  qed
  have eU: "\<forall>m\<in>set dU. \<exists>v. snd m = Delta (DeltaUpdate v)"
    using updated_entries unfolding dU_def by blast
  \<comment> \<open>counting the entries\<close>
  have lenA: "length dA = 1"
  proof -
    have "length dA = length ?A" using kA by (metis length_map)
    also have "\<dots> = card (set ?A)" using di by (simp add: distinct_card added_keys_distinct)
    also have "\<dots> = 1" using one_added live by (simp add: added_keys_set)
    finally show ?thesis .
  qed
  have lenD: "length dD = 1"
  proof -
    have "length dD = length ?D" using kD by (metis length_map)
    also have "\<dots> = card (set ?D)" using dist by (simp add: distinct_card deleted_keys_distinct)
    also have "\<dots> = 1" using one_removed live by (simp add: deleted_keys_set)
    finally show ?thesis .
  qed
  have fA: "filter is_addition_member dA = dA" "filter is_deletion_member dA = []"
    using eA by (auto intro!: filter_all filter_none)
  have fD: "filter is_addition_member dD = []" "filter is_deletion_member dD = dD"
    using eD by (auto intro!: filter_all filter_none)
  have fU: "filter is_addition_member dU = []" "filter is_deletion_member dU = []"
    using eU by (auto intro!: filter_none)
  have c1: "length (filter is_addition_member d) = 1" by (simp add: d_eq fA fD fU lenA)
  have c2: "length (filter is_deletion_member d) = 1" by (simp add: d_eq fA fD fU lenD)
  have c3: "(\<forall>k item old. map_of ?items k = Some item \<and> map_of self_data k = Some old
              \<longrightarrow> diff_attribute x s item k old = Inr None) \<longrightarrow> length d = 2"
  proof
    assume none: "\<forall>k item old. map_of ?items k = Some item \<and> map_of self_data k = Some old
              \<longrightarrow> diff_attribute x s item k old = Inr None"
    have "\<forall>k\<in>set ?U. updated_body x s ?items self_data k = Inr None"
    proof
      fix k assume k: "k \<in> set ?U"
      from okU [OF k] obtain r where b: "updated_body x s ?items self_data k = Inr r" by blast
      then obtain item old where io: "map_of ?items k = Some item" "map_of self_data k = Some old"
        by (auto simp: updated_body_def split: option.splits)
      from updated_body_Inr [OF b io] none io have "r = None" by auto
      with b show "updated_body x s ?items self_data k = Inr None" by simp
    qed
    then have "dU = []" unfolding dU_def by (rule built_no_keys)
    then show "length d = 2" by (simp add: d_eq lenA lenD)
  qed
  \<comment> \<open>applying the delta\<close>
  have keys: "fst ` set (fst (apply_members x to_blender c d sd s')) = (fst ` set sd \<union> (?live - ?P)) - (?P - ?live)"
    for sd
  proof -
    let ?r1 = "apply_members x to_blender c dA sd s'"
    let ?r2 = "apply_members x to_blender c dD (fst ?r1) (snd ?r1)"
    have "fst (apply_members x to_blender c d sd s')
            = fst (apply_members x to_blender c dU (fst ?r2) (snd ?r2))"
      by (simp add: d_eq apply_members_append_fst)
    also have "\<dots> = fst ?r2" using eU by (rule apply_members_updates_ignored)
    finally have "fst ` set (fst (apply_members x to_blender c d sd s')) = fst ` set (fst ?r2)" by simp
    also have "\<dots> = fst ` set (fst ?r1) - fst ` set dD"
      using safe eD by (rule apply_members_deletions_keys)
    also have "fst ` set (fst ?r1) = fst ` set sd \<union> fst ` set dA"
      using safe eA by (rule apply_members_additions_keys)
    finally show ?thesis by (simp add: sA sD)
  qed
  have ap: "apply_delta x parent key (Some delta) to_blender sd s'
              = Inr (fst (apply_members x to_blender c d sd s'), snd (apply_members x to_blender c d sd s'))" for sd
    using coll by (simp add: delta apply_delta_members)
  have c4: "\<exists>sd1 s1. apply_delta x parent key (Some delta) to_blender self_data s' = Inr (sd1, s1)
              \<and> fst ` set sd1 = ?live"
  proof (intro exI conjI)
    show "apply_delta x parent key (Some delta) to_blender self_data s'
            = Inr (fst (apply_members x to_blender c d self_data s'), snd (apply_members x to_blender c d self_data s'))"
      by (rule ap)
    show "fst ` set (fst (apply_members x to_blender c d self_data s')) = ?live"
      unfolding keys by blast
  qed
  have c5: "\<exists>sd0 s0. apply_delta x parent key (Some delta) to_blender [] s' = Inr (sd0, s0)
              \<and> fst ` set sd0 = ?live - ?P"
  proof (intro exI conjI)
    show "apply_delta x parent key (Some delta) to_blender [] s'
            = Inr (fst (apply_members x to_blender c d [] s'), snd (apply_members x to_blender c d [] s'))"
      by (rule ap)
    show "fst ` set (fst (apply_members x to_blender c d [] s')) = ?live - ?P"
      unfolding keys by auto
  qed
  show ?thesis
    apply (rule exI [of _ d])
    apply (intro conjI)
         apply (rule delta)
        apply (rule c1)
       apply (rule c2)
      apply (rule c3)
     apply (rule c4)
    apply (rule c5)
    done
qed

lemma example_live: "mixer_uuid example_externals (world example_state) ` set [1, 2] = {''b'', ''c''}"
  by (auto simp: example_externals_def)

lemma example_keys: "fst ` set example_proxy = {''a'', ''c''}"
  by (simp add: example_proxy_def)

theorem diff_then_apply_witness:
  "distinct (map fst example_proxy)
   \<and> card (mixer_uuid example_externals (world example_state) ` set [1, 2] - fst ` set example_proxy) = 1
   \<and> card (fst ` set example_proxy - mixer_uuid example_externals (world example_state) ` set [1, 2]) = 1
   \<and> diff example_externals example_state example_proxy [1, 2]
        = Inr (Some (DeltaUpdate (RefCollectionProxy example_delta)))
   \<and> getattr_collection example_externals (world example_state) 0 ''objects'' = Some 0
   \<and> (\<exists>d. DeltaUpdate (RefCollectionProxy example_delta) = DeltaUpdate (RefCollectionProxy d)
      \<and> length (filter is_addition_member d) = 1
      \<and> length (filter is_deletion_member d) = 1
      \<and> ((\<forall>k item old. map_of (blender_items example_externals (world example_state) [1, 2]) k = Some item
                 \<and> map_of example_proxy k = Some old
              \<longrightarrow> diff_attribute example_externals example_state item k old = Inr None) \<longrightarrow> length d = 2)
      \<and> (\<exists>sd1 s1. apply_delta example_externals 0 ''objects''
                     (Some (DeltaUpdate (RefCollectionProxy example_delta))) True example_proxy example_state
                   = Inr (sd1, s1)
              \<and> fst ` set sd1 = mixer_uuid example_externals (world example_state) ` set [1, 2])
      \<and> (\<exists>sd0 s0. apply_delta example_externals 0 ''objects''
                     (Some (DeltaUpdate (RefCollectionProxy example_delta))) True [] example_state
                   = Inr (sd0, s0)
              \<and> fst ` set sd0 = mixer_uuid example_externals (world example_state) ` set [1, 2]
                                  - fst ` set example_proxy))"
proof -
  have h1: "distinct (map fst example_proxy)" by (simp add: example_proxy_def)
  have h2: "\<forall>m\<in>set example_proxy. \<exists>r. snd m = RefProxy r" by (simp add: example_proxy_def)
  have h3: "\<forall>item k v. read_attribute example_externals example_state item k = Inr v \<longrightarrow> (\<exists>r. v = RefProxy r)"
    by (auto simp: example_externals_def)
  have "{''b'', ''c''} - {''a'', ''c''} = {''b''}" by auto
  then have h4: "card (mixer_uuid example_externals (world example_state) ` set [1, 2] - fst ` set example_proxy) = 1"
    by (simp only: example_live example_keys) simp
  have "{''a'', ''c''} - {''b'', ''c''} = {''a''}" by auto
  then have h5: "card (fst ` set example_proxy - mixer_uuid example_externals (world example_state) ` set [1, 2]) = 1"
    by (simp only: example_live example_keys) simp
  have h6: "diff example_externals example_state example_proxy [1, 2]
        = Inr (Some (DeltaUpdate (RefCollectionProxy example_delta)))" by (rule example_diff)
  have h7: "getattr_collection example_externals (world example_state) 0 ''objects'' = Some 0"
    by (simp add: example_externals_def)
  have h8: "True \<longrightarrow> blender_safe example_externals"
    by (simp add: blender_safe_def example_externals_def)
  show ?thesis
    apply (intro conjI)
         apply (rule h1)
        apply (rule h4)
       apply (rule h5)
      apply (rule h6)
     apply (rule h7)
    apply (rule diff_then_apply [OF h1 h2 h3 h4 h5 h6 h7 h8])
    done
qed

text \<open>
  The claim as stated fails: the proxy tracks \<open>a\<close> and \<open>c\<close>, the live collection holds
  \<open>b\<close> and \<open>c\<close>; the delta of \<^verbatim>\<open>diff\<close>, applied to an empty proxy, leaves the key \<open>b\<close>
  alone, not the uuids \<open>b\<close> and \<open>c\<close> of the live collection.
\<close>

theorem apply_to_empty_proxy_counterexample:
  "card (mixer_uuid example_externals (world example_state) ` set [1, 2] - fst ` set example_proxy) = 1
   \<and> card (fst ` set example_proxy - mixer_uuid example_externals (world example_state) ` set [1, 2]) = 1
   \<and> diff example_externals example_state example_proxy [1, 2]
        = Inr (Some (DeltaUpdate (RefCollectionProxy example_delta)))
   \<and> apply_delta example_externals 0 ''objects''
        (Some (DeltaUpdate (RefCollectionProxy example_delta))) True [] example_state
        = Inr ([(''b'', RefProxy ref_b)],
               log_update_ignored (logger WARNING ''delta apply add: unregistered uuid'' example_state))
   \<and> fst ` set [(''b'', RefProxy ref_b)] \<noteq> mixer_uuid example_externals (world example_state) ` set [1, 2]"
proof -
  have "{''b'', ''c''} - {''a'', ''c''} = {''b''}" by auto
  then have h4: "card (mixer_uuid example_externals (world example_state) ` set [1, 2] - fst ` set example_proxy) = 1"
    by (simp only: example_live example_keys) simp
  have "{''a'', ''c''} - {''b'', ''c''} = {''a''}" by auto
  then have h5: "card (fst ` set example_proxy - mixer_uuid example_externals (world example_state) ` set [1, 2]) = 1"
    by (simp only: example_live example_keys) simp
  have h6: "diff example_externals example_state example_proxy [1, 2]
        = Inr (Some (DeltaUpdate (RefCollectionProxy example_delta)))" by (rule example_diff)
  have a: "apply_delta example_externals 0 ''objects''
        (Some (DeltaUpdate (RefCollectionProxy example_delta))) True [] example_state
        = Inr ([(''b'', RefProxy ref_b)],
               log_update_ignored (logger WARNING ''delta apply add: unregistered uuid'' example_state))"
    by (simp add: apply_delta_def apply_member_def link_or_unlink_def registry_get_def Let_def
        example_delta_def ref_b_def example_externals_def example_state_def logger_def)
  have n: "fst ` set [(''b'', RefProxy ref_b)] \<noteq> mixer_uuid example_externals (world example_state) ` set [1, 2]"
    by (simp only: example_live) auto
  from h4 h5 h6 a n show ?thesis by (intro conjI)
qed

section \<open>The methods of DatablockCollectionProxy\<close>

lemma remove_live_heap: "remove_live x proxy datablock s = (r, s1) \<Longrightarrow> heap s1 = heap s"
  by (auto simp: remove_live_def split: if_splits option.splits prod.splits)

lemma remove_live_scene:
  assumes "is_scene x (world s) datablock"
    and "delete_scene x datablock (world s) = (r, w')"
  shows "remove_live x proxy datablock s = (r, s\<lparr>world := w'\<rparr>)"
  using assms by (simp add: remove_live_def)

lemma remove_live_collection:
  assumes "\<not> is_scene x (world s) datablock"
    and "bpy_data x (world s) (proxy_collection_name (heap s proxy)) = Some collection"
    and "collection_remove x collection datablock (world s) = (r, w')"
  shows "remove_live x proxy datablock s = (r, s\<lparr>world := w'\<rparr>)"
  using assms by (simp add: remove_live_def)

lemma remove_datablock_caught:
  assumes fails: "remove_live x proxy datablock (logger INFO ''Perform removal for %s'' s) = (Some ReferenceError, s1)"
    and tracked: "self_data (proxy_uuid (heap s proxy)) = Some p"
  shows "remove_datablock x self_data proxy datablock s
           = Inr (self_data(proxy_uuid (heap s proxy) := None),
                  logger WARNING ''... {e!r}'' (logger WARNING ''Exception during remove_datablock for'' s1))"
proof -
  have "heap s1 = heap (logger INFO ''Perform removal for %s'' s)" using fails by (rule remove_live_heap)
  then have h: "heap s1 = heap s" by (simp add: logger_def)
  show ?thesis using fails tracked h
    by (simp add: remove_datablock_def del_data_def Let_def logger_def)
qed

text \<open>
  Claim C5. For a proxy that the collection tracks (its uuid is a key of \<^verbatim>\<open>_data\<close>, "the
  entry for the proxy's identifier"), when \<^verbatim>\<open>delete_scene\<close> raises \<^verbatim>\<open>ReferenceError\<close> for a
  scene, or \<^verbatim>\<open>proxy.collection.remove\<close> raises it for another datablock,
  \<^verbatim>\<open>remove_datablock\<close> returns normally: the entry is deleted from the map, and the state
  is the one the failing call left, with the line of the removal and two warnings logged.
\<close>

theorem remove_datablock_dangling_reference:
  assumes tracked: "self_data (proxy_uuid (heap s proxy)) = Some p"
  shows
   "(is_scene x (world s) datablock
       \<and> delete_scene x datablock (world s) = (Some ReferenceError, w') \<longrightarrow>
       remove_datablock x self_data proxy datablock s
         = Inr (self_data(proxy_uuid (heap s proxy) := None),
                s\<lparr>world := w',
                  log := log s @ [(INFO, ''Perform removal for %s''),
                                  (WARNING, ''Exception during remove_datablock for''),
                                  (WARNING, ''... {e!r}'')]\<rparr>))
    \<and> (\<not> is_scene x (world s) datablock
       \<and> bpy_data x (world s) (proxy_collection_name (heap s proxy)) = Some collection
       \<and> collection_remove x collection datablock (world s) = (Some ReferenceError, w') \<longrightarrow>
       remove_datablock x self_data proxy datablock s
         = Inr (self_data(proxy_uuid (heap s proxy) := None),
                s\<lparr>world := w',
                  log := log s @ [(INFO, ''Perform removal for %s''),
                                  (WARNING, ''Exception during remove_datablock for''),
                                  (WARNING, ''... {e!r}'')]\<rparr>))
    \<and> (remove_live x proxy datablock (logger INFO ''Perform removal for %s'' s) = (Some ReferenceError, s1) \<longrightarrow>
       remove_datablock x self_data proxy datablock s
           = Inr (self_data(proxy_uuid (heap s proxy) := None),
                  logger WARNING ''... {e!r}'' (logger WARNING ''Exception during remove_datablock for'' s1))
       \<and> log (logger WARNING ''... {e!r}'' (logger WARNING ''Exception during remove_datablock for'' s1))
           = log s1 @ [(WARNING, ''Exception during remove_datablock for''), (WARNING, ''... {e!r}'')])"
proof -
  let ?s0 = "logger INFO ''Perform removal for %s'' s"
  have w0: "world ?s0 = world s" and h0: "heap ?s0 = heap s" by (simp_all add: logger_def)
  have c1: "is_scene x (world s) datablock
       \<and> delete_scene x datablock (world s) = (Some ReferenceError, w') \<longrightarrow>
       remove_datablock x self_data proxy datablock s
         = Inr (self_data(proxy_uuid (heap s proxy) := None),
                s\<lparr>world := w',
                  log := log s @ [(INFO, ''Perform removal for %s''),
                                  (WARNING, ''Exception during remove_datablock for''),
                                  (WARNING, ''... {e!r}'')]\<rparr>)"
  proof
    assume a: "is_scene x (world s) datablock
       \<and> delete_scene x datablock (world s) = (Some ReferenceError, w')"
    have "remove_live x proxy datablock ?s0 = (Some ReferenceError, ?s0\<lparr>world := w'\<rparr>)"
      using a by (intro remove_live_scene) (simp_all add: w0)
    from remove_datablock_caught [where self_data = self_data and p = p, OF this tracked]
    show "remove_datablock x self_data proxy datablock s
         = Inr (self_data(proxy_uuid (heap s proxy) := None),
                s\<lparr>world := w',
                  log := log s @ [(INFO, ''Perform removal for %s''),
                                  (WARNING, ''Exception during remove_datablock for''),
                                  (WARNING, ''... {e!r}'')]\<rparr>)"
      by (simp add: logger_def)
  qed
  have c2: "\<not> is_scene x (world s) datablock
       \<and> bpy_data x (world s) (proxy_collection_name (heap s proxy)) = Some collection
       \<and> collection_remove x collection datablock (world s) = (Some ReferenceError, w') \<longrightarrow>
       remove_datablock x self_data proxy datablock s
         = Inr (self_data(proxy_uuid (heap s proxy) := None),
                s\<lparr>world := w',
                  log := log s @ [(INFO, ''Perform removal for %s''),
                                  (WARNING, ''Exception during remove_datablock for''),
                                  (WARNING, ''... {e!r}'')]\<rparr>)"
  proof
    assume a: "\<not> is_scene x (world s) datablock
       \<and> bpy_data x (world s) (proxy_collection_name (heap s proxy)) = Some collection
       \<and> collection_remove x collection datablock (world s) = (Some ReferenceError, w')"
    have "remove_live x proxy datablock ?s0 = (Some ReferenceError, ?s0\<lparr>world := w'\<rparr>)"
      using a by (intro remove_live_collection [where collection = collection]) (simp_all add: w0 h0)
    from remove_datablock_caught [where self_data = self_data and p = p, OF this tracked]
    show "remove_datablock x self_data proxy datablock s
         = Inr (self_data(proxy_uuid (heap s proxy) := None),
                s\<lparr>world := w',
                  log := log s @ [(INFO, ''Perform removal for %s''),
                                  (WARNING, ''Exception during remove_datablock for''),
                                  (WARNING, ''... {e!r}'')]\<rparr>)"
      by (simp add: logger_def)
  qed
  have c3: "remove_live x proxy datablock ?s0 = (Some ReferenceError, s1) \<longrightarrow>
       remove_datablock x self_data proxy datablock s
           = Inr (self_data(proxy_uuid (heap s proxy) := None),
                  logger WARNING ''... {e!r}'' (logger WARNING ''Exception during remove_datablock for'' s1))
       \<and> log (logger WARNING ''... {e!r}'' (logger WARNING ''Exception during remove_datablock for'' s1))
           = log s1 @ [(WARNING, ''Exception during remove_datablock for''), (WARNING, ''... {e!r}'')]"
  proof
    assume f: "remove_live x proxy datablock ?s0 = (Some ReferenceError, s1)"
    from remove_datablock_caught [where self_data = self_data and p = p, OF f tracked]
    show "remove_datablock x self_data proxy datablock s
           = Inr (self_data(proxy_uuid (heap s proxy) := None),
                  logger WARNING ''... {e!r}'' (logger WARNING ''Exception during remove_datablock for'' s1))
       \<and> log (logger WARNING ''... {e!r}'' (logger WARNING ''Exception during remove_datablock for'' s1))
           = log s1 @ [(WARNING, ''Exception during remove_datablock for''), (WARNING, ''... {e!r}'')]"
      by (simp add: logger_def)
  qed
  from c1 c2 c3 show ?thesis by (intro conjI)
qed

text \<open>For a proxy the collection does not track, \<^verbatim>\<open>del self._data[uuid]\<close> raises.\<close>

lemma remove_datablock_untracked:
  assumes "remove_live x proxy datablock (logger INFO ''Perform removal for %s'' s) = (Some ReferenceError, s1)"
    and "self_data (proxy_uuid (heap s proxy)) = None"
  shows "remove_datablock x self_data proxy datablock s = Inl KeyError"
proof -
  have "heap s1 = heap (logger INFO ''Perform removal for %s'' s)" using assms(1) by (rule remove_live_heap)
  then have "heap s1 = heap s" by (simp add: logger_def)
  with assms show ?thesis by (simp add: remove_datablock_def del_data_def Let_def logger_def)
qed

theorem remove_datablock_dangling_reference_witness:
  "[''u1'' \<mapsto> (0::nat)] (proxy_uuid (heap tracked_state 0)) = Some 0
   \<and> is_scene scene_externals (world tracked_state) 5
   \<and> delete_scene scene_externals 5 (world tracked_state) = (Some ReferenceError, ())
   \<and> remove_datablock scene_externals [''u1'' \<mapsto> 0] 0 5 tracked_state
       = Inr (Map.empty,
              tracked_state\<lparr>log := [(INFO, ''Perform removal for %s''),
                                    (WARNING, ''Exception during remove_datablock for''),
                                    (WARNING, ''... {e!r}'')]\<rparr>)
   \<and> \<not> is_scene example_externals (world tracked_state) 5
   \<and> bpy_data example_externals (world tracked_state) (proxy_collection_name (heap tracked_state 0)) = Some 0
   \<and> collection_remove example_externals 0 5 (world tracked_state) = (Some ReferenceError, ())
   \<and> remove_datablock example_externals [''u1'' \<mapsto> 0] 0 5 tracked_state
       = Inr (Map.empty,
              tracked_state\<lparr>log := [(INFO, ''Perform removal for %s''),
                                    (WARNING, ''Exception during remove_datablock for''),
                                    (WARNING, ''... {e!r}'')]\<rparr>)"
proof -
  have h: "[''u1'' \<mapsto> (0::nat)] (proxy_uuid (heap tracked_state 0)) = Some 0"
    by (simp add: tracked_state_def example_state_def)
  have u: "proxy_uuid (heap tracked_state 0) = ''u1''" by (simp add: tracked_state_def example_state_def)
  have l: "log tracked_state = []" by (simp add: tracked_state_def example_state_def)
  have a1: "is_scene scene_externals (world tracked_state) 5" by (simp add: scene_externals_def)
  have a2: "delete_scene scene_externals 5 (world tracked_state) = (Some ReferenceError, ())"
    by (simp add: scene_externals_def)
  from remove_datablock_dangling_reference [where self_data = "[''u1'' \<mapsto> 0]" and p = 0, OF h,
      THEN conjunct1, THEN mp, OF conjI [OF a1 a2]]
  have r1: "remove_datablock scene_externals [''u1'' \<mapsto> 0] 0 5 tracked_state
       = Inr (Map.empty,
              tracked_state\<lparr>log := [(INFO, ''Perform removal for %s''),
                                    (WARNING, ''Exception during remove_datablock for''),
                                    (WARNING, ''... {e!r}'')]\<rparr>)"
    by (simp add: u l)
  have b1: "\<not> is_scene example_externals (world tracked_state) 5" by (simp add: example_externals_def)
  have b2: "bpy_data example_externals (world tracked_state) (proxy_collection_name (heap tracked_state 0)) = Some 0"
    by (simp add: example_externals_def)
  have b3: "collection_remove example_externals 0 5 (world tracked_state) = (Some ReferenceError, ())"
    by (simp add: example_externals_def)
  from remove_datablock_dangling_reference [where self_data = "[''u1'' \<mapsto> 0]" and p = 0, OF h,
      THEN conjunct2, THEN conjunct1, THEN mp, OF conjI [OF b1 conjI [OF b2 b3]]]
  have r2: "remove_datablock example_externals [''u1'' \<mapsto> 0] 0 5 tracked_state
       = Inr (Map.empty,
              tracked_state\<lparr>log := [(INFO, ''Perform removal for %s''),
                                    (WARNING, ''Exception during remove_datablock for''),
                                    (WARNING, ''... {e!r}'')]\<rparr>)"
    by (simp add: u l)
  from h a1 a2 r1 b1 b2 b3 r2 show ?thesis by (intro conjI)
qed

text \<open>
  Claim C6. \<^verbatim>\<open>update_datablock\<close> logs one line and returns, with the state otherwise as it
  was, when the registry has no proxy for the incoming uuid, when the proxy found has
  another uuid, and when no live datablock is registered under the uuid. Otherwise the
  result is that of the proxy's \<^verbatim>\<open>update_standalone_datablock\<close>, in the state that routine
  left; when it returned another datablock than the registered one, a warning is logged
  and the registry maps the uuid to what it returned.
\<close>

theorem update_datablock_cases:
  "(proxies s (proxy_uuid (heap s (delta_value delta))) = None \<longrightarrow>
      update_datablock x delta s
        = Inr (None, s\<lparr>log := log s @ [(ERROR, ''update_datablock(): Missing proxy for'')]\<rparr>))
   \<and> (\<forall>proxy. proxies s (proxy_uuid (heap s (delta_value delta))) = Some proxy
          \<and> proxy_uuid (heap s proxy) \<noteq> proxy_uuid (heap s (delta_value delta)) \<longrightarrow>
      update_datablock x delta s
        = Inr (None, s\<lparr>log := log s @ [(ERROR, ''update_datablock : uuid mismatch between incoming'')]\<rparr>))
   \<and> (\<forall>proxy. proxies s (proxy_uuid (heap s (delta_value delta))) = Some proxy
          \<and> proxy_uuid (heap s proxy) = proxy_uuid (heap s (delta_value delta))
          \<and> registry_get (datablocks s) (proxy_uuid (heap s (delta_value delta))) = None \<longrightarrow>
      update_datablock x delta s
        = Inr (None, s\<lparr>log := log s @ [(WARNING, ''Non existent uuid'')]\<rparr>))
   \<and> (\<forall>proxy existing_id id' s1.
          proxies s (proxy_uuid (heap s (delta_value delta))) = Some proxy
          \<and> proxy_uuid (heap s proxy) = proxy_uuid (heap s (delta_value delta))
          \<and> registry_get (datablocks s) (proxy_uuid (heap s (delta_value delta))) = Some existing_id
          \<and> update_standalone_datablock x proxy existing_id delta s = (Inr id', s1) \<longrightarrow>
      update_datablock x delta s
        = Inr (id', if id' = Some existing_id then s1
                    else s1\<lparr>log := log s1 @ [(WARNING, ''Update_datablock changes datablock'')],
                           datablocks := (datablocks s1)(proxy_uuid (heap s (delta_value delta)) \<mapsto> id')\<rparr>))"
proof (intro conjI allI impI)
  assume "proxies s (proxy_uuid (heap s (delta_value delta))) = None"
  then show "update_datablock x delta s
        = Inr (None, s\<lparr>log := log s @ [(ERROR, ''update_datablock(): Missing proxy for'')]\<rparr>)"
    by (simp add: update_datablock_def Let_def logger_def)
next
  fix proxy
  assume "proxies s (proxy_uuid (heap s (delta_value delta))) = Some proxy
          \<and> proxy_uuid (heap s proxy) \<noteq> proxy_uuid (heap s (delta_value delta))"
  then show "update_datablock x delta s
        = Inr (None, s\<lparr>log := log s @ [(ERROR, ''update_datablock : uuid mismatch between incoming'')]\<rparr>)"
    by (simp add: update_datablock_def Let_def logger_def)
next
  fix proxy
  assume "proxies s (proxy_uuid (heap s (delta_value delta))) = Some proxy
          \<and> proxy_uuid (heap s proxy) = proxy_uuid (heap s (delta_value delta))
          \<and> registry_get (datablocks s) (proxy_uuid (heap s (delta_value delta))) = None"
  then show "update_datablock x delta s
        = Inr (None, s\<lparr>log := log s @ [(WARNING, ''Non existent uuid'')]\<rparr>)"
    by (simp add: update_datablock_def Let_def logger_def)
next
  fix proxy existing_id id' s1
  assume a: "proxies s (proxy_uuid (heap s (delta_value delta))) = Some proxy
          \<and> proxy_uuid (heap s proxy) = proxy_uuid (heap s (delta_value delta))
          \<and> registry_get (datablocks s) (proxy_uuid (heap s (delta_value delta))) = Some existing_id
          \<and> update_standalone_datablock x proxy existing_id delta s = (Inr id', s1)"
  then show "update_datablock x delta s
        = Inr (id', if id' = Some existing_id then s1
                    else s1\<lparr>log := log s1 @ [(WARNING, ''Update_datablock changes datablock'')],
                           datablocks := (datablocks s1)(proxy_uuid (heap s (delta_value delta)) \<mapsto> id')\<rparr>)"
    by (auto simp: update_datablock_def Let_def logger_def)
qed

theorem update_datablock_cases_witness:
  "update_datablock morph_externals (DeltaUpdate 1) example_state
     = Inr (None, example_state\<lparr>log := [(ERROR, ''update_datablock(): Missing proxy for'')]\<rparr>)
   \<and> update_datablock morph_externals (DeltaUpdate 1) tracked_state
     = Inr (Some 9, tracked_state\<lparr>datablocks := [''u1'' \<mapsto> Some 9],
                                   log := [(WARNING, ''Update_datablock changes datablock'')]\<rparr>)"
proof -
  have a: "update_datablock morph_externals (DeltaUpdate 1) example_state
     = Inr (None, example_state\<lparr>log := [(ERROR, ''update_datablock(): Missing proxy for'')]\<rparr>)"
    using update_datablock_cases [of example_state "DeltaUpdate 1" morph_externals]
    by (simp add: example_state_def)
  have h: "proxies tracked_state (proxy_uuid (heap tracked_state (delta_value (DeltaUpdate 1)))) = Some 0
          \<and> proxy_uuid (heap tracked_state 0) = proxy_uuid (heap tracked_state (delta_value (DeltaUpdate 1)))
          \<and> registry_get (datablocks tracked_state) (proxy_uuid (heap tracked_state (delta_value (DeltaUpdate 1)))) = Some 5
          \<and> update_standalone_datablock morph_externals 0 5 (DeltaUpdate 1) tracked_state = (Inr (Some 9), tracked_state)"
    by (simp add: tracked_state_def example_state_def registry_get_def morph_externals_def example_externals_def)
  have b: "update_datablock morph_externals (DeltaUpdate 1) tracked_state
     = Inr (Some 9, tracked_state\<lparr>datablocks := [''u1'' \<mapsto> Some 9],
                                   log := [(WARNING, ''Update_datablock changes datablock'')]\<rparr>)"
    using update_datablock_cases [of tracked_state "DeltaUpdate 1" morph_externals] h
    by (simp add: tracked_state_def example_state_def)
  from a b show ?thesis by (intro conjI)
qed

lemma remove_placeholder_scene_registry:
  assumes "remove_placeholder_scene x incoming s = (r, s')"
  shows "proxies s' = proxies s \<and> datablocks s' = datablocks s
       \<and> unresolved_refs s' = unresolved_refs s \<and> heap s' = heap s"
  using assms
  by (auto simp: remove_placeholder_scene_def Let_def logger_def split: if_splits option.splits prod.splits)

text \<open>
  Claim C7. Let \<open>s1\<close> be the state \<^verbatim>\<open>create_standalone_datablock\<close> leaves, and let the
  scene clean-up not raise. When the construction gave no datablock, \<^verbatim>\<open>create_datablock\<close>
  returns \<^verbatim>\<open>(None, None)\<close> with the collection map as it was and the registry of proxies
  and datablocks and the unresolved references as in \<open>s1\<close>. When it gave a datablock,
  the proxy is stored in the collection map and in the registry and the datablock in the
  registry, all under the uuid of the proxy, the unresolved references of that uuid are
  cleared, and their actions have run on the datablock in registration order.
\<close>

theorem create_datablock_cases:
  assumes construct: "create_standalone_datablock x incoming_proxy s = (Inr (datablock, renamed), s1)"
    and scenes: "remove_placeholder_scene x incoming_proxy s1 = (None, s2)"
  shows "(datablock = None \<longrightarrow>
            create_datablock x self_data incoming_proxy s = Inr ((None, None), self_data, s2)
            \<and> proxies s2 = proxies s1 \<and> datablocks s2 = datablocks s1
            \<and> unresolved_refs s2 = unresolved_refs s1)
       \<and> (\<forall>db. datablock = Some db \<longrightarrow>
            (\<exists>s3. create_datablock x self_data incoming_proxy s
                     = Inr ((Some db, renamed), self_data(proxy_uuid (heap s1 incoming_proxy) \<mapsto> incoming_proxy), s3)
               \<and> proxies s3 = (proxies s1)(proxy_uuid (heap s1 incoming_proxy) \<mapsto> incoming_proxy)
               \<and> datablocks s3 = (datablocks s1)(proxy_uuid (heap s1 incoming_proxy) \<mapsto> Some db)
               \<and> unresolved_refs s3 = (unresolved_refs s1)(proxy_uuid (heap s1 incoming_proxy) := None)
               \<and> world s3 = foldl (\<lambda>w action. action db w) (world s2)
                     (case unresolved_refs s1 (proxy_uuid (heap s1 incoming_proxy)) of
                        None \<Rightarrow> [] | Some actions \<Rightarrow> actions)))"
proof -
  from remove_placeholder_scene_registry [OF scenes]
  have reg: "proxies s2 = proxies s1" "datablocks s2 = datablocks s1"
    "unresolved_refs s2 = unresolved_refs s1" "heap s2 = heap s1" by simp_all
  have fail: "datablock = None \<longrightarrow>
            create_datablock x self_data incoming_proxy s = Inr ((None, None), self_data, s2)
            \<and> proxies s2 = proxies s1 \<and> datablocks s2 = datablocks s1
            \<and> unresolved_refs s2 = unresolved_refs s1"
    using construct scenes reg by (simp add: create_datablock_def)
  have ok: "\<exists>s3. create_datablock x self_data incoming_proxy s
                     = Inr ((Some db, renamed), self_data(proxy_uuid (heap s1 incoming_proxy) \<mapsto> incoming_proxy), s3)
               \<and> proxies s3 = (proxies s1)(proxy_uuid (heap s1 incoming_proxy) \<mapsto> incoming_proxy)
               \<and> datablocks s3 = (datablocks s1)(proxy_uuid (heap s1 incoming_proxy) \<mapsto> Some db)
               \<and> unresolved_refs s3 = (unresolved_refs s1)(proxy_uuid (heap s1 incoming_proxy) := None)
               \<and> world s3 = foldl (\<lambda>w action. action db w) (world s2)
                     (case unresolved_refs s1 (proxy_uuid (heap s1 incoming_proxy)) of
                        None \<Rightarrow> [] | Some actions \<Rightarrow> actions)"
    if "datablock = Some db" for db
  proof (cases "unresolved_refs s1 (proxy_uuid (heap s1 incoming_proxy))")
    case None
    then have "(unresolved_refs s1)(proxy_uuid (heap s1 incoming_proxy) := None) = unresolved_refs s1"
      by (simp add: fun_upd_idem)
    with None that construct scenes reg show ?thesis
      by (simp add: create_datablock_def Let_def resolve_def)
  next
    case (Some actions)
    with that construct scenes reg show ?thesis
      by (simp add: create_datablock_def Let_def resolve_def)
  qed
  from fail ok show ?thesis by blast
qed

theorem create_datablock_cases_witness:
  "create_standalone_datablock example_externals 0 example_state = (Inr (None, None), example_state)
   \<and> remove_placeholder_scene example_externals 0 example_state = (None, example_state)
   \<and> create_datablock example_externals Map.empty 0 example_state = Inr ((None, None), Map.empty, example_state)
   \<and> create_standalone_datablock creating_externals 0 pending_state = (Inr (Some 7, Some []), pending_state)
   \<and> remove_placeholder_scene creating_externals 0 pending_state = (None, pending_state)
   \<and> (\<exists>s3. create_datablock creating_externals Map.empty 0 pending_state
                = Inr ((Some 7, Some []), [''u1'' \<mapsto> 0], s3)
          \<and> proxies s3 ''u1'' = Some 0 \<and> datablocks s3 ''u1'' = Some (Some 7)
          \<and> unresolved_refs s3 ''u1'' = None \<and> world s3 = [7, 8])"
proof -
  have f1: "create_standalone_datablock example_externals 0 example_state = (Inr (None, None), example_state)"
    by (simp add: example_externals_def)
  have f2: "remove_placeholder_scene example_externals 0 example_state = (None, example_state)"
    by (simp add: remove_placeholder_scene_def example_state_def)
  have f3: "create_datablock example_externals Map.empty 0 example_state = Inr ((None, None), Map.empty, example_state)"
    using create_datablock_cases [OF f1 f2, of Map.empty] by simp
  have g1: "create_standalone_datablock creating_externals 0 pending_state = (Inr (Some 7, Some []), pending_state)"
    by (simp add: creating_externals_def)
  have g2: "remove_placeholder_scene creating_externals 0 pending_state = (None, pending_state)"
    by (simp add: remove_placeholder_scene_def pending_state_def)
  have u: "proxy_uuid (heap pending_state 0) = ''u1''" by (simp add: pending_state_def)
  have p: "unresolved_refs pending_state ''u1'' = Some [(\<lambda>db w. w @ [db]), (\<lambda>db w. w @ [db + 1])]"
    "world pending_state = []"
    by (simp_all add: pending_state_def)
  have g3: "\<exists>s3. create_datablock creating_externals Map.empty 0 pending_state
                = Inr ((Some 7, Some []), [''u1'' \<mapsto> 0], s3)
          \<and> proxies s3 ''u1'' = Some 0 \<and> datablocks s3 ''u1'' = Some (Some 7)
          \<and> unresolved_refs s3 ''u1'' = None \<and> world s3 = [7, 8]"
    using create_datablock_cases [OF g1 g2, of Map.empty]
    by (simp add: u p) fastforce
  from f1 f2 f3 g1 g2 g3 show ?thesis by (intro conjI)
qed

text \<open>
  Claim C9. For an external diff with no addition, no removal and the one rename of
  \<open>proxy\<close> to \<open>new_name\<close>, where the proxy's \<^verbatim>\<open>bpy.data\<close> collection has a datablock under
  \<open>new_name\<close> and the proxy's uuid is in the registry of datablocks, \<^verbatim>\<open>update\<close> returns
  a changeset whose renames are the one tuple of the uuid, the name the proxy had, the
  new name and the text of the proxy; afterwards the proxy's cached name is the new name
  and its uuid is what it was.
\<close>

theorem update_single_rename:
  assumes none_added: "items_added d = []"
    and none_removed: "items_removed d = []"
    and one_renamed: "items_renamed d = [(proxy, new_name)]"
    and coll: "bpy_data x (world s) (proxy_collection_name (heap s proxy)) = Some collection"
    and live: "collection_get x (world s) collection new_name = Some live"
    and tracked: "datablocks s (proxy_uuid (heap s proxy)) = Some registered"
  shows "\<exists>s'. update x d self_data s
           = Inr (\<lparr>creations = [], removals = [],
                   renames = [(proxy_uuid (heap s proxy), proxy_name (heap s proxy), new_name,
                               str_proxy x (heap s proxy))]\<rparr>, self_data, s')
       \<and> proxy_name (heap s' proxy) = new_name
       \<and> proxy_uuid (heap s' proxy) = proxy_uuid (heap s proxy)
       \<and> proxy_collection_name (heap s' proxy) = proxy_collection_name (heap s proxy)
       \<and> (\<forall>a. a \<noteq> proxy \<longrightarrow> heap s' a = heap s a)
       \<and> proxies s' = proxies s \<and> datablocks s' = datablocks s \<and> world s' = world s"
proof -
  define s1 where "s1 = (if Some live \<noteq> registered then logger ERROR ''update rename : is not'' s else s)"
  have h: "heap s1 = heap s" "proxies s1 = proxies s" "datablocks s1 = datablocks s" "world s1 = world s"
    by (simp_all add: s1_def logger_def)
  have one: "rename_one x proxy new_name s empty_changeset
      = Inr (rename proxy new_name s1,
             \<lparr>creations = [], removals = [],
              renames = [(proxy_uuid (heap s proxy), proxy_name (heap s proxy), new_name,
                          str_proxy x (heap s proxy))]\<rparr>)"
    unfolding rename_one_def Let_def coll live tracked option.case s1_def [symmetric]
    by (simp add: h empty_changeset_def)
  have "add_all x (items_added d) (added_names d) self_data s empty_changeset = Inr (self_data, s, empty_changeset)"
    by (simp add: added_names_def none_added)
  moreover have "remove_all x (items_removed d) self_data s empty_changeset = (self_data, s, empty_changeset)"
    by (simp add: none_removed)
  moreover have "rename_all x (items_renamed d) s empty_changeset
      = Inr (rename proxy new_name s1,
             \<lparr>creations = [], removals = [],
              renames = [(proxy_uuid (heap s proxy), proxy_name (heap s proxy), new_name,
                          str_proxy x (heap s proxy))]\<rparr>)"
    by (simp add: one_renamed one)
  ultimately have u: "update x d self_data s
           = Inr (\<lparr>creations = [], removals = [],
                   renames = [(proxy_uuid (heap s proxy), proxy_name (heap s proxy), new_name,
                               str_proxy x (heap s proxy))]\<rparr>, self_data, rename proxy new_name s1)"
    by (simp add: update_def)
  have r: "proxy_name (heap (rename proxy new_name s1) proxy) = new_name"
    "proxy_uuid (heap (rename proxy new_name s1) proxy) = proxy_uuid (heap s proxy)"
    "proxy_collection_name (heap (rename proxy new_name s1) proxy) = proxy_collection_name (heap s proxy)"
    "\<forall>a. a \<noteq> proxy \<longrightarrow> heap (rename proxy new_name s1) a = heap s a"
    "proxies (rename proxy new_name s1) = proxies s"
    "datablocks (rename proxy new_name s1) = datablocks s"
    "world (rename proxy new_name s1) = world s"
    by (simp_all add: rename_def h)
  show ?thesis
    apply (rule exI [of _ "rename proxy new_name s1"])
    apply (intro conjI)
           apply (rule u)
          apply (rule r)+
    done
qed

theorem update_single_rename_witness:
  "\<exists>s'. update example_externals \<lparr>items_added = [], items_removed = [], items_renamed = [(0, ''Box'')]\<rparr>
            [''u1'' \<mapsto> 0] tracked_state
          = Inr (\<lparr>creations = [], removals = [], renames = [(''u1'', ''Cube'', ''Box'', ''Cube'')]\<rparr>,
                 [''u1'' \<mapsto> 0], s')
       \<and> proxy_name (heap s' 0) = ''Box'' \<and> proxy_uuid (heap s' 0) = ''u1''"
proof -
  have h1: "items_added \<lparr>items_added = [], items_removed = [], items_renamed = [(0::nat, ''Box'')]\<rparr> = []" by simp
  have h2: "items_removed \<lparr>items_added = [], items_removed = [], items_renamed = [(0::nat, ''Box'')]\<rparr> = []" by simp
  have h3: "items_renamed \<lparr>items_added = [], items_removed = [], items_renamed = [(0::nat, ''Box'')]\<rparr> = [(0, ''Box'')]" by simp
  have h4: "bpy_data example_externals (world tracked_state) (proxy_collection_name (heap tracked_state 0)) = Some 0"
    by (simp add: example_externals_def)
  have h5: "collection_get example_externals (world tracked_state) 0 ''Box'' = Some 5"
    by (simp add: example_externals_def)
  have h6: "datablocks tracked_state (proxy_uuid (heap tracked_state 0)) = Some (Some 5)"
    by (simp add: tracked_state_def example_state_def)
  have v: "proxy_uuid (heap tracked_state 0) = ''u1''" "proxy_name (heap tracked_state 0) = ''Cube''"
    "str_proxy example_externals (heap tracked_state 0) = ''Cube''"
    by (simp_all add: tracked_state_def example_state_def example_externals_def)
  from update_single_rename [OF h1 h2 h3 h4 h5 h6, of "[''u1'' \<mapsto> 0]"]
  show ?thesis unfolding v by blast
qed

lemma add_all_append:
  "add_all x added (xs @ ys) sd s cs =
     (case add_all x added xs sd s cs of
        Inl e \<Rightarrow> Inl e
      | Inr (sd1, s1, cs1) \<Rightarrow> add_all x added ys sd1 s1 cs1)"
proof (induction xs arbitrary: sd s cs)
  case Nil
  then show ?case by simp
next
  case (Cons name xs)
  show ?case
  proof (cases "map_of added name")
    case None
    then show ?thesis by simp
  next
    case (Some cname)
    obtain r sd' s' cs' where a:
      "add_one x cname name sd (logger INFO ''Perform update/creation for %s[%s]'' s) cs = (r, sd', s', cs')"
      by (cases "add_one x cname name sd (logger INFO ''Perform update/creation for %s[%s]'' s) cs") auto
    show ?thesis using Some a Cons.IH by (cases r) simp_all
  qed
qed

lemma add_one_failure:
  "add_one x cname name sd s cs = (Some e, sd', s', cs') \<Longrightarrow> sd' = sd \<and> cs' = cs"
  by (auto simp: add_one_def alloc_def Let_def split: option.splits prod.splits sum.splits)

lemma add_all_returns:
  "set names \<subseteq> fst ` set added \<Longrightarrow> \<exists>r. add_all x added names sd s cs = Inr r"
proof (induction names arbitrary: sd s cs)
  case Nil
  then show ?case by simp
next
  case (Cons name names)
  then have "name \<in> fst ` set added" by simp
  then obtain cname where c: "map_of added name = Some cname"
    by (cases "map_of added name") (auto simp: map_of_None_iff)
  obtain r sd' s' cs' where a:
    "add_one x cname name sd (logger INFO ''Perform update/creation for %s[%s]'' s) cs = (r, sd', s', cs')"
    by (cases "add_one x cname name sd (logger INFO ''Perform update/creation for %s[%s]'' s) cs") auto
  have rest: "set names \<subseteq> fst ` set added" using Cons.prems by simp
  show ?case using c a Cons.IH [OF rest] by (cases r) simp_all
qed

lemma added_names_set: "set (added_names d) = fst ` set (items_added d)"
  by (simp add: added_names_def)

lemma add_one_no_collection:
  assumes "bpy_data x (world s) collection_name = None"
  shows "add_one x collection_name name sd s cs = (Some AttributeError, sd, s, cs)"
  using assms by (simp add: add_one_def)

lemma add_one_no_uuid:
  assumes "bpy_data x (world s) collection_name = Some collection"
    and "collection_get x (world s) collection name = Some id'"
    and "ensure_uuid x id' (world s) = (Inl e, w1)"
  shows "add_one x collection_name name sd s cs = (Some e, sd, s\<lparr>world := w1\<rparr>, cs)"
  using assms by (simp add: add_one_def)

lemma add_one_load_fails:
  assumes "bpy_data x (world s) collection_name = Some collection"
    and "collection_get x (world s) collection name = Some id'"
    and "ensure_uuid x id' (world s) = (Inr uuid, w1)"
    and "load_datablock x id' name collection_name
           (s\<lparr>world := w1, datablocks := (datablocks s)(uuid \<mapsto> Some id')\<rparr>) = (Inl e, s2)"
  shows "add_one x collection_name name sd s cs = (Some e, sd, s2, cs)"
  using assms by (simp add: add_one_def Let_def)

lemma add_one_raises_cause:
  assumes "add_one x collection_name name sd s cs = (Some e, sd2, s2, cs2)"
  shows "(bpy_data x (world s) collection_name = None \<and> e = AttributeError)
       \<or> (\<exists>collection id'. bpy_data x (world s) collection_name = Some collection
             \<and> collection_get x (world s) collection name = Some id'
             \<and> ((\<exists>w1. ensure_uuid x id' (world s) = (Inl e, w1))
                \<or> (\<exists>uuid w1. ensure_uuid x id' (world s) = (Inr uuid, w1)
                      \<and> load_datablock x id' name collection_name
                           (s\<lparr>world := w1, datablocks := (datablocks s)(uuid \<mapsto> Some id')\<rparr>) = (Inl e, s2))))"
  using assms
  by (auto simp: add_one_def alloc_def Let_def split: option.splits prod.splits sum.splits)

lemma add_all_skips:
  assumes cname: "map_of (items_added d) name = Some collection_name"
    and names: "added_names d = pre @ name # post"
    and pre: "add_all x (items_added d) pre self_data s empty_changeset = Inr (sd1, s1, cs1)"
    and fails: "add_one x collection_name name sd1 (logger INFO ''Perform update/creation for %s[%s]'' s1) cs1
                  = (Some e, sd2, s2, cs2)"
  shows "creations cs2 = creations cs1
      \<and> add_all x (items_added d) (added_names d) self_data s empty_changeset
          = add_all x (items_added d) post sd1 (log_add_failure e s2) cs1"
proof -
  from add_one_failure [OF fails] have same: "sd2 = sd1" "cs2 = cs1" by simp_all
  have a: "creations cs2 = creations cs1" using same by simp
  have b: "add_all x (items_added d) (added_names d) self_data s empty_changeset
          = add_all x (items_added d) post sd1 (log_add_failure e s2) cs1"
    unfolding names add_all_append pre using cname fails same by simp
  from a b show ?thesis by (intro conjI)
qed

lemma log_add_failure_log:
  "log (log_add_failure e s) = log s @
          (if e = MaxDepthExceeded then
             [(ERROR, ''MaxDepthExceeded while loading''),
              (ERROR, ''... Nested attribute depth is too large: ''), (ERROR, ''... {e!r}'')]
           else [(ERROR, ''Exception while loading''), (ERROR, ''traceback'')])"
  by (simp add: log_add_failure_def logger_def)

text \<open>
  Claim C8. In the additions loop of \<^verbatim>\<open>update\<close>, in the state the names before it have
  left, a name is skipped and the loop goes on whenever its \<^verbatim>\<open>try\<close> block raises: when
  \<^verbatim>\<open>bpy.data\<close> has no collection of that name, when \<^verbatim>\<open>ensure_uuid\<close> raises, and when \<^verbatim>\<open>load\<close>
  raises (\<^verbatim>\<open>MaxDepthExceeded\<close> or any other exception). In each case the loop continues with
  the names after it, with \<^verbatim>\<open>self._data\<close> and the changeset as they were before the name
  (nothing is appended to \<^verbatim>\<open>changeset.creations\<close>), in the state the failing call left
  with the error lines logged: three for \<^verbatim>\<open>MaxDepthExceeded\<close>, else two. The same holds
  for whatever exception leaves the \<^verbatim>\<open>try\<close> block, and such an exception comes from one of
  these three calls. The loop as a whole returns normally.
\<close>

theorem failed_addition_is_skipped:
  assumes cname: "map_of (items_added d) name = Some collection_name"
    and names: "added_names d = pre @ name # post"
    and pre: "add_all x (items_added d) pre self_data s empty_changeset = Inr (sd1, s1, cs1)"
  shows
   "(bpy_data x (world s1) collection_name = None \<longrightarrow>
       add_all x (items_added d) (added_names d) self_data s empty_changeset
         = add_all x (items_added d) post sd1
             (log_add_failure AttributeError (logger INFO ''Perform update/creation for %s[%s]'' s1)) cs1)
    \<and> (bpy_data x (world s1) collection_name = Some collection
       \<and> collection_get x (world s1) collection name = Some id'
       \<and> ensure_uuid x id' (world s1) = (Inl e, w1) \<longrightarrow>
       add_all x (items_added d) (added_names d) self_data s empty_changeset
         = add_all x (items_added d) post sd1
             (log_add_failure e ((logger INFO ''Perform update/creation for %s[%s]'' s1)\<lparr>world := w1\<rparr>)) cs1)
    \<and> (bpy_data x (world s1) collection_name = Some collection
       \<and> collection_get x (world s1) collection name = Some id'
       \<and> ensure_uuid x id' (world s1) = (Inr uuid, w1)
       \<and> load_datablock x id' name collection_name
            ((logger INFO ''Perform update/creation for %s[%s]'' s1)
               \<lparr>world := w1, datablocks := (datablocks s1)(uuid \<mapsto> Some id')\<rparr>) = (Inl e, s2) \<longrightarrow>
       add_all x (items_added d) (added_names d) self_data s empty_changeset
         = add_all x (items_added d) post sd1 (log_add_failure e s2) cs1)
    \<and> (add_one x collection_name name sd1 (logger INFO ''Perform update/creation for %s[%s]'' s1) cs1
          = (Some e, sd2, s2, cs2) \<longrightarrow>
       creations cs2 = creations cs1
       \<and> add_all x (items_added d) (added_names d) self_data s empty_changeset
           = add_all x (items_added d) post sd1 (log_add_failure e s2) cs1
       \<and> ((bpy_data x (world s1) collection_name = None \<and> e = AttributeError)
          \<or> (\<exists>coll db. bpy_data x (world s1) collection_name = Some coll
                \<and> collection_get x (world s1) coll name = Some db
                \<and> ((\<exists>w. ensure_uuid x db (world s1) = (Inl e, w))
                   \<or> (\<exists>u w. ensure_uuid x db (world s1) = (Inr u, w)
                         \<and> load_datablock x db name collection_name
                              ((logger INFO ''Perform update/creation for %s[%s]'' s1)
                                 \<lparr>world := w, datablocks := (datablocks s1)(u \<mapsto> Some db)\<rparr>) = (Inl e, s2))))))
    \<and> (\<exists>r. add_all x (items_added d) (added_names d) self_data s empty_changeset = Inr r)
    \<and> log (log_add_failure e s3) = log s3 @
          (if e = MaxDepthExceeded then
             [(ERROR, ''MaxDepthExceeded while loading''),
              (ERROR, ''... Nested attribute depth is too large: ''), (ERROR, ''... {e!r}'')]
           else [(ERROR, ''Exception while loading''), (ERROR, ''traceback'')])"
proof -
  let ?s0 = "logger INFO ''Perform update/creation for %s[%s]'' s1"
  have w0: "world ?s0 = world s1" and d0: "datablocks ?s0 = datablocks s1" by (simp_all add: logger_def)
  have c1: "bpy_data x (world s1) collection_name = None \<longrightarrow>
       add_all x (items_added d) (added_names d) self_data s empty_changeset
         = add_all x (items_added d) post sd1 (log_add_failure AttributeError ?s0) cs1"
  proof
    assume "bpy_data x (world s1) collection_name = None"
    then have "add_one x collection_name name sd1 ?s0 cs1 = (Some AttributeError, sd1, ?s0, cs1)"
      by (intro add_one_no_collection) (simp add: w0)
    from add_all_skips [OF cname names pre this]
    show "add_all x (items_added d) (added_names d) self_data s empty_changeset
         = add_all x (items_added d) post sd1 (log_add_failure AttributeError ?s0) cs1"
      by (rule conjunct2)
  qed
  have c2: "bpy_data x (world s1) collection_name = Some collection
       \<and> collection_get x (world s1) collection name = Some id'
       \<and> ensure_uuid x id' (world s1) = (Inl e, w1) \<longrightarrow>
       add_all x (items_added d) (added_names d) self_data s empty_changeset
         = add_all x (items_added d) post sd1 (log_add_failure e (?s0\<lparr>world := w1\<rparr>)) cs1"
  proof
    assume a: "bpy_data x (world s1) collection_name = Some collection
       \<and> collection_get x (world s1) collection name = Some id'
       \<and> ensure_uuid x id' (world s1) = (Inl e, w1)"
    have "add_one x collection_name name sd1 ?s0 cs1 = (Some e, sd1, ?s0\<lparr>world := w1\<rparr>, cs1)"
      using a by (intro add_one_no_uuid [where collection = collection and id' = id']) (simp_all add: w0)
    from add_all_skips [OF cname names pre this]
    show "add_all x (items_added d) (added_names d) self_data s empty_changeset
         = add_all x (items_added d) post sd1 (log_add_failure e (?s0\<lparr>world := w1\<rparr>)) cs1"
      by (rule conjunct2)
  qed
  have c3: "bpy_data x (world s1) collection_name = Some collection
       \<and> collection_get x (world s1) collection name = Some id'
       \<and> ensure_uuid x id' (world s1) = (Inr uuid, w1)
       \<and> load_datablock x id' name collection_name
            (?s0\<lparr>world := w1, datablocks := (datablocks s1)(uuid \<mapsto> Some id')\<rparr>) = (Inl e, s2) \<longrightarrow>
       add_all x (items_added d) (added_names d) self_data s empty_changeset
         = add_all x (items_added d) post sd1 (log_add_failure e s2) cs1"
  proof
    assume a: "bpy_data x (world s1) collection_name = Some collection
       \<and> collection_get x (world s1) collection name = Some id'
       \<and> ensure_uuid x id' (world s1) = (Inr uuid, w1)
       \<and> load_datablock x id' name collection_name
            (?s0\<lparr>world := w1, datablocks := (datablocks s1)(uuid \<mapsto> Some id')\<rparr>) = (Inl e, s2)"
    have "add_one x collection_name name sd1 ?s0 cs1 = (Some e, sd1, s2, cs1)"
      using a
      by (intro add_one_load_fails [where collection = collection and id' = id' and uuid = uuid and ?w1.0 = w1])
        (simp_all add: w0 d0)
    from add_all_skips [OF cname names pre this]
    show "add_all x (items_added d) (added_names d) self_data s empty_changeset
         = add_all x (items_added d) post sd1 (log_add_failure e s2) cs1"
      by (rule conjunct2)
  qed
  have c4: "add_one x collection_name name sd1 ?s0 cs1 = (Some e, sd2, s2, cs2) \<longrightarrow>
       creations cs2 = creations cs1
       \<and> add_all x (items_added d) (added_names d) self_data s empty_changeset
           = add_all x (items_added d) post sd1 (log_add_failure e s2) cs1
       \<and> ((bpy_data x (world s1) collection_name = None \<and> e = AttributeError)
          \<or> (\<exists>coll db. bpy_data x (world s1) collection_name = Some coll
                \<and> collection_get x (world s1) coll name = Some db
                \<and> ((\<exists>w. ensure_uuid x db (world s1) = (Inl e, w))
                   \<or> (\<exists>u w. ensure_uuid x db (world s1) = (Inr u, w)
                         \<and> load_datablock x db name collection_name
                              (?s0\<lparr>world := w, datablocks := (datablocks s1)(u \<mapsto> Some db)\<rparr>) = (Inl e, s2)))))"
  proof
    assume f: "add_one x collection_name name sd1 ?s0 cs1 = (Some e, sd2, s2, cs2)"
    from add_all_skips [OF cname names pre f]
    have p: "creations cs2 = creations cs1"
      and q: "add_all x (items_added d) (added_names d) self_data s empty_changeset
           = add_all x (items_added d) post sd1 (log_add_failure e s2) cs1" by simp_all
    from add_one_raises_cause [OF f]
    have r: "(bpy_data x (world s1) collection_name = None \<and> e = AttributeError)
          \<or> (\<exists>coll db. bpy_data x (world s1) collection_name = Some coll
                \<and> collection_get x (world s1) coll name = Some db
                \<and> ((\<exists>w. ensure_uuid x db (world s1) = (Inl e, w))
                   \<or> (\<exists>u w. ensure_uuid x db (world s1) = (Inr u, w)
                         \<and> load_datablock x db name collection_name
                              (?s0\<lparr>world := w, datablocks := (datablocks s1)(u \<mapsto> Some db)\<rparr>) = (Inl e, s2))))"
      by (simp only: w0 d0)
    from p q r show "creations cs2 = creations cs1
       \<and> add_all x (items_added d) (added_names d) self_data s empty_changeset
           = add_all x (items_added d) post sd1 (log_add_failure e s2) cs1
       \<and> ((bpy_data x (world s1) collection_name = None \<and> e = AttributeError)
          \<or> (\<exists>coll db. bpy_data x (world s1) collection_name = Some coll
                \<and> collection_get x (world s1) coll name = Some db
                \<and> ((\<exists>w. ensure_uuid x db (world s1) = (Inl e, w))
                   \<or> (\<exists>u w. ensure_uuid x db (world s1) = (Inr u, w)
                         \<and> load_datablock x db name collection_name
                              (?s0\<lparr>world := w, datablocks := (datablocks s1)(u \<mapsto> Some db)\<rparr>) = (Inl e, s2)))))"
      by (intro conjI)
  qed
  have c5: "\<exists>r. add_all x (items_added d) (added_names d) self_data s empty_changeset = Inr r"
    by (rule add_all_returns) (simp add: added_names_set)
  have c6: "log (log_add_failure e s3) = log s3 @
          (if e = MaxDepthExceeded then
             [(ERROR, ''MaxDepthExceeded while loading''),
              (ERROR, ''... Nested attribute depth is too large: ''), (ERROR, ''... {e!r}'')]
           else [(ERROR, ''Exception while loading''), (ERROR, ''traceback'')])"
    by (rule log_add_failure_log)
  from c1 c2 c3 c4 c5 c6 show ?thesis by (intro conjI)
qed

lemma two_added_names: "added_names two_added = [''Ball'', ''Cube'']"
  unfolding added_names_def two_added_def by code_simp

lemma cone_added_names: "added_names cone_added = [''Cone'', ''Cube'']"
  unfolding added_names_def cone_added_def by code_simp

lemma arc_added_names: "added_names arc_added = [''Arc'', ''Cube'']"
  unfolding added_names_def arc_added_def by code_simp

theorem failed_addition_is_skipped_witness:
  "load_datablock deep_externals 5 ''Ball'' ''objects''
        ((logger INFO ''Perform update/creation for %s[%s]'' example_state)
           \<lparr>world := (), datablocks := (datablocks example_state)(''u5'' \<mapsto> Some 5)\<rparr>)
      = (Inl MaxDepthExceeded,
         (logger INFO ''Perform update/creation for %s[%s]'' example_state)
           \<lparr>world := (), datablocks := (datablocks example_state)(''u5'' \<mapsto> Some 5)\<rparr>)
   \<and> (\<exists>sd s'. add_all deep_externals (items_added two_added) (added_names two_added) Map.empty
                  example_state empty_changeset
                = Inr (sd, s', \<lparr>creations = [1], removals = [], renames = []\<rparr>)
          \<and> log s' = [(INFO, ''Perform update/creation for %s[%s]''),
                       (ERROR, ''MaxDepthExceeded while loading''),
                       (ERROR, ''... Nested attribute depth is too large: ''), (ERROR, ''... {e!r}''),
                       (INFO, ''Perform update/creation for %s[%s]'')])
   \<and> ensure_uuid brittle_externals 6 (world example_state) = (Inl TypeError, ())
   \<and> (\<exists>sd s'. add_all brittle_externals (items_added two_added) (added_names two_added) Map.empty
                  example_state empty_changeset
                = Inr (sd, s', \<lparr>creations = [1], removals = [], renames = []\<rparr>)
          \<and> log s' = [(INFO, ''Perform update/creation for %s[%s]''),
                       (ERROR, ''Exception while loading''), (ERROR, ''traceback''),
                       (INFO, ''Perform update/creation for %s[%s]'')])
   \<and> load_datablock brittle_externals 7 ''Cone'' ''objects''
        ((logger INFO ''Perform update/creation for %s[%s]'' example_state)
           \<lparr>world := (), datablocks := (datablocks example_state)(''u7'' \<mapsto> Some 7)\<rparr>)
      = (Inl RuntimeError,
         (logger INFO ''Perform update/creation for %s[%s]'' example_state)
           \<lparr>world := (), datablocks := (datablocks example_state)(''u7'' \<mapsto> Some 7)\<rparr>)
   \<and> (\<exists>sd s'. add_all brittle_externals (items_added cone_added) (added_names cone_added) Map.empty
                  example_state empty_changeset
                = Inr (sd, s', \<lparr>creations = [1], removals = [], renames = []\<rparr>)
          \<and> log s' = [(INFO, ''Perform update/creation for %s[%s]''),
                       (ERROR, ''Exception while loading''), (ERROR, ''traceback''),
                       (INFO, ''Perform update/creation for %s[%s]'')])
   \<and> bpy_data brittle_externals (world example_state) ''nowhere'' = None
   \<and> (\<exists>sd s'. add_all brittle_externals (items_added arc_added) (added_names arc_added) Map.empty
                  example_state empty_changeset
                = Inr (sd, s', \<lparr>creations = [1], removals = [], renames = []\<rparr>)
          \<and> log s' = [(INFO, ''Perform update/creation for %s[%s]''),
                       (ERROR, ''Exception while loading''), (ERROR, ''traceback''),
                       (INFO, ''Perform update/creation for %s[%s]'')])"
proof -
  let ?s0 = "logger INFO ''Perform update/creation for %s[%s]'' example_state"
  have n1: "added_names two_added = [] @ ''Ball'' # [''Cube'']" by (simp add: two_added_names)
  have n2: "added_names cone_added = [] @ ''Cone'' # [''Cube'']" by (simp add: cone_added_names)
  have n3: "added_names arc_added = [] @ ''Arc'' # [''Cube'']" by (simp add: arc_added_names)
  have m1: "map_of (items_added two_added) ''Ball'' = Some ''objects''" by (simp add: two_added_def)
  have m2: "map_of (items_added cone_added) ''Cone'' = Some ''objects''" by (simp add: cone_added_def)
  have m3: "map_of (items_added arc_added) ''Arc'' = Some ''nowhere''" by (simp add: arc_added_def)
  have p0: "add_all x added [] Map.empty example_state empty_changeset
              = Inr (Map.empty, example_state, empty_changeset)" for x :: "unit externals" and added
    by simp
  \<comment> \<open>load exceeds the depth\<close>
  have a1: "bpy_data deep_externals (world example_state) ''objects'' = Some 0"
    by (simp add: deep_externals_def example_externals_def)
  have a2: "collection_get deep_externals (world example_state) 0 ''Ball'' = Some 5"
    by (simp add: deep_externals_def example_externals_def)
  have a3: "ensure_uuid deep_externals 5 (world example_state) = (Inr ''u5'', ())"
    by (simp add: deep_externals_def example_externals_def)
  have a4: "load_datablock deep_externals 5 ''Ball'' ''objects''
        (?s0\<lparr>world := (), datablocks := (datablocks example_state)(''u5'' \<mapsto> Some 5)\<rparr>)
      = (Inl MaxDepthExceeded, ?s0\<lparr>world := (), datablocks := (datablocks example_state)(''u5'' \<mapsto> Some 5)\<rparr>)"
    by (simp add: deep_externals_def)
  have e1: "add_all deep_externals (items_added two_added) (added_names two_added) Map.empty
                  example_state empty_changeset
          = add_all deep_externals (items_added two_added) [''Cube''] Map.empty
              (log_add_failure MaxDepthExceeded
                 (?s0\<lparr>world := (), datablocks := (datablocks example_state)(''u5'' \<mapsto> Some 5)\<rparr>))
              empty_changeset"
    by (rule failed_addition_is_skipped [OF m1 n1 p0, THEN conjunct2, THEN conjunct2, THEN conjunct1, THEN mp,
          OF conjI [OF a1 conjI [OF a2 conjI [OF a3 a4]]]])
  have q1: "\<exists>sd s'. add_all deep_externals (items_added two_added) [''Cube''] Map.empty
              (log_add_failure MaxDepthExceeded
                 (?s0\<lparr>world := (), datablocks := (datablocks example_state)(''u5'' \<mapsto> Some 5)\<rparr>))
              empty_changeset
            = Inr (sd, s', \<lparr>creations = [1], removals = [], renames = []\<rparr>)
          \<and> log s' = [(INFO, ''Perform update/creation for %s[%s]''),
                       (ERROR, ''MaxDepthExceeded while loading''),
                       (ERROR, ''... Nested attribute depth is too large: ''), (ERROR, ''... {e!r}''),
                       (INFO, ''Perform update/creation for %s[%s]'')]"
    by (simp add: add_one_def alloc_def deep_externals_def example_externals_def example_state_def
        logger_def log_add_failure_def two_added_def empty_changeset_def)
  have r1: "\<exists>sd s'. add_all deep_externals (items_added two_added) (added_names two_added) Map.empty
                  example_state empty_changeset
                = Inr (sd, s', \<lparr>creations = [1], removals = [], renames = []\<rparr>)
          \<and> log s' = [(INFO, ''Perform update/creation for %s[%s]''),
                       (ERROR, ''MaxDepthExceeded while loading''),
                       (ERROR, ''... Nested attribute depth is too large: ''), (ERROR, ''... {e!r}''),
                       (INFO, ''Perform update/creation for %s[%s]'')]"
    unfolding e1 by (rule q1)
  \<comment> \<open>ensure_uuid fails\<close>
  have b1: "bpy_data brittle_externals (world example_state) ''objects'' = Some 0"
    by (simp add: brittle_externals_def)
  have b2: "collection_get brittle_externals (world example_state) 0 ''Ball'' = Some 6"
    by (simp add: brittle_externals_def)
  have b3: "ensure_uuid brittle_externals 6 (world example_state) = (Inl TypeError, ())"
    by (simp add: brittle_externals_def)
  have e2: "add_all brittle_externals (items_added two_added) (added_names two_added) Map.empty
                  example_state empty_changeset
          = add_all brittle_externals (items_added two_added) [''Cube''] Map.empty
              (log_add_failure TypeError (?s0\<lparr>world := ()\<rparr>)) empty_changeset"
    by (rule failed_addition_is_skipped [OF m1 n1 p0, THEN conjunct2, THEN conjunct1, THEN mp,
          OF conjI [OF b1 conjI [OF b2 b3]]])
  have q2: "\<exists>sd s'. add_all brittle_externals (items_added two_added) [''Cube''] Map.empty
              (log_add_failure TypeError (?s0\<lparr>world := ()\<rparr>)) empty_changeset
            = Inr (sd, s', \<lparr>creations = [1], removals = [], renames = []\<rparr>)
          \<and> log s' = [(INFO, ''Perform update/creation for %s[%s]''),
                       (ERROR, ''Exception while loading''), (ERROR, ''traceback''),
                       (INFO, ''Perform update/creation for %s[%s]'')]"
    by (simp add: add_one_def alloc_def brittle_externals_def example_externals_def example_state_def
        logger_def log_add_failure_def two_added_def empty_changeset_def)
  have r2: "\<exists>sd s'. add_all brittle_externals (items_added two_added) (added_names two_added) Map.empty
                  example_state empty_changeset
                = Inr (sd, s', \<lparr>creations = [1], removals = [], renames = []\<rparr>)
          \<and> log s' = [(INFO, ''Perform update/creation for %s[%s]''),
                       (ERROR, ''Exception while loading''), (ERROR, ''traceback''),
                       (INFO, ''Perform update/creation for %s[%s]'')]"
    unfolding e2 by (rule q2)
  \<comment> \<open>load fails\<close>
  have c2: "collection_get brittle_externals (world example_state) 0 ''Cone'' = Some 7"
    by (simp add: brittle_externals_def)
  have c3: "ensure_uuid brittle_externals 7 (world example_state) = (Inr ''u7'', ())"
    by (simp add: brittle_externals_def)
  have c4: "load_datablock brittle_externals 7 ''Cone'' ''objects''
        (?s0\<lparr>world := (), datablocks := (datablocks example_state)(''u7'' \<mapsto> Some 7)\<rparr>)
      = (Inl RuntimeError, ?s0\<lparr>world := (), datablocks := (datablocks example_state)(''u7'' \<mapsto> Some 7)\<rparr>)"
    by (simp add: brittle_externals_def)
  have e3: "add_all brittle_externals (items_added cone_added) (added_names cone_added) Map.empty
                  example_state empty_changeset
          = add_all brittle_externals (items_added cone_added) [''Cube''] Map.empty
              (log_add_failure RuntimeError
                 (?s0\<lparr>world := (), datablocks := (datablocks example_state)(''u7'' \<mapsto> Some 7)\<rparr>))
              empty_changeset"
    by (rule failed_addition_is_skipped [OF m2 n2 p0, THEN conjunct2, THEN conjunct2, THEN conjunct1, THEN mp,
          OF conjI [OF b1 conjI [OF c2 conjI [OF c3 c4]]]])
  have q3: "\<exists>sd s'. add_all brittle_externals (items_added cone_added) [''Cube''] Map.empty
              (log_add_failure RuntimeError
                 (?s0\<lparr>world := (), datablocks := (datablocks example_state)(''u7'' \<mapsto> Some 7)\<rparr>))
              empty_changeset
            = Inr (sd, s', \<lparr>creations = [1], removals = [], renames = []\<rparr>)
          \<and> log s' = [(INFO, ''Perform update/creation for %s[%s]''),
                       (ERROR, ''Exception while loading''), (ERROR, ''traceback''),
                       (INFO, ''Perform update/creation for %s[%s]'')]"
    by (simp add: add_one_def alloc_def brittle_externals_def example_externals_def example_state_def
        logger_def log_add_failure_def cone_added_def empty_changeset_def)
  have r3: "\<exists>sd s'. add_all brittle_externals (items_added cone_added) (added_names cone_added) Map.empty
                  example_state empty_changeset
                = Inr (sd, s', \<lparr>creations = [1], removals = [], renames = []\<rparr>)
          \<and> log s' = [(INFO, ''Perform update/creation for %s[%s]''),
                       (ERROR, ''Exception while loading''), (ERROR, ''traceback''),
                       (INFO, ''Perform update/creation for %s[%s]'')]"
    unfolding e3 by (rule q3)
  \<comment> \<open>bpy.data has no such collection\<close>
  have d1: "bpy_data brittle_externals (world example_state) ''nowhere'' = None"
    by (simp add: brittle_externals_def)
  have e4: "add_all brittle_externals (items_added arc_added) (added_names arc_added) Map.empty
                  example_state empty_changeset
          = add_all brittle_externals (items_added arc_added) [''Cube''] Map.empty
              (log_add_failure AttributeError ?s0) empty_changeset"
    by (rule failed_addition_is_skipped [OF m3 n3 p0, THEN conjunct1, THEN mp, OF d1])
  have q4: "\<exists>sd s'. add_all brittle_externals (items_added arc_added) [''Cube''] Map.empty
              (log_add_failure AttributeError ?s0) empty_changeset
            = Inr (sd, s', \<lparr>creations = [1], removals = [], renames = []\<rparr>)
          \<and> log s' = [(INFO, ''Perform update/creation for %s[%s]''),
                       (ERROR, ''Exception while loading''), (ERROR, ''traceback''),
                       (INFO, ''Perform update/creation for %s[%s]'')]"
    by (simp add: add_one_def alloc_def brittle_externals_def example_externals_def example_state_def
        logger_def log_add_failure_def arc_added_def empty_changeset_def)
  have r4: "\<exists>sd s'. add_all brittle_externals (items_added arc_added) (added_names arc_added) Map.empty
                  example_state empty_changeset
                = Inr (sd, s', \<lparr>creations = [1], removals = [], renames = []\<rparr>)
          \<and> log s' = [(INFO, ''Perform update/creation for %s[%s]''),
                       (ERROR, ''Exception while loading''), (ERROR, ''traceback''),
                       (INFO, ''Perform update/creation for %s[%s]'')]"
    unfolding e4 by (rule q4)
  from a4 r1 b3 r2 c4 r3 d1 r4 show ?thesis by (intro conjI)
qed
















end
